theory Spec2Isabelle
  imports Complex_Main "HOL-Library.Word"
begin

unbundle bit_operations_syntax

section \<open>Numbers\<close>

text \<open>
  Go's \<open>float64\<close> is IEEE 754 binary64. A value other than NaN is an \<open>fcost\<close>: minus
  infinity, a finite value (given by the real number it denotes) or plus infinity; the order
  on \<open>fcost\<close> is the one of Go's \<open><\<close> and \<open><=\<close> on such values. \<open>float64\<close> adds NaN, on
  which both comparisons are false (\<open>flt\<close>, \<open>fle\<close>). The two zeros are one value,
  \<open>Fin 0\<close>: Go's comparisons do not tell them apart.

  The cost engine computes with \<open>float64\<close>. What the rest of the program reads from the
  configuration, from a pricing table or from a cluster's answer and then compares or
  passes on (latencies, throughputs, thresholds, prices) is finite and is given by the real
  number it denotes; the sums and products of prices in the provider adapters are taken on
  these reals.
\<close>

datatype fcost = NInf | Fin real | PInf

instantiation fcost :: linorder
begin

fun less_eq_fcost :: "fcost \<Rightarrow> fcost \<Rightarrow> bool" where
  "less_eq_fcost NInf c = True"
| "less_eq_fcost (Fin x) NInf = False"
| "less_eq_fcost (Fin x) (Fin y) = (x \<le> y)"
| "less_eq_fcost (Fin x) PInf = True"
| "less_eq_fcost PInf PInf = True"
| "less_eq_fcost PInf c = False"

fun less_fcost :: "fcost \<Rightarrow> fcost \<Rightarrow> bool" where
  "less_fcost c NInf = False"
| "less_fcost NInf c = True"
| "less_fcost (Fin x) (Fin y) = (x < y)"
| "less_fcost (Fin x) PInf = True"
| "less_fcost PInf c = False"

instance
proof
  fix a b c :: fcost
  show "(a < b) = (a \<le> b \<and> \<not> b \<le> a)"
    by (cases a; cases b) auto
  show "a \<le> a"
    by (cases a) auto
  show "a \<le> b \<Longrightarrow> b \<le> c \<Longrightarrow> a \<le> c"
    by (cases a; cases b; cases c) auto
  show "a \<le> b \<Longrightarrow> b \<le> a \<Longrightarrow> a = b"
    by (cases a; cases b) auto
  show "a \<le> b \<or> b \<le> a"
    by (cases a; cases b) auto
qed

end

datatype float64 = Num fcost | NaN

fun fle :: "float64 \<Rightarrow> float64 \<Rightarrow> bool" where
  "fle (Num a) (Num b) = (a \<le> b)"
| "fle a b = False"

fun flt :: "float64 \<Rightarrow> float64 \<Rightarrow> bool" where
  "flt (Num a) (Num b) = (a < b)"
| "flt a b = False"

text \<open>
  Rounding. The finite values of binary64 are the integer multiples \<open>m * 2^(e - 52)\<close> with
  \<open>\<bar>m\<bar> < 2^53\<close> and \<open>- 1022 \<le> e \<le> 1023\<close>. \<open>binade a\<close> is the exponent \<open>e\<close> of the
  interval \<open>[2^e, 2^(e + 1))\<close> that holds \<open>a\<close>, kept within these bounds (below \<open>2^-1022\<close>
  the values are subnormal, all on the spacing \<open>2^-1074\<close>). \<open>round64\<close> takes the exact
  result of an operation to the nearest multiple of the spacing of its binade, a tie to the
  even multiple, and to an infinity when that multiple is \<open>2^1024\<close>.
\<close>

definition two_to :: "int \<Rightarrow> real" where
  "two_to k = (if 0 \<le> k then 2 ^ nat k else 1 / 2 ^ nat (- k))"

definition round_half_even :: "real \<Rightarrow> int" where
  "round_half_even r =
     (let f = \<lfloor>r\<rfloor>; d = r - of_int f
      in if d < 1/2 then f else if 1/2 < d then f + 1 else if even f then f else f + 1)"

definition binade :: "real \<Rightarrow> int" where
  "binade a = (if a < two_to (- 1022) then - 1022
               else Max {e \<in> {- 1022 .. 1023}. two_to e \<le> a})"

definition round64 :: "real \<Rightarrow> fcost" where
  "round64 x =
     (if x = 0 then Fin 0
      else
        let a = \<bar>x\<bar>;
            spacing = two_to (binade a - 52);
            y = of_int (round_half_even (a / spacing)) * spacing
        in if two_to 1024 \<le> y then (if 0 < x then PInf else NInf)
           else Fin (if 0 < x then y else - y))"

text \<open>
  Go's \<open>*\<close> and \<open>/\<close> on \<open>float64\<close>. A NaN operand gives NaN, and so do \<open>0 * Inf\<close>,
  \<open>0 / 0\<close> and \<open>Inf / Inf\<close>; an infinite result has the sign of the exact one; a zero
  divisor counts as \<open>+0\<close>. \<open>nearest\<close> is the conversion of a decimal constant or of a
  configuration value to \<open>float64\<close>.
\<close>

definition signed_inf :: "bool \<Rightarrow> fcost" where
  "signed_inf negative = (if negative then NInf else PInf)"

definition mul_num :: "fcost \<Rightarrow> fcost \<Rightarrow> float64" where
  "mul_num a b =
     (case (a, b) of
        (Fin x, Fin y) \<Rightarrow> Num (round64 (x * y))
      | _ \<Rightarrow> if a = Fin 0 \<or> b = Fin 0 then NaN
             else Num (signed_inf ((a < Fin 0) \<noteq> (b < Fin 0))))"

definition div_num :: "fcost \<Rightarrow> fcost \<Rightarrow> float64" where
  "div_num a b =
     (case (a, b) of
        (Fin x, Fin y) \<Rightarrow>
          if y = 0 then (if x = 0 then NaN else Num (signed_inf (x < 0)))
          else Num (round64 (x / y))
      | (Fin x, _) \<Rightarrow> Num (Fin 0)
      | (_, Fin y) \<Rightarrow> Num (signed_inf ((a < Fin 0) \<noteq> (y < 0)))
      | _ \<Rightarrow> NaN)"

fun fmul :: "float64 \<Rightarrow> float64 \<Rightarrow> float64" where
  "fmul (Num a) (Num b) = mul_num a b"
| "fmul a b = NaN"

fun fdiv :: "float64 \<Rightarrow> float64 \<Rightarrow> float64" where
  "fdiv (Num a) (Num b) = div_num a b"
| "fdiv a b = NaN"

definition nearest :: "real \<Rightarrow> float64" where
  "nearest x = Num (round64 x)"

section \<open>Cost engine (router/internal/cost/engine.go)\<close>

text \<open>
  \<open>ClusterCost\<close>: \<open>LastUpdate\<close> is a \<open>time.Time\<close>, modelled as the clock reading that
  \<open>time.Now()\<close> returned (the clock is an argument of every operation that reads it).
  All other fields are \<open>float64\<close>.
\<close>

record ClusterCost =
  CostPerHour :: float64
  LastTokensPerSec :: float64
  LastUpdate :: int
  HistoricalCosts :: "float64 list"

record Engine =
  clusters :: "string \<rightharpoonup> ClusterCost"
  overheadFactor :: float64

definition NewEngine :: "float64 \<Rightarrow> Engine" where
  "NewEngine f = \<lparr> clusters = Map.empty, overheadFactor = f \<rparr>"

definition AddCluster :: "Engine \<Rightarrow> string \<Rightarrow> float64 \<Rightarrow> Engine" where
  "AddCluster e name costPerHour =
     e \<lparr> clusters := (clusters e)(name \<mapsto>
            \<lparr> CostPerHour = costPerHour, LastTokensPerSec = Num (Fin 0), LastUpdate = 0,
              HistoricalCosts = [] \<rparr>) \<rparr>"

text \<open>
  \<open>CalculateCostPer1KTokens\<close> returns the cost and the engine after the call. The two
  early returns leave the engine as it was. The guard \<open>tokensPerSecond <= 0\<close> is false for
  NaN. The two statements of lines 59 and 60 are three multiplications and one division,
  each rounded, in the order of Go's left-to-right evaluation; the constants 3600 and 1000
  are exact. \<open>HistoricalCosts[1:]\<close> is \<open>drop 1\<close>.
\<close>

definition CalculateCostPer1KTokens ::
  "Engine \<Rightarrow> string \<Rightarrow> float64 \<Rightarrow> int \<Rightarrow> float64 \<times> Engine" where
  "CalculateCostPer1KTokens e clusterName tokensPerSecond now =
     (case clusters e clusterName of
        None \<Rightarrow> (Num PInf, e)
      | Some cluster \<Rightarrow>
          if fle tokensPerSecond (Num (Fin 0)) then (Num PInf, e)
          else
            let tokensPerHour = fmul tokensPerSecond (Num (Fin 3600));
                costPer1KTokens =
                  fmul (fmul (fdiv (CostPerHour cluster) tokensPerHour) (overheadFactor e))
                       (Num (Fin 1000));
                appended = HistoricalCosts cluster @ [costPer1KTokens];
                kept = (if length appended > 100 then drop 1 appended else appended);
                cluster' = cluster \<lparr> LastTokensPerSec := tokensPerSecond, LastUpdate := now,
                                     HistoricalCosts := kept \<rparr>
            in (costPer1KTokens, e \<lparr> clusters := (clusters e)(clusterName \<mapsto> cluster') \<rparr>))"

definition UpdateClusterCost :: "Engine \<Rightarrow> string \<Rightarrow> float64 \<Rightarrow> Engine" where
  "UpdateClusterCost e clusterName newCostPerHour =
     (case clusters e clusterName of
        None \<Rightarrow> e
      | Some cluster \<Rightarrow>
          e \<lparr> clusters := (clusters e)(clusterName \<mapsto> cluster \<lparr> CostPerHour := newCostPerHour \<rparr>) \<rparr>)"

text \<open>The calls that change an engine, and a run of them from \<open>NewEngine\<close>.\<close>

datatype engine_call =
    CallAddCluster string float64
  | CallCalculate string float64 int
  | CallUpdateClusterCost string float64

fun engine_step :: "Engine \<Rightarrow> engine_call \<Rightarrow> Engine" where
  "engine_step e (CallAddCluster name cph) = AddCluster e name cph"
| "engine_step e (CallCalculate name tps now) = snd (CalculateCostPer1KTokens e name tps now)"
| "engine_step e (CallUpdateClusterCost name cph) = UpdateClusterCost e name cph"

definition engine_run :: "float64 \<Rightarrow> engine_call list \<Rightarrow> Engine" where
  "engine_run f calls = foldl engine_step (NewEngine f) calls"

text \<open>
  A series of cost computations for one cluster, one per throughput sample: the costs
  returned, in order, and the engine at the end.
\<close>

fun calculate_all ::
  "Engine \<Rightarrow> string \<Rightarrow> (float64 \<times> int) list \<Rightarrow> float64 list \<times> Engine" where
  "calculate_all e name [] = ([], e)"
| "calculate_all e name ((tps, now) # rest) =
     (let (c, e1) = CalculateCostPer1KTokens e name tps now;
          (cs, e2) = calculate_all e1 name rest
      in (c # cs, e2))"

definition history :: "Engine \<Rightarrow> string \<Rightarrow> float64 list" where
  "history e name = (case clusters e name of None \<Rightarrow> [] | Some c \<Rightarrow> HistoricalCosts c)"

text \<open>
  The value that lines 59 and 60 of engine.go compute for a throughput that passes the
  guard.
\<close>

definition cost_formula :: "float64 \<Rightarrow> float64 \<Rightarrow> float64 \<Rightarrow> float64" where
  "cost_formula costPerHour factor tokensPerSecond =
     fmul (fmul (fdiv costPerHour (fmul tokensPerSecond (Num (Fin 3600)))) factor)
          (Num (Fin 1000))"

definition history_bounded :: "Engine \<Rightarrow> bool" where
  "history_bounded e = (\<forall>n c. clusters e n = Some c \<longrightarrow> length (HistoricalCosts c) \<le> 100)"

section \<open>Health checker (router/internal/health/checker.go)\<close>

text \<open>
  Go's \<open>int\<close> is a 64-bit two's complement integer on the platforms the router is built
  for; the counters that the checker increments are 64-bit words, compared as signed values.
  \<open>QueueDepth\<close> is only stored and compared, never computed with, and is an \<open>int\<close>.
  \<open>time.Time\<close> values are clock readings, response times are milliseconds.
\<close>

type_synonym go_int = "64 word"

record ClusterMetrics =
  Healthy :: bool
  LastCheck :: int
  ResponseTime :: real
  LatencyP95 :: real
  QueueDepth :: int
  TokensPerSecond :: real
  ErrorCount :: go_int
  ConsecutiveError :: go_int
  Endpoint :: string

record Checker =
  clusters :: "string \<rightharpoonup> ClusterMetrics"
  checkInterval :: int
  maxConsecutiveErrors :: go_int

definition NewChecker :: "int \<Rightarrow> Checker" where
  "NewChecker interval =
     \<lparr> clusters = Map.empty, checkInterval = interval, maxConsecutiveErrors = 3 \<rparr>"

text \<open>\<open>Checker.AddCluster\<close>; the fields not listed in the composite literal are zero.\<close>

definition checker_AddCluster :: "Checker \<Rightarrow> string \<Rightarrow> string \<Rightarrow> int \<Rightarrow> Checker" where
  "checker_AddCluster c name endpoint now =
     c \<lparr> clusters := (clusters c)(name \<mapsto>
           \<lparr> Healthy = False, LastCheck = now, ResponseTime = 0, LatencyP95 = 0,
             QueueDepth = 0, TokensPerSecond = 0, ErrorCount = 0, ConsecutiveError = 0,
             Endpoint = endpoint \<rparr>) \<rparr>"

definition GetHealthyMetrics :: "Checker \<Rightarrow> (string \<rightharpoonup> ClusterMetrics)" where
  "GetHealthyMetrics c =
     (\<lambda>name. case clusters c name of
                None \<Rightarrow> None
              | Some metrics \<Rightarrow> if Healthy metrics then Some metrics else None)"

definition GetAllMetrics :: "Checker \<Rightarrow> (string \<rightharpoonup> ClusterMetrics)" where
  "GetAllMetrics c = clusters c"

text \<open>
  What an HTTP GET of the checker's client gives: a transport error, or a response with
  its status code and, for the \<open>/stats\<close> body, the three numbers that
  \<open>json.Decode\<close> reads from it (\<open>None\<close> when decoding fails).
\<close>

record stats =
  stats_QueueDepth :: int
  stats_TokensPerSecond :: real
  stats_LatencyP95 :: real

datatype http_reply = TransportError | Reply int "stats option"

definition getMetrics :: "http_reply \<Rightarrow> http_reply \<Rightarrow> int \<times> real \<times> real" where
  "getMetrics metricsReply statsReply =
     (case metricsReply of
        TransportError \<Rightarrow> (0, 10, 1000)
      | Reply status _ \<Rightarrow>
          if status \<noteq> 200 then (0, 10, 1000)
          else (case statsReply of
                  TransportError \<Rightarrow> (0, 10, 1000)
                | Reply sstatus body \<Rightarrow>
                    if sstatus = 200 then
                      (case body of
                         None \<Rightarrow> (0, 10, 1000)
                       | Some st \<Rightarrow>
                           (if stats_QueueDepth st \<ge> 0 then stats_QueueDepth st else 0,
                            if stats_TokensPerSecond st > 0 then stats_TokensPerSecond st else 10,
                            if stats_LatencyP95 st > 0 then stats_LatencyP95 st else 1000))
                    else (0, 10, 1000)))"

text \<open>\<open>performHealthCheck\<close> returns \<open>(healthy, queueDepth, tokensPerSec, latencyP95)\<close>.\<close>

definition performHealthCheck ::
  "http_reply \<Rightarrow> http_reply \<Rightarrow> http_reply \<Rightarrow> bool \<times> int \<times> real \<times> real" where
  "performHealthCheck healthReply metricsReply statsReply =
     (case healthReply of
        TransportError \<Rightarrow> (False, 0, 0, 0)
      | Reply status _ \<Rightarrow>
          if status \<noteq> 200 then (False, 0, 0, 0)
          else (True, getMetrics metricsReply statsReply))"

text \<open>
  \<open>checkCluster\<close>, given what \<open>performHealthCheck\<close> returned for the cluster's endpoint,
  the measured response time and the clock. The update happens under the write lock,
  in one step.
\<close>

definition checkCluster ::
  "Checker \<Rightarrow> string \<Rightarrow> bool \<times> int \<times> real \<times> real \<Rightarrow> real \<Rightarrow> int \<Rightarrow> Checker" where
  "checkCluster c name probe responseTime now =
     (case clusters c name of
        None \<Rightarrow> c
      | Some cluster \<Rightarrow>
          let (healthy, queueDepth, tokensPerSec, latencyP95) = probe;
              cluster1 = cluster \<lparr> LastCheck := now, ResponseTime := responseTime,
                                   LatencyP95 := latencyP95, QueueDepth := queueDepth,
                                   TokensPerSecond := tokensPerSec \<rparr>;
              cluster2 =
                (if healthy then cluster1 \<lparr> Healthy := True, ConsecutiveError := 0 \<rparr>
                 else
                   let counted = cluster1 \<lparr> ErrorCount := ErrorCount cluster1 + 1,
                                            ConsecutiveError := ConsecutiveError cluster1 + 1 \<rparr>
                   in if maxConsecutiveErrors c \<le>s ConsecutiveError counted
                      then counted \<lparr> Healthy := False \<rparr> else counted)
          in c \<lparr> clusters := (clusters c)(name \<mapsto> cluster2) \<rparr>)"

definition MarkUnhealthy :: "Checker \<Rightarrow> string \<Rightarrow> string \<Rightarrow> Checker" where
  "MarkUnhealthy c name reason =
     (case clusters c name of
        None \<Rightarrow> c
      | Some cluster \<Rightarrow>
          c \<lparr> clusters := (clusters c)(name \<mapsto>
                cluster \<lparr> Healthy := False, ErrorCount := ErrorCount cluster + 1,
                          ConsecutiveError := ConsecutiveError cluster + 1 \<rparr>) \<rparr>)"

definition ForceHealthy :: "Checker \<Rightarrow> string \<Rightarrow> Checker" where
  "ForceHealthy c name =
     (case clusters c name of
        None \<Rightarrow> c
      | Some cluster \<Rightarrow>
          c \<lparr> clusters := (clusters c)(name \<mapsto>
                cluster \<lparr> Healthy := True, ConsecutiveError := 0 \<rparr>) \<rparr>)"

text \<open>The calls that change a checker, and a run of them from \<open>NewChecker\<close>.\<close>

datatype checker_call =
    Register string string int
  | Check string "bool \<times> int \<times> real \<times> real" real int
  | Mark string string
  | Force string

fun checker_step :: "Checker \<Rightarrow> checker_call \<Rightarrow> Checker" where
  "checker_step c (Register name endpoint now) = checker_AddCluster c name endpoint now"
| "checker_step c (Check name probe responseTime now) = checkCluster c name probe responseTime now"
| "checker_step c (Mark name reason) = MarkUnhealthy c name reason"
| "checker_step c (Force name) = ForceHealthy c name"

definition checker_run :: "int \<Rightarrow> checker_call list \<Rightarrow> Checker" where
  "checker_run interval calls = foldl checker_step (NewChecker interval) calls"

text \<open>
  Reading a run of calls: which calls concern a cluster and how, the calls after the last
  one of a kind, and what the calls say about the cluster's health.
\<close>

fun registers :: "string \<Rightarrow> checker_call \<Rightarrow> bool" where
  "registers n (Register name endpoint now) = (name = n)"
| "registers n _ = False"

fun succeeds :: "string \<Rightarrow> checker_call \<Rightarrow> bool" where
  "succeeds n (Check name probe responseTime now) = (name = n \<and> fst probe)"
| "succeeds n _ = False"

fun fails :: "string \<Rightarrow> checker_call \<Rightarrow> bool" where
  "fails n (Check name probe responseTime now) = (name = n \<and> \<not> fst probe)"
| "fails n _ = False"

fun marks :: "string \<Rightarrow> checker_call \<Rightarrow> bool" where
  "marks n (Mark name reason) = (name = n)"
| "marks n _ = False"

fun forces :: "string \<Rightarrow> checker_call \<Rightarrow> bool" where
  "forces n (Force name) = (name = n)"
| "forces n _ = False"

definition raises :: "string \<Rightarrow> checker_call \<Rightarrow> bool" where
  "raises n call = (succeeds n call \<or> forces n call)"

definition after_last :: "('a \<Rightarrow> bool) \<Rightarrow> 'a list \<Rightarrow> 'a list" where
  "after_last P xs = rev (takeWhile (\<lambda>x. \<not> P x) (rev xs))"

definition since_registration :: "string \<Rightarrow> checker_call list \<Rightarrow> checker_call list" where
  "since_registration n calls = after_last (registers n) calls"

definition since_raised :: "string \<Rightarrow> checker_call list \<Rightarrow> checker_call list" where
  "since_raised n calls = after_last (raises n) (since_registration n calls)"

definition failures_since_raised :: "string \<Rightarrow> checker_call list \<Rightarrow> nat" where
  "failures_since_raised n calls = length (filter (fails n) (since_raised n calls))"

definition expected_healthy :: "string \<Rightarrow> checker_call list \<Rightarrow> bool" where
  "expected_healthy n calls =
     (list_ex (raises n) (since_registration n calls)
      \<and> \<not> list_ex (marks n) (since_raised n calls)
      \<and> failures_since_raised n calls < 3)"

text \<open>What every run maintains: the threshold stays 3, the flag agrees with the calls, and a healthy
  cluster's counter is the number of failed checks since it was last raised.\<close>

definition health_inv :: "checker_call list \<Rightarrow> Checker \<Rightarrow> bool" where
  "health_inv calls c =
     (maxConsecutiveErrors c = 3 \<and>
      (\<forall>n m. Checker.clusters c n = Some m \<longrightarrow>
         Healthy m = expected_healthy n calls
         \<and> (Healthy m \<longrightarrow> ConsecutiveError m = of_nat (failures_since_raised n calls))))"

section \<open>Provider adapters (router/internal/providers)\<close>

record ModelPricing =
  InputPricePer1K :: real
  OutputPricePer1K :: real
  MaxTokens :: int
  ContextWindow :: int

record ProviderConfig =
  Name :: string
  Type :: string
  APIKey :: string
  BaseURL :: string
  DefaultModel :: string
  Enabled :: bool

text \<open>
  The three adapters hold their configuration and a pricing table fixed by the constructor.
  A table is the list of entries of the map literal (its keys are distinct); indexing a Go
  map with a missing key gives the zero value.
\<close>

type_synonym pricing_table = "(string \<times> ModelPricing) list"

definition zero_pricing :: ModelPricing where
  "zero_pricing = \<lparr> InputPricePer1K = 0, OutputPricePer1K = 0, MaxTokens = 0, ContextWindow = 0 \<rparr>"

definition index_pricing :: "pricing_table \<Rightarrow> string \<Rightarrow> ModelPricing" where
  "index_pricing table model = (case map_of table model of None \<Rightarrow> zero_pricing | Some p \<Rightarrow> p)"

definition openai_pricing :: pricing_table where
  "openai_pricing =
     [(''gpt-4'', \<lparr> InputPricePer1K = 3/100, OutputPricePer1K = 6/100,
                     MaxTokens = 8192, ContextWindow = 8192 \<rparr>),
      (''gpt-4-turbo'', \<lparr> InputPricePer1K = 1/100, OutputPricePer1K = 3/100,
                     MaxTokens = 4096, ContextWindow = 128000 \<rparr>),
      (''gpt-3.5-turbo'', \<lparr> InputPricePer1K = 5/10000, OutputPricePer1K = 15/10000,
                     MaxTokens = 4096, ContextWindow = 16385 \<rparr>),
      (''gpt-3.5-turbo-16k'', \<lparr> InputPricePer1K = 3/1000, OutputPricePer1K = 4/1000,
                     MaxTokens = 16384, ContextWindow = 16385 \<rparr>)]"

definition claude_pricing :: pricing_table where
  "claude_pricing =
     [(''claude-3-5-sonnet-20241022'', \<lparr> InputPricePer1K = 3/1000, OutputPricePer1K = 15/1000,
                     MaxTokens = 8192, ContextWindow = 200000 \<rparr>),
      (''claude-3-opus-20240229'', \<lparr> InputPricePer1K = 15/1000, OutputPricePer1K = 75/1000,
                     MaxTokens = 4096, ContextWindow = 200000 \<rparr>),
      (''claude-3-sonnet-20240229'', \<lparr> InputPricePer1K = 3/1000, OutputPricePer1K = 15/1000,
                     MaxTokens = 4096, ContextWindow = 200000 \<rparr>),
      (''claude-3-haiku-20240307'', \<lparr> InputPricePer1K = 25/100000, OutputPricePer1K = 125/100000,
                     MaxTokens = 4096, ContextWindow = 200000 \<rparr>)]"

definition gemini_pricing :: pricing_table where
  "gemini_pricing =
     [(''gemini-1.5-pro'', \<lparr> InputPricePer1K = 35/10000, OutputPricePer1K = 105/10000,
                     MaxTokens = 8192, ContextWindow = 2000000 \<rparr>),
      (''gemini-1.5-flash'', \<lparr> InputPricePer1K = 75/1000000, OutputPricePer1K = 3/10000,
                     MaxTokens = 8192, ContextWindow = 1000000 \<rparr>),
      (''gemini-pro'', \<lparr> InputPricePer1K = 5/10000, OutputPricePer1K = 15/10000,
                     MaxTokens = 2048, ContextWindow = 30720 \<rparr>)]"

datatype provider =
    OpenAIProvider ProviderConfig
  | ClaudeProvider ProviderConfig
  | GeminiProvider ProviderConfig

definition NewOpenAIProvider :: "ProviderConfig \<Rightarrow> provider" where
  "NewOpenAIProvider config =
     OpenAIProvider (config \<lparr> BaseURL :=
       (if BaseURL config = [] then ''https://api.openai.com'' else BaseURL config) \<rparr>)"

definition NewClaudeProvider :: "ProviderConfig \<Rightarrow> provider" where
  "NewClaudeProvider config =
     ClaudeProvider (config \<lparr> BaseURL :=
       (if BaseURL config = [] then ''https://api.anthropic.com'' else BaseURL config) \<rparr>)"

definition NewGeminiProvider :: "ProviderConfig \<Rightarrow> provider" where
  "NewGeminiProvider config =
     GeminiProvider (config \<lparr> BaseURL :=
       (if BaseURL config = [] then ''https://generativelanguage.googleapis.com''
        else BaseURL config) \<rparr>)"

fun provider_config :: "provider \<Rightarrow> ProviderConfig" where
  "provider_config (OpenAIProvider config) = config"
| "provider_config (ClaudeProvider config) = config"
| "provider_config (GeminiProvider config) = config"

definition provider_Name :: "provider \<Rightarrow> string" where
  "provider_Name p = Name (provider_config p)"

fun GetModelPricing :: "provider \<Rightarrow> pricing_table" where
  "GetModelPricing (OpenAIProvider config) = openai_pricing"
| "GetModelPricing (ClaudeProvider config) = claude_pricing"
| "GetModelPricing (GeminiProvider config) = gemini_pricing"

text \<open>
  \<open>Health\<close> builds one request and sends it. What happens outside the adapter is the
  argument: the request could not be built, the client returned an error, or the provider
  answered with a status code. The result is the error returned, \<open>None\<close> for \<open>nil\<close>.
\<close>

datatype round_trip = NotBuilt | NotSent | Answered int

datatype health_error =
    BuildError
  | ClientError
  | StatusError string int

definition openai_Health :: "round_trip \<Rightarrow> health_error option" where
  "openai_Health rt =
     (case rt of
        NotBuilt \<Rightarrow> Some BuildError
      | NotSent \<Rightarrow> Some ClientError
      | Answered status \<Rightarrow>
          if status \<noteq> 200 then Some (StatusError ''OpenAI health check failed with status'' status)
          else None)"

definition claude_Health :: "round_trip \<Rightarrow> health_error option" where
  "claude_Health rt =
     (case rt of
        NotBuilt \<Rightarrow> Some BuildError
      | NotSent \<Rightarrow> Some ClientError
      | Answered status \<Rightarrow>
          if status \<noteq> 200 \<and> status \<noteq> 429
          then Some (StatusError ''Claude health check failed with status'' status)
          else None)"

definition gemini_Health :: "round_trip \<Rightarrow> health_error option" where
  "gemini_Health rt =
     (case rt of
        NotBuilt \<Rightarrow> Some BuildError
      | NotSent \<Rightarrow> Some ClientError
      | Answered status \<Rightarrow>
          if status \<noteq> 200 then Some (StatusError ''Gemini health check failed with status'' status)
          else None)"

fun Health :: "provider \<Rightarrow> round_trip \<Rightarrow> health_error option" where
  "Health (OpenAIProvider config) rt = openai_Health rt"
| "Health (ClaudeProvider config) rt = claude_Health rt"
| "Health (GeminiProvider config) rt = gemini_Health rt"

text \<open>\<open>CalculateCost\<close>; \<open>float64(inputTokens)\<close> is the integer as a real.\<close>

definition price :: "ModelPricing \<Rightarrow> int \<Rightarrow> int \<Rightarrow> real" where
  "price pricing inputTokens outputTokens =
     (let inputCost = real_of_int inputTokens * InputPricePer1K pricing / 1000;
          outputCost = real_of_int outputTokens * OutputPricePer1K pricing / 1000
      in inputCost + outputCost)"

definition openai_CalculateCost :: "ProviderConfig \<Rightarrow> int \<Rightarrow> int \<Rightarrow> real" where
  "openai_CalculateCost config inputTokens outputTokens =
     (let model = (if DefaultModel config = [] then ''gpt-3.5-turbo'' else DefaultModel config);
          pricing = (case map_of openai_pricing model of
                       Some found \<Rightarrow> found
                     | None \<Rightarrow> index_pricing openai_pricing ''gpt-3.5-turbo'')
      in price pricing inputTokens outputTokens)"

definition claude_CalculateCost :: "ProviderConfig \<Rightarrow> int \<Rightarrow> int \<Rightarrow> real" where
  "claude_CalculateCost config inputTokens outputTokens =
     (let model = (if DefaultModel config = [] then ''claude-3-haiku-20240307''
                   else DefaultModel config);
          pricing = (case map_of claude_pricing model of
                       Some found \<Rightarrow> found
                     | None \<Rightarrow> index_pricing claude_pricing ''claude-3-haiku-20240307'')
      in price pricing inputTokens outputTokens)"

definition gemini_CalculateCost :: "ProviderConfig \<Rightarrow> int \<Rightarrow> int \<Rightarrow> real" where
  "gemini_CalculateCost config inputTokens outputTokens =
     (let model = (if DefaultModel config = [] then ''gemini-pro'' else DefaultModel config);
          pricing = (case map_of gemini_pricing model of
                       Some found \<Rightarrow> found
                     | None \<Rightarrow> index_pricing gemini_pricing ''gemini-pro'')
      in price pricing inputTokens outputTokens)"

fun CalculateCost :: "provider \<Rightarrow> int \<Rightarrow> int \<Rightarrow> real" where
  "CalculateCost (OpenAIProvider config) i out = openai_CalculateCost config i out"
| "CalculateCost (ClaudeProvider config) i out = claude_CalculateCost config i out"
| "CalculateCost (GeminiProvider config) i out = gemini_CalculateCost config i out"

text \<open>The model an adapter prices with when its default model is not in its table.\<close>

fun fallback_model :: "provider \<Rightarrow> string" where
  "fallback_model (OpenAIProvider config) = ''gpt-3.5-turbo''"
| "fallback_model (ClaudeProvider config) = ''claude-3-haiku-20240307''"
| "fallback_model (GeminiProvider config) = ''gemini-pro''"

text \<open>
  The specification's "cheapest known model": no entry of the table has a lower input price
  or a lower output price.
\<close>

definition cheapest_in :: "pricing_table \<Rightarrow> ModelPricing \<Rightarrow> bool" where
  "cheapest_in table pricing =
     list_all (\<lambda>entry. InputPricePer1K pricing \<le> InputPricePer1K (snd entry)
                      \<and> OutputPricePer1K pricing \<le> OutputPricePer1K (snd entry)) table"

section \<open>Router (package main: configuration, candidates, selection, request handling)\<close>

record ClusterConfig =
  Name :: string
  Endpoint :: string
  Region :: string
  Provider :: string
  CostPerHour :: real
  AuthType :: string
  SharedSecret :: string
  CertFile :: string
  KeyFile :: string

text \<open>Durations are numbers of nanoseconds.\<close>

record RouterConfig =
  StickinessWindow :: int
  HealthCheckInterval :: int
  MaxLatencyMs :: int
  MaxQueueDepth :: int
  OverheadFactor :: real
  MetricsUpdateInterval :: int
  RoutingStrategy :: string
  EnableExternalFallback :: bool
  ClusterCostThreshold :: real
  EnableSmartMocking :: bool
  MonthlyAPIBudget :: real
  MockClusterLatency :: int
  MockClusterCost :: real

text \<open>\<open>Config\<close> without the server and demo settings, which selection does not read.\<close>

record Config =
  Clusters :: "ClusterConfig list"
  ExternalProviders :: "ProviderConfig list"
  Router :: RouterConfig

text \<open>
  \<open>RouteTarget\<close>. \<open>Provider\<close> is \<open>nil\<close> for a cluster. The router state holds the
  checker, the cost engine and the provider manager's map; the forwarder and the metrics
  registry appear as the events below.
\<close>

record RouteTarget =
  Name :: string
  Type :: string
  Endpoint :: string
  Cost :: fcost
  IsHealthy :: bool
  LatencyP95 :: real
  QueueDepth :: int
  Provider :: "provider option"

record Router =
  config :: Config
  healthChecker :: Checker
  costEngine :: Engine
  providerManager :: "string \<rightharpoonup> provider"

text \<open>
  What a request makes the router do, in order: a provider's \<open>Health\<close> is called, a
  counter or histogram of the metrics is touched (with its label values), the request is
  forwarded, an error response is written, or a nil pointer is dereferenced.
\<close>

datatype event =
    Probe string
  | RoutingDecision string string string
  | RequestsTotal string string
  | ExternalRequest string string string
  | RequestDuration string
  | HttpError int string
  | ForwardToCluster string string
  | ForwardToProvider string string
  | NilDereference

text \<open>
  What one request meets outside the router: the order in which Go's \<open>range\<close> visits the
  keys of the healthy-metrics map and of the provider map (any enumeration of the keys),
  what each provider's health request meets, the clock, and whether the forward fails.
\<close>

record surroundings =
  clusterOrder :: "string list"
  providerOrder :: "string list"
  answers :: "string \<Rightarrow> round_trip"
  clock :: int
  forwardFails :: bool

definition lookup_endpoint :: "ClusterConfig list \<Rightarrow> string \<Rightarrow> string" where
  "lookup_endpoint cs name =
     (case find (\<lambda>cluster. ClusterConfig.Name cluster = name) cs of
        None \<Rightarrow> []
      | Some cluster \<Rightarrow> ClusterConfig.Endpoint cluster)"

text \<open>
  The first loop of \<open>getAllTargets\<close>: the healthy clusters within the limits. The
  throughput read from the metrics is passed to the cost engine as it is. The cost is kept
  as an \<open>fcost\<close>, the type that selection orders: the engine returns no NaN for finite
  costs per hour, a finite overhead factor other than 0 (\<open>loadConfig\<close> replaces 0 by 1.1)
  and a throughput that a cluster can report (\<open>calculate_not_nan\<close>), and a NaN that other
  settings would give is kept as the cost \<open>PInf\<close>, which like NaN is under no threshold and
  below no other cost (unlike NaN, it is above every finite cost).
\<close>

fun as_cost :: "float64 \<Rightarrow> fcost" where
  "as_cost (Num c) = c"
| "as_cost NaN = PInf"

fun add_clusters ::
  "Config \<Rightarrow> (string \<rightharpoonup> ClusterMetrics) \<Rightarrow> int \<Rightarrow> string list \<Rightarrow> Engine
     \<Rightarrow> RouteTarget list \<times> Engine" where
  "add_clusters cfg healthyMetrics now [] e = ([], e)"
| "add_clusters cfg healthyMetrics now (name # names) e =
     (case healthyMetrics name of
        None \<Rightarrow> add_clusters cfg healthyMetrics now names e
      | Some metrics \<Rightarrow>
          if ClusterMetrics.LatencyP95 metrics \<le> real_of_int (MaxLatencyMs (Router cfg))
             \<and> ClusterMetrics.QueueDepth metrics \<le> MaxQueueDepth (Router cfg)
          then
            let (cost, e1) =
                  CalculateCostPer1KTokens e name (Num (Fin (TokensPerSecond metrics))) now;
                endpoint = lookup_endpoint (Clusters cfg) name;
                target = \<lparr> Name = name, Type = ''cluster'', Endpoint = endpoint,
                           Cost = as_cost cost,
                           IsHealthy = True, LatencyP95 = ClusterMetrics.LatencyP95 metrics,
                           QueueDepth = ClusterMetrics.QueueDepth metrics, Provider = None \<rparr>;
                (rest, e2) = add_clusters cfg healthyMetrics now names e1
            in (target # rest, e2)
          else add_clusters cfg healthyMetrics now names e)"

text \<open>The inner loop over a provider's pricing table, from the fallback cost 999999.\<close>

definition lowest_average :: "pricing_table \<Rightarrow> real" where
  "lowest_average table =
     foldl (\<lambda>cost modelPricing.
              let avgCost = (InputPricePer1K modelPricing + OutputPricePer1K modelPricing) / 2
              in if avgCost < cost then avgCost else cost)
       999999 (map snd table)"

text \<open>The second loop: the providers whose \<open>Health\<close> returns no error.\<close>

fun add_providers ::
  "(string \<rightharpoonup> provider) \<Rightarrow> (string \<Rightarrow> round_trip) \<Rightarrow> string list
     \<Rightarrow> RouteTarget list \<times> event list" where
  "add_providers providers ans [] = ([], [])"
| "add_providers providers ans (name # names) =
     (case providers name of
        None \<Rightarrow> add_providers providers ans names
      | Some p \<Rightarrow>
          let (rest, probes) = add_providers providers ans names
          in if Health p (ans name) = None
             then (\<lparr> Name = provider_Name p, Type = ''provider'', Endpoint = [],
                      Cost = Fin (lowest_average (GetModelPricing p)), IsHealthy = True,
                      LatencyP95 = 0, QueueDepth = 0, Provider = Some p \<rparr> # rest,
                   Probe name # probes)
             else (rest, Probe name # probes))"

text \<open>\<open>getAllTargets\<close>: the candidates, the router after the cost computations, the probes.\<close>

definition getAllTargets :: "Router \<Rightarrow> surroundings \<Rightarrow> RouteTarget list \<times> Router \<times> event list" where
  "getAllTargets r s =
     (let healthyMetrics = GetHealthyMetrics (healthChecker r);
          (clusterTargets, e) =
             add_clusters (config r) healthyMetrics (clock s) (clusterOrder s) (costEngine r);
          (providerTargets, probes) = add_providers (providerManager r) (answers s) (providerOrder s)
      in (clusterTargets @ providerTargets, r \<lparr> costEngine := e \<rparr>, probes))"

text \<open>
  The selection functions return the chosen target and the routing decision they count,
  or \<open>None\<close> for Go's \<open>nil\<close>. The loops over \<open>targets[1:]\<close> are the folds below.
\<close>

fun cheaper_of :: "RouteTarget \<Rightarrow> RouteTarget list \<Rightarrow> RouteTarget" where
  "cheaper_of cheapest [] = cheapest"
| "cheaper_of cheapest (target # rest) =
     cheaper_of (if Cost target < Cost cheapest then target else cheapest) rest"

definition selectByCost :: "RouteTarget list \<Rightarrow> (RouteTarget \<times> event) option" where
  "selectByCost targets =
     (case targets of
        [] \<Rightarrow> None
      | first # rest \<Rightarrow>
          let cheapest = cheaper_of first rest
          in Some (cheapest, RoutingDecision (Name cheapest) (Type cheapest) ''lowest_cost''))"

fun faster_of :: "RouteTarget \<Rightarrow> RouteTarget list \<Rightarrow> RouteTarget" where
  "faster_of fastest [] = fastest"
| "faster_of fastest (target # rest) =
     faster_of (if Type target = ''cluster'' \<and> LatencyP95 target < LatencyP95 fastest
                then target else fastest) rest"

definition selectByLatency :: "RouteTarget list \<Rightarrow> (RouteTarget \<times> event) option" where
  "selectByLatency targets =
     (case targets of
        [] \<Rightarrow> None
      | first # rest \<Rightarrow>
          let fastest = faster_of first rest
          in Some (fastest, RoutingDecision (Name fastest) (Type fastest) ''lowest_latency''))"

definition selectExternalFirst :: "RouteTarget list \<Rightarrow> (RouteTarget \<times> event) option" where
  "selectExternalFirst targets =
     (case find (\<lambda>target. Type target = ''provider'') targets of
        Some target \<Rightarrow> Some (target, RoutingDecision (Name target) (Type target) ''external_first'')
      | None \<Rightarrow>
          (case targets of
             [] \<Rightarrow> None
           | target # rest \<Rightarrow>
               Some (target, RoutingDecision (Name target) (Type target) ''cluster_fallback'')))"

definition selectClusterFirst :: "RouteTarget list \<Rightarrow> (RouteTarget \<times> event) option" where
  "selectClusterFirst targets =
     (case find (\<lambda>target. Type target = ''cluster'') targets of
        Some target \<Rightarrow> Some (target, RoutingDecision (Name target) (Type target) ''cluster_first'')
      | None \<Rightarrow>
          (case targets of
             [] \<Rightarrow> None
           | target # rest \<Rightarrow>
               Some (target, RoutingDecision (Name target) (Type target) ''external_fallback'')))"

fun cheapest_cluster_under ::
  "real \<Rightarrow> RouteTarget option \<Rightarrow> RouteTarget list \<Rightarrow> RouteTarget option" where
  "cheapest_cluster_under threshold cheapestCluster [] = cheapestCluster"
| "cheapest_cluster_under threshold cheapestCluster (target # rest) =
     cheapest_cluster_under threshold
       (if Type target = ''cluster'' \<and> Cost target \<le> Fin threshold
        then (case cheapestCluster of
                None \<Rightarrow> Some target
              | Some c \<Rightarrow> if Cost target < Cost c then Some target else cheapestCluster)
        else cheapestCluster)
       rest"

definition selectHybrid :: "real \<Rightarrow> RouteTarget list \<Rightarrow> (RouteTarget \<times> event) option" where
  "selectHybrid threshold targets =
     (case targets of
        [] \<Rightarrow> None
      | first # rest \<Rightarrow>
          (case cheapest_cluster_under threshold None targets of
             Some cheapestCluster \<Rightarrow>
               Some (cheapestCluster,
                     RoutingDecision (Name cheapestCluster) (Type cheapestCluster) ''hybrid_cluster'')
           | None \<Rightarrow>
               let cheapest = cheaper_of first rest
               in Some (cheapest,
                        RoutingDecision (Name cheapest) (Type cheapest) ''hybrid_cheapest'')))"

text \<open>
  \<open>selectTarget\<close> returns the error or the target pointer (\<open>None\<close> for \<open>nil\<close>), the
  router after the call, and the events of the call.
\<close>

definition selectTarget ::
  "Router \<Rightarrow> surroundings \<Rightarrow> (string + RouteTarget option) \<times> Router \<times> event list" where
  "selectTarget r s =
     (let (targets, r1, probes) = getAllTargets r s
      in if length targets = 0 then (Inl ''no healthy targets available'', r1, probes)
         else
           let strategy = RoutingStrategy (Router (config r));
               chosen =
                 (if strategy = ''cost'' then selectByCost targets
                  else if strategy = ''latency'' then selectByLatency targets
                  else if strategy = ''external_first'' then selectExternalFirst targets
                  else if strategy = ''cluster_first'' then selectClusterFirst targets
                  else selectHybrid (ClusterCostThreshold (Router (config r))) targets)
           in (case chosen of
                 None \<Rightarrow> (Inr None, r1, probes)
               | Some (target, counted) \<Rightarrow> (Inr (Some target), r1, probes @ [counted])))"

text \<open>\<open>handleLLMRequest\<close>: the router after the request and all events of the request.\<close>

definition handleLLMRequest :: "Router \<Rightarrow> surroundings \<Rightarrow> string \<Rightarrow> Router \<times> event list" where
  "handleLLMRequest r s endpoint =
     (case selectTarget r s of
        (Inl err, r1, events) \<Rightarrow>
          (r1, events @ [HttpError 503 (''No available targets: '' @ err),
                         RequestsTotal ''none'' ''503''])
      | (Inr None, r1, events) \<Rightarrow> (r1, events @ [NilDereference])
      | (Inr (Some target), r1, events) \<Rightarrow>
          (if Type target = ''cluster'' then
             (r1, events @ [ForwardToCluster (Name target) (Endpoint target @ endpoint),
                            RequestDuration (Name target),
                            RequestsTotal (Name target)
                              (if forwardFails s then ''error'' else ''success'')])
           else if Type target = ''provider'' then
             (case Provider target of
                None \<Rightarrow> (r1, events @ [NilDereference])
              | Some p \<Rightarrow>
                  (r1, events @ [ForwardToProvider (Name target) endpoint,
                                 ExternalRequest (Name target) ''unknown''
                                   (if forwardFails s then ''error'' else ''success''),
                                 RequestDuration (Name target),
                                 RequestsTotal (Name target)
                                   (if forwardFails s then ''error'' else ''success'')]))
           else (r1, events @ [RequestDuration (Name target),
                               RequestsTotal (Name target) ''success''])))"

text \<open>
  The targets of the specification's example for the hybrid policy: clusters A (cost 0.005)
  and B (cost 0.02) and provider C (cost 0.001).
\<close>

definition target_A :: RouteTarget where
  "target_A = \<lparr> Name = ''A'', Type = ''cluster'', Endpoint = ''https://a.example'',
                Cost = Fin (5/1000), IsHealthy = True, LatencyP95 = 800, QueueDepth = 1,
                Provider = None \<rparr>"

definition target_B :: RouteTarget where
  "target_B = \<lparr> Name = ''B'', Type = ''cluster'', Endpoint = ''https://b.example'',
                Cost = Fin (2/100), IsHealthy = True, LatencyP95 = 400, QueueDepth = 0,
                Provider = None \<rparr>"

definition target_C :: RouteTarget where
  "target_C = \<lparr> Name = ''C'', Type = ''provider'', Endpoint = [],
                Cost = Fin (1/1000), IsHealthy = True, LatencyP95 = 0, QueueDepth = 0,
                Provider = Some (OpenAIProvider
                  \<lparr> ProviderConfig.Name = ''C'', ProviderConfig.Type = ''openai'', APIKey = ''key'',
                    BaseURL = ''https://api.openai.com'', DefaultModel = ''gpt-3.5-turbo'',
                    Enabled = True \<rparr>) \<rparr>"

definition under_threshold :: "real \<Rightarrow> RouteTarget \<Rightarrow> bool" where
  "under_threshold threshold target = (Type target = ''cluster'' \<and> Cost target \<le> Fin threshold)"

text \<open>
  An example router: one cluster with a shared secret and one OpenAI provider, on the
  default settings of \<open>loadConfig\<close>; and the surroundings of one request.
\<close>

definition example_config :: Config where
  "example_config =
     \<lparr> Clusters = [\<lparr> ClusterConfig.Name = ''a'', ClusterConfig.Endpoint = ''http://a'',
                      Region = ''eu'', ClusterConfig.Provider = ''aws'', CostPerHour = 36,
                      AuthType = ''hmac'', SharedSecret = ''secret'', CertFile = [],
                      KeyFile = [] \<rparr>],
       ExternalProviders = [\<lparr> ProviderConfig.Name = ''C'', ProviderConfig.Type = ''openai'',
                      APIKey = ''key'', BaseURL = [], DefaultModel = ''gpt-3.5-turbo'',
                      Enabled = True \<rparr>],
       Router = \<lparr> StickinessWindow = 60000000000, HealthCheckInterval = 30000000000,
                  MaxLatencyMs = 5000, MaxQueueDepth = 10, OverheadFactor = 11/10,
                  MetricsUpdateInterval = 30000000000, RoutingStrategy = ''hybrid'',
                  EnableExternalFallback = True, ClusterCostThreshold = 1/100,
                  EnableSmartMocking = False, MonthlyAPIBudget = 0, MockClusterLatency = 0,
                  MockClusterCost = 0 \<rparr> \<rparr>"

definition example_router :: "string \<Rightarrow> checker_call list \<Rightarrow> Router" where
  "example_router strategy calls =
     \<lparr> config = example_config \<lparr> Router := (Router example_config) \<lparr> RoutingStrategy := strategy \<rparr> \<rparr>,
       healthChecker = checker_run 30000000000 (Register ''a'' ''http://a'' 0 # calls),
       costEngine = AddCluster (NewEngine (nearest (11/10))) ''a'' (Num (Fin 36)),
       providerManager = [''C'' \<mapsto> NewOpenAIProvider (hd (ExternalProviders example_config))] \<rparr>"

definition example_surroundings :: "int \<Rightarrow> surroundings" where
  "example_surroundings status =
     \<lparr> clusterOrder = [''a''], providerOrder = [''C''], answers = (\<lambda>name. Answered status),
       clock = 100, forwardFails = False \<rparr>"

definition first_is_cluster :: "RouteTarget list \<Rightarrow> bool" where
  "first_is_cluster targets = (case targets of [] \<Rightarrow> False | first # rest \<Rightarrow> Type first = ''cluster'')"

section \<open>Standard-library functions the forwarder calls\<close>

text \<open>
  The forwarder signs with Go's \<open>crypto/sha256\<close>, \<open>crypto/hmac\<close>, \<open>encoding/hex\<close> and
  \<open>strconv\<close>. They are written out here after their specifications (FIPS 180-4, RFC 2104,
  the \<open>strconv\<close> documentation). A Go string and a byte slice are both a list of
  characters; hashing works on the bytes they stand for.
\<close>

type_synonym byte = "8 word"
type_synonym word32 = "32 word"

definition byte_of_char :: "char \<Rightarrow> byte" where
  "byte_of_char c = of_nat (of_char c)"

definition bytes_of :: "string \<Rightarrow> byte list" where
  "bytes_of s = map byte_of_char s"

subsection \<open>SHA-256\<close>

definition Ch :: "word32 \<Rightarrow> word32 \<Rightarrow> word32 \<Rightarrow> word32" where
  "Ch x y z = (x AND y) XOR (NOT x AND z)"

definition Maj :: "word32 \<Rightarrow> word32 \<Rightarrow> word32 \<Rightarrow> word32" where
  "Maj x y z = (x AND y) XOR (x AND z) XOR (y AND z)"

definition big_sigma0 :: "word32 \<Rightarrow> word32" where
  "big_sigma0 x = word_rotr 2 x XOR word_rotr 13 x XOR word_rotr 22 x"

definition big_sigma1 :: "word32 \<Rightarrow> word32" where
  "big_sigma1 x = word_rotr 6 x XOR word_rotr 11 x XOR word_rotr 25 x"

definition small_sigma0 :: "word32 \<Rightarrow> word32" where
  "small_sigma0 x = word_rotr 7 x XOR word_rotr 18 x XOR drop_bit 3 x"

definition small_sigma1 :: "word32 \<Rightarrow> word32" where
  "small_sigma1 x = word_rotr 17 x XOR word_rotr 19 x XOR drop_bit 10 x"

text \<open>
  The constants are given by the standard as the first 32 bits of the fractional parts of
  the cube roots (round constants) and of the square roots (initial hash value) of the first
  primes; \<open>int_root k n\<close> is the integer part of the \<open>k\<close>-th root of \<open>n\<close>, found bit by bit.
\<close>

definition int_root :: "nat \<Rightarrow> nat \<Rightarrow> nat" where
  "int_root k n = fold (\<lambda>bit r. if (r + 2 ^ bit) ^ k \<le> n then r + 2 ^ bit else r) (rev [0..<48]) 0"

definition first_primes :: "nat list" where
  "first_primes = filter (\<lambda>n. list_all (\<lambda>d. n mod d \<noteq> 0) [2..<n]) [2..<312]"

definition round_constants :: "word32 list" where
  "round_constants = map (\<lambda>p. of_nat (int_root 3 (p * 2 ^ 96))) first_primes"

type_synonym hash_state =
  "word32 \<times> word32 \<times> word32 \<times> word32 \<times> word32 \<times> word32 \<times> word32 \<times> word32"

definition fractional_sqrt :: "nat \<Rightarrow> word32" where
  "fractional_sqrt p = of_nat (int_root 2 (p * 2 ^ 64))"

definition initial_hash :: hash_state where
  "initial_hash =
     (fractional_sqrt 2, fractional_sqrt 3, fractional_sqrt 5, fractional_sqrt 7,
      fractional_sqrt 11, fractional_sqrt 13, fractional_sqrt 17, fractional_sqrt 19)"

text \<open>Big-endian encodings.\<close>

definition be32 :: "word32 \<Rightarrow> byte list" where
  "be32 w = [ucast (drop_bit 24 w), ucast (drop_bit 16 w), ucast (drop_bit 8 w), ucast w]"

definition be64_length :: "nat \<Rightarrow> byte list" where
  "be64_length n = map (\<lambda>i. of_nat (n div 2 ^ (8 * (7 - i)))) [0..<8]"

definition word_of_bytes :: "byte list \<Rightarrow> word32" where
  "word_of_bytes bs = foldl (\<lambda>w b. push_bit 8 w OR ucast b) 0 bs"

text \<open>Padding to a multiple of 64 bytes, and the 64-byte blocks of the padded message.\<close>

definition sha_pad :: "byte list \<Rightarrow> byte list" where
  "sha_pad m =
     m @ [0x80] @ replicate ((64 - (length m + 9) mod 64) mod 64) 0
       @ be64_length (8 * length m)"

definition blocks :: "byte list \<Rightarrow> byte list list" where
  "blocks m = map (\<lambda>i. take 64 (drop (64 * i) m)) [0..<length m div 64]"

definition schedule :: "byte list \<Rightarrow> word32 list" where
  "schedule block =
     fold (\<lambda>t w. w @ [small_sigma1 (w ! (t - 2)) + w ! (t - 7)
                        + small_sigma0 (w ! (t - 15)) + w ! (t - 16)])
       [16..<64]
       (map (\<lambda>j. word_of_bytes (take 4 (drop (4 * j) block))) [0..<16])"

fun sha_round :: "word32 \<times> word32 \<Rightarrow> hash_state \<Rightarrow> hash_state" where
  "sha_round (k, w) (a, b, c, d, e, f, g, h) =
     (let t1 = h + big_sigma1 e + Ch e f g + k + w;
          t2 = big_sigma0 a + Maj a b c
      in (t1 + t2, a, b, c, d + t1, e, f, g))"

fun add_state :: "hash_state \<Rightarrow> hash_state \<Rightarrow> hash_state" where
  "add_state (a, b, c, d, e, f, g, h) (a', b', c', d', e', f', g', h') =
     (a + a', b + b', c + c', d + d', e + e', f + f', g + g', h + h')"

definition compress :: "byte list \<Rightarrow> hash_state \<Rightarrow> hash_state" where
  "compress block st = add_state st (fold sha_round (zip round_constants (schedule block)) st)"

fun digest :: "hash_state \<Rightarrow> byte list" where
  "digest (a, b, c, d, e, f, g, h) = concat (map be32 [a, b, c, d, e, f, g, h])"

definition sha256 :: "byte list \<Rightarrow> byte list" where
  "sha256 m = digest (fold compress (blocks (sha_pad m)) initial_hash)"

subsection \<open>HMAC-SHA256 and hexadecimal encoding\<close>

definition hmac_key :: "byte list \<Rightarrow> byte list" where
  "hmac_key key =
     (let k = (if length key > 64 then sha256 key else key)
      in k @ replicate (64 - length k) 0)"

definition hmac_sha256 :: "byte list \<Rightarrow> byte list \<Rightarrow> byte list" where
  "hmac_sha256 key m =
     (let k = hmac_key key
      in sha256 (map (\<lambda>b. b XOR 0x5c) k @ sha256 (map (\<lambda>b. b XOR 0x36) k @ m)))"

definition hex_digit :: "nat \<Rightarrow> char" where
  "hex_digit n = ''0123456789abcdef'' ! n"

definition EncodeToString :: "byte list \<Rightarrow> string" where
  "EncodeToString bs = concat (map (\<lambda>b. [hex_digit (unat b div 16), hex_digit (unat b mod 16)]) bs)"

subsection \<open>strconv.FormatInt and strconv.ParseInt, base 10, 64 bits\<close>

definition digit_char :: "nat \<Rightarrow> char" where
  "digit_char d = char_of (48 + d)"

fun decimal :: "nat \<Rightarrow> string" where
  "decimal n = (if n < 10 then [digit_char n] else decimal (n div 10) @ [digit_char (n mod 10)])"

declare decimal.simps [simp del]

definition FormatInt :: "int \<Rightarrow> string" where
  "FormatInt i = (if i < 0 then CHR ''-'' # decimal (nat (- i)) else decimal (nat i))"

definition digit_value :: "char \<Rightarrow> nat option" where
  "digit_value c =
     (if (48::nat) \<le> of_char c \<and> of_char c \<le> (57::nat) then Some (of_char c - 48) else None)"

fun parse_digits :: "nat \<Rightarrow> string \<Rightarrow> nat option" where
  "parse_digits acc [] = Some acc"
| "parse_digits acc (c # cs) =
     (case digit_value c of None \<Rightarrow> None | Some d \<Rightarrow> parse_digits (acc * 10 + d) cs)"

text \<open>
  \<open>ParseInt(s, 10, 64)\<close>: an optional sign, then at least one decimal digit and nothing
  else; a value outside the 64-bit signed range is an error. \<open>None\<close> is any error.
\<close>

definition ParseInt :: "string \<Rightarrow> int option" where
  "ParseInt s =
     (if s = [] then None
      else
        let neg = (hd s = CHR ''-'');
            digits = (if hd s = CHR ''+'' \<or> hd s = CHR ''-'' then tl s else s)
        in if digits = [] then None
           else (case parse_digits 0 digits of
                   None \<Rightarrow> None
                 | Some un \<Rightarrow>
                     if \<not> neg \<and> un \<ge> 2 ^ 63 then None
                     else if neg \<and> un > 2 ^ 63 then None
                     else Some (if neg then - int un else int un)))"

section \<open>Forwarder (router/internal/forward/forwarder.go)\<close>

text \<open>
  An \<open>http.Request\<close> as far as signing reads it: method, URL path and headers. A header
  maps a canonical key to its values; \<open>Header.Get\<close> returns the first value or the empty string,
  \<open>Header.Set\<close> replaces the values. The three keys used are already in canonical form.
  \<open>time.Now().Unix()\<close> is an \<open>int64\<close>, passed in.
\<close>

record Request =
  Method :: string
  Path :: string
  Header :: "string \<Rightarrow> string list"

definition Header_Get :: "(string \<Rightarrow> string list) \<Rightarrow> string \<Rightarrow> string" where
  "Header_Get h key = (case h key of [] \<Rightarrow> [] | v # vs \<Rightarrow> v)"

definition Header_Set :: "(string \<Rightarrow> string list) \<Rightarrow> string \<Rightarrow> string \<Rightarrow> (string \<Rightarrow> string list)" where
  "Header_Set h key v = h(key := [v])"

definition sign :: "string \<Rightarrow> string \<Rightarrow> string" where
  "sign secret signatureData =
     EncodeToString (hmac_sha256 (bytes_of secret) (bytes_of signatureData))"

definition addHMACAuth :: "Request \<Rightarrow> string \<Rightarrow> string \<Rightarrow> go_int \<Rightarrow> Request" where
  "addHMACAuth req secret body now =
     (let timestamp = FormatInt (sint now);
          signatureData = timestamp @ Method req @ Path req @ body;
          signature = sign secret signatureData
      in req \<lparr> Header := Header_Set (Header_Set (Header_Set (Header req) ''X-Timestamp'' timestamp)
                                   ''X-Signature'' signature)
                              ''X-Auth-Type'' ''hmac-sha256'' \<rparr>)"

definition go_abs :: "go_int \<Rightarrow> go_int" where
  "go_abs x = (if x <s 0 then - x else x)"

definition ValidateHMACSignature :: "Request \<Rightarrow> string \<Rightarrow> string \<Rightarrow> go_int \<Rightarrow> bool" where
  "ValidateHMACSignature req secret body now =
     (let timestamp = Header_Get (Header req) ''X-Timestamp'';
          signature = Header_Get (Header req) ''X-Signature'';
          authType = Header_Get (Header req) ''X-Auth-Type''
      in if timestamp = [] \<or> signature = [] \<or> authType \<noteq> ''hmac-sha256'' then False
         else (case ParseInt timestamp of
                 None \<Rightarrow> False
               | Some parsed \<Rightarrow>
                   let ts = (word_of_int parsed :: go_int)
                   in if 300 <s go_abs (now - ts) then False
                      else
                        let signatureData = timestamp @ Method req @ Path req @ body;
                            expectedSignature = sign secret signatureData
                        in signature = expectedSignature))"

text \<open>An example request to sign, and a request carrying a signature that is too short.\<close>

definition example_request :: Request where
  "example_request = \<lparr> Method = ''POST'', Path = ''/v1/a'', Header = (\<lambda>key. []) \<rparr>"

definition forged_request :: Request where
  "forged_request =
     example_request \<lparr> Header :=
       Header_Set (Header_Set (Header_Set (\<lambda>key. []) ''X-Timestamp'' ''1700000000'') ''X-Signature'' ''deadbeef'')
           ''X-Auth-Type'' ''hmac-sha256'' \<rparr>"


section \<open>Properties of float64 arithmetic\<close>

lemma two_to_powr: "two_to k = 2 powr (real_of_int k)"
  unfolding two_to_def
  by (simp only: powr_real_of_int [of 2 k] inverse_eq_divide zero_less_numeral if_True)

lemma two_to_pos: "0 < two_to k"
  by (simp add: two_to_powr)

lemma two_to_add: "two_to (j + k) = two_to j * two_to k"
  by (simp add: two_to_powr powr_add)

lemma two_to_le: "(two_to j \<le> two_to k) = (j \<le> k)"
  by (simp add: two_to_powr)

lemma two_to_less: "(two_to j < two_to k) = (j < k)"
  by (simp add: two_to_powr)

lemma cands_finite: "finite {e' \<in> {- 1022 .. 1023}. two_to e' \<le> (a::real)}"
  by (rule finite_subset [OF _ finite_atLeastAtMost_int [of "- 1022" 1023]]) blast

lemma binade_eq:
  assumes "two_to e \<le> a" "a < two_to (e + 1)" "- 1022 \<le> e" "e \<le> 1023"
  shows "binade a = e"
proof -
  have "two_to (- 1022) \<le> two_to e" using assms(3) by (simp only: two_to_le)
  with assms(1) have n: "\<not> a < two_to (- 1022)" by simp
  have "Max {e' \<in> {- 1022 .. 1023}. two_to e' \<le> a} = e"
  proof (rule Max_eqI)
    show "finite {e' \<in> {- 1022 .. 1023}. two_to e' \<le> a}" by (rule cands_finite)
    show "e \<in> {e' \<in> {- 1022 .. 1023}. two_to e' \<le> a}" using assms by simp
    fix y assume "y \<in> {e' \<in> {- 1022 .. 1023}. two_to e' \<le> a}"
    then have "two_to y \<le> a" by simp
    with assms(2) have "two_to y < two_to (e + 1)" by simp
    then show "y \<le> e" by (simp only: two_to_less)
  qed
  with n show ?thesis by (simp only: binade_def if_False)
qed

lemma binade_top:
  assumes "two_to 1023 \<le> a"
  shows "binade a = 1023"
proof -
  have "two_to (- 1022) \<le> two_to 1023" by (simp only: two_to_le)
  with assms have n: "\<not> a < two_to (- 1022)" by simp
  have "Max {e' \<in> {- 1022 .. 1023}. two_to e' \<le> a} = 1023"
  proof (rule Max_eqI)
    show "finite {e' \<in> {- 1022 .. 1023}. two_to e' \<le> a}" by (rule cands_finite)
    show "1023 \<in> {e' \<in> {- 1022 .. 1023}. two_to e' \<le> a}" using assms by simp
    fix y assume "y \<in> {e' \<in> {- 1022 .. 1023}. two_to e' \<le> a}"
    then show "y \<le> 1023" by simp
  qed
  with n show ?thesis by (simp only: binade_def if_False)
qed

lemma binade_subnormal: "a < two_to (- 1022) \<Longrightarrow> binade a = - 1022"
  by (simp only: binade_def if_True)

lemma binade_range: "- 1022 \<le> binade a \<and> binade a \<le> 1023"
proof (cases "a < two_to (- 1022)")
  case True
  then show ?thesis by (simp add: binade_subnormal)
next
  case False
  let ?S = "{e' \<in> {- 1022 .. 1023}. two_to e' \<le> a}"
  have "(- 1022) \<in> ?S" using False by simp
  then have ne: "?S \<noteq> {}" by blast
  have "Max ?S \<in> ?S" using cands_finite ne by (rule Max_in)
  moreover have "binade a = Max ?S" using False by (simp only: binade_def if_False)
  ultimately show ?thesis by simp
qed

lemma binade_lower: "two_to (- 1022) \<le> a \<Longrightarrow> two_to (binade a) \<le> a"
proof -
  assume a: "two_to (- 1022) \<le> a"
  let ?S = "{e' \<in> {- 1022 .. 1023}. two_to e' \<le> a}"
  have "(- 1022) \<in> ?S" using a by simp
  then have ne: "?S \<noteq> {}" by blast
  have "Max ?S \<in> ?S" using cands_finite ne by (rule Max_in)
  moreover have "binade a = Max ?S" using a by (simp add: binade_def)
  ultimately show ?thesis by simp
qed

lemma rhe_int: "round_half_even (of_int m) = m"
  by (simp add: round_half_even_def)

lemma rhe_near:
  assumes "of_int m - 1/2 < r" "r < of_int m + 1/2"
  shows "round_half_even r = m"
proof (cases "of_int m \<le> r")
  case True
  with assms(2) have f: "\<lfloor>r\<rfloor> = m" by (intro floor_unique) auto
  then have "r - of_int \<lfloor>r\<rfloor> < 1/2" using assms(2) by simp
  with f show ?thesis by (simp add: round_half_even_def)
next
  case False
  with assms(1) have f: "\<lfloor>r\<rfloor> = m - 1" by (intro floor_unique) auto
  then have "1/2 < r - of_int \<lfloor>r\<rfloor>" using assms(1) by simp
  with f show ?thesis by (simp add: round_half_even_def)
qed

lemma rhe_bounds: "r - 1/2 \<le> of_int (round_half_even r) \<and> of_int (round_half_even r) \<le> r + 1/2"
proof -
  have f: "of_int \<lfloor>r\<rfloor> \<le> r" "r < of_int \<lfloor>r\<rfloor> + 1" by linarith+
  consider "r - of_int \<lfloor>r\<rfloor> < 1/2" | "1/2 < r - of_int \<lfloor>r\<rfloor>" | "r - of_int \<lfloor>r\<rfloor> = 1/2"
    by linarith
  then show ?thesis
  proof cases
    case 1
    then have "round_half_even r = \<lfloor>r\<rfloor>" by (simp add: round_half_even_def)
    with 1 f show ?thesis by linarith
  next
    case 2
    then have "round_half_even r = \<lfloor>r\<rfloor> + 1" by (simp add: round_half_even_def)
    with 2 f show ?thesis by linarith
  next
    case 3
    then have "round_half_even r = \<lfloor>r\<rfloor> \<or> round_half_even r = \<lfloor>r\<rfloor> + 1"
      by (simp add: round_half_even_def Let_def)
    with 3 f show ?thesis by linarith
  qed
qed

lemma rhe_ge: "of_int n \<le> r \<Longrightarrow> n \<le> round_half_even r"
proof -
  assume a: "of_int n \<le> r"
  then have "n \<le> \<lfloor>r\<rfloor>" by (simp add: le_floor_iff)
  moreover have "\<lfloor>r\<rfloor> \<le> round_half_even r" by (simp add: round_half_even_def Let_def)
  ultimately show ?thesis by simp
qed

lemma rhe_pos: "1/2 < r \<Longrightarrow> 1 \<le> round_half_even r"
proof -
  assume a: "1/2 < r"
  have "r - 1/2 \<le> of_int (round_half_even r)" using rhe_bounds [of r] by simp
  with a have "(0::real) < of_int (round_half_even r)" by simp
  then show ?thesis by simp
qed

lemma round64_overflow:
  assumes "two_to 1024 \<le> x"
  shows "round64 x = PInf"
proof -
  have p: "0 < two_to 1024" by (rule two_to_pos)
  with assms have x: "0 < x" by simp
  have "two_to 1023 \<le> two_to 1024" by (simp only: two_to_le)
  with assms have "two_to 1023 \<le> \<bar>x\<bar>" by simp
  then have b: "binade \<bar>x\<bar> = 1023" by (rule binade_top)
  have q: "two_to 1024 = of_int (2 ^ 53) * two_to 971"
    using two_to_add [of 53 971] by (simp add: two_to_def)
  have "of_int (2 ^ 53) \<le> \<bar>x\<bar> / two_to 971"
    using assms x two_to_pos [of 971] by (simp add: q pos_le_divide_eq)
  then have "2 ^ 53 \<le> round_half_even (\<bar>x\<bar> / two_to 971)" by (rule rhe_ge)
  then have "of_int (2 ^ 53) \<le> (of_int (round_half_even (\<bar>x\<bar> / two_to 971)) :: real)"
    by (simp only: of_int_le_iff)
  then have "two_to 1024 \<le> of_int (round_half_even (\<bar>x\<bar> / two_to 971)) * two_to 971"
    using two_to_pos [of 971] by (simp only: q mult_le_cancel_right_pos)
  with x b show ?thesis by (simp add: round64_def Let_def)
qed

text \<open>Evaluation at a positive real whose binade and nearest multiple are given.\<close>

lemma round64_near:
  assumes "- 1022 \<le> e" "e \<le> 1023" "two_to e \<le> x \<or> e = - 1022" "x < two_to (e + 1)" "0 < x"
    and "(of_int m - 1/2) * two_to (e - 52) < x" "x < (of_int m + 1/2) * two_to (e - 52)"
    and "of_int m * two_to (e - 52) < two_to 1024"
  shows "round64 x = Fin (of_int m * two_to (e - 52))"
proof -
  have b: "binade \<bar>x\<bar> = e"
  proof (cases "two_to e \<le> x")
    case True
    with assms show ?thesis by (intro binade_eq) auto
  next
    case False
    with assms(3) have e: "e = - 1022" by simp
    with False assms(5) show ?thesis by (simp add: binade_subnormal)
  qed
  have q: "0 < two_to (e - 52)" by (rule two_to_pos)
  have "round_half_even (\<bar>x\<bar> / two_to (e - 52)) = m"
  proof (rule rhe_near)
    show "of_int m - 1/2 < \<bar>x\<bar> / two_to (e - 52)"
      using assms(5,6) q by (simp add: pos_less_divide_eq)
    show "\<bar>x\<bar> / two_to (e - 52) < of_int m + 1/2"
      using assms(5,7) q by (simp add: pos_divide_less_eq)
  qed
  then have "round64 x = (if x = 0 then Fin 0
      else if two_to 1024 \<le> of_int m * two_to (e - 52) then (if 0 < x then PInf else NInf)
      else Fin (if 0 < x then of_int m * two_to (e - 52) else - (of_int m * two_to (e - 52))))"
    by (simp only: round64_def Let_def b)
  with assms(5,8) show ?thesis by simp
qed

lemma round64_exact:
  assumes "- 1022 \<le> e" "e \<le> 1023" "two_to e \<le> x \<or> e = - 1022" "x < two_to (e + 1)" "0 < x"
    and "x = of_int m * two_to (e - 52)"
  shows "round64 x = Fin x"
proof -
  have b: "binade \<bar>x\<bar> = e"
  proof (cases "two_to e \<le> x")
    case True
    with assms show ?thesis by (intro binade_eq) auto
  next
    case False
    with assms(3) have e: "e = - 1022" by simp
    with False assms(5) show ?thesis by (simp add: binade_subnormal)
  qed
  have q: "0 < two_to (e - 52)" by (rule two_to_pos)
  have "\<bar>x\<bar> / two_to (e - 52) = of_int m" using assms(5,6) q by simp
  then have r: "round_half_even (\<bar>x\<bar> / two_to (e - 52)) = m" by (simp only: rhe_int)
  have "two_to (e + 1) \<le> two_to 1024" using assms(2) by (simp only: two_to_le)
  with assms(4) have "x < two_to 1024" by simp
  then have lt: "\<not> two_to 1024 \<le> x" by simp
  have "round64 x = (if x = 0 then Fin 0
      else if two_to 1024 \<le> of_int m * two_to (e - 52) then (if 0 < x then PInf else NInf)
      else Fin (if 0 < x then of_int m * two_to (e - 52) else - (of_int m * two_to (e - 52))))"
    by (simp only: round64_def Let_def b r)
  also have "\<dots> = Fin x" using assms(5) lt by (simp add: assms(6) [symmetric])
  finally show ?thesis .
qed

lemma round64_positive:
  assumes "two_to (- 1074) \<le> x"
  shows "round64 x = PInf \<or> (\<exists>y. 0 < y \<and> round64 x = Fin y)"
proof -
  have x: "0 < x" using assms two_to_pos [of "- 1074"] by simp
  let ?q = "two_to (binade \<bar>x\<bar> - 52)"
  let ?m = "round_half_even (\<bar>x\<bar> / ?q)"
  have q: "0 < ?q" by (rule two_to_pos)
  have "?q \<le> x"
  proof (cases "x < two_to (- 1022)")
    case True
    then have "binade \<bar>x\<bar> = - 1022" using x by (simp add: binade_subnormal)
    with assms show ?thesis by simp
  next
    case False
    then have "two_to (binade \<bar>x\<bar>) \<le> \<bar>x\<bar>" using x by (intro binade_lower) simp
    moreover have "?q \<le> two_to (binade \<bar>x\<bar>)" by (simp add: two_to_le)
    ultimately show ?thesis using x by simp
  qed
  then have "1 \<le> \<bar>x\<bar> / ?q" using q x by (simp add: pos_le_divide_eq)
  then have "1/2 < \<bar>x\<bar> / ?q" by linarith
  then have "1 \<le> ?m" by (rule rhe_pos)
  then have "(0::real) < of_int ?m" by simp
  with q have "0 < of_int ?m * ?q" by simp
  with x show ?thesis by (simp add: round64_def Let_def)
qed

lemma rhe_le: "r \<le> of_int n \<Longrightarrow> round_half_even r \<le> n"
proof -
  assume a: "r \<le> of_int n"
  have "of_int (round_half_even r) \<le> r + 1/2" using rhe_bounds [of r] by simp
  with a have "(of_int (round_half_even r) :: real) < of_int n + 1" by linarith
  then have "(of_int (round_half_even r) :: real) < of_int (n + 1)" by simp
  then have "round_half_even r < n + 1" by (simp only: of_int_less_iff)
  then show ?thesis by simp
qed

lemma two_to_53: "two_to 53 = of_int (2 ^ 53)"
  by (simp add: two_to_def)

lemma two_to_multiple:
  assumes "j \<le> k"
  shows "of_int m * two_to k / two_to j = of_int (m * 2 ^ nat (k - j))"
proof (rule divide_eq_imp)
  show "two_to j \<noteq> 0" using two_to_pos [of j] by simp
  have "two_to k = two_to ((k - j) + j)" by simp
  also have "\<dots> = two_to (k - j) * two_to j" by (rule two_to_add)
  also have "two_to (k - j) = of_int (2 ^ nat (k - j))" using assms by (simp add: two_to_def)
  finally have "two_to k = of_int (2 ^ nat (k - j)) * two_to j" .
  then have "of_int m * two_to k = of_int m * (of_int (2 ^ nat (k - j)) * two_to j)"
    by (rule arg_cong)
  also have "\<dots> = of_int (m * 2 ^ nat (k - j)) * two_to j"
    by (simp only: of_int_mult mult.assoc)
  finally show "of_int m * two_to k = of_int (m * 2 ^ nat (k - j)) * two_to j" .
qed

lemma binade_upper:
  assumes "a < two_to 1024"
  shows "a < two_to (binade a + 1)"
proof (cases "a < two_to (- 1022)")
  case True
  have "two_to (- 1022) \<le> two_to (- 1022 + 1)" by (simp add: two_to_le)
  with True show ?thesis by (simp add: binade_subnormal)
next
  case False
  let ?S = "{e' \<in> {- 1022 .. 1023}. two_to e' \<le> a}"
  have fin: "finite ?S" by (rule cands_finite)
  have m: "binade a = Max ?S" using False by (simp only: binade_def if_False)
  show ?thesis
  proof (rule ccontr)
    assume "\<not> a < two_to (binade a + 1)"
    then have le: "two_to (binade a + 1) \<le> a" by simp
    with assms have "two_to (binade a + 1) < two_to 1024" by simp
    then have "binade a + 1 \<le> 1023" by (simp add: two_to_less)
    moreover have "- 1022 \<le> binade a + 1" using binade_range [of a] by simp
    ultimately have "binade a + 1 \<in> ?S" using le by simp
    with fin have "binade a + 1 \<le> Max ?S" by (rule Max_ge)
    with m show False by simp
  qed
qed

text \<open>
  The finite results are values of binary64, at most half a spacing from the exact result,
  and a value of binary64 is left as it is.
\<close>

lemma round64_value:
  assumes "round64 x = Fin y"
  shows "\<exists>m k. y = of_int m * two_to k \<and> \<bar>m\<bar> \<le> 2 ^ 53 \<and> - 1074 \<le> k \<and> k \<le> 971
           \<and> \<bar>y\<bar> < two_to 1024"
proof (cases "x = 0")
  case True
  with assms have "y = 0" by (simp add: round64_def)
  then have "y = of_int 0 * two_to 0 \<and> \<bar>0::int\<bar> \<le> 2 ^ 53 \<and> - 1074 \<le> (0::int) \<and> (0::int) \<le> 971
      \<and> \<bar>y\<bar> < two_to 1024"
    using two_to_pos [of 1024] by simp
  then show ?thesis by blast
next
  case False
  let ?b = "binade \<bar>x\<bar>"
  let ?q = "two_to (?b - 52)"
  let ?m = "round_half_even (\<bar>x\<bar> / ?q)"
  have q: "0 < ?q" by (rule two_to_pos)
  from assms False have lt: "of_int ?m * ?q < two_to 1024"
    and y: "y = (if 0 < x then of_int ?m * ?q else - (of_int ?m * ?q))"
    by (auto simp: round64_def Let_def split: if_splits)
  have "0 \<le> \<bar>x\<bar> / ?q" using q by simp
  then have m0: "0 \<le> ?m" using rhe_ge [of 0 "\<bar>x\<bar> / ?q"] by simp
  have "\<bar>x\<bar> < two_to 1024"
  proof (rule ccontr)
    assume "\<not> \<bar>x\<bar> < two_to 1024"
    then have big: "two_to 1024 \<le> \<bar>x\<bar>" by simp
    then have "round64 \<bar>x\<bar> = PInf" by (rule round64_overflow)
    moreover have "0 < \<bar>x\<bar>" using False by simp
    ultimately have "two_to 1024 \<le> of_int ?m * ?q"
      by (auto simp: round64_def Let_def split: if_splits)
    with lt show False by simp
  qed
  then have "\<bar>x\<bar> < two_to (?b + 1)" by (rule binade_upper)
  moreover have "two_to (?b + 1) = two_to (53 + (?b - 52))"
    by (rule arg_cong [of _ _ two_to]) simp
  moreover have "two_to (53 + (?b - 52)) = two_to 53 * ?q" by (rule two_to_add)
  ultimately have "\<bar>x\<bar> < of_int (2 ^ 53) * ?q" by (simp only: two_to_53)
  then have "\<bar>x\<bar> / ?q \<le> of_int (2 ^ 53)" using q by (simp add: pos_divide_le_eq)
  then have m1: "?m \<le> 2 ^ 53" by (rule rhe_le)
  have k: "- 1074 \<le> ?b - 52" "?b - 52 \<le> 971" using binade_range [of "\<bar>x\<bar>"] by simp_all
  have big: "\<bar>y\<bar> < two_to 1024" using y lt m0 q by (auto simp: abs_mult)
  show ?thesis
  proof (cases "0 < x")
    case True
    with y have "y = of_int ?m * ?q" by simp
    with m0 m1 k big show ?thesis by (intro exI [of _ ?m] exI [of _ "?b - 52"]) simp
  next
    case False
    with y have "y = of_int (- ?m) * ?q" by simp
    with m0 m1 k big show ?thesis by (intro exI [of _ "- ?m"] exI [of _ "?b - 52"]) simp
  qed
qed

lemma round64_error:
  assumes "round64 x = Fin y"
  shows "\<bar>y - x\<bar> \<le> two_to (binade \<bar>x\<bar> - 52) / 2"
proof (cases "x = 0")
  case True
  with assms have "y = 0" by (simp add: round64_def)
  with True show ?thesis using two_to_pos [of "binade \<bar>x\<bar> - 52"] by simp
next
  case False
  let ?q = "two_to (binade \<bar>x\<bar> - 52)"
  let ?m = "round_half_even (\<bar>x\<bar> / ?q)"
  have q: "0 < ?q" by (rule two_to_pos)
  from assms False have y: "y = (if 0 < x then of_int ?m * ?q else - (of_int ?m * ?q))"
    by (auto simp: round64_def Let_def split: if_splits)
  have "\<bar>of_int ?m - \<bar>x\<bar> / ?q\<bar> \<le> 1/2" using rhe_bounds [of "\<bar>x\<bar> / ?q"] by linarith
  then have "\<bar>of_int ?m - \<bar>x\<bar> / ?q\<bar> * ?q \<le> 1/2 * ?q" using q by (simp only: mult_le_cancel_right_pos)
  moreover have "\<bar>of_int ?m - \<bar>x\<bar> / ?q\<bar> * ?q = \<bar>of_int ?m * ?q - \<bar>x\<bar>\<bar>"
  proof -
    have "\<bar>of_int ?m - \<bar>x\<bar> / ?q\<bar> * ?q = \<bar>(of_int ?m - \<bar>x\<bar> / ?q) * ?q\<bar>"
      using q by (simp add: abs_mult)
    also have "(of_int ?m - \<bar>x\<bar> / ?q) * ?q = of_int ?m * ?q - \<bar>x\<bar>"
      using q by (simp add: left_diff_distrib)
    finally show ?thesis .
  qed
  ultimately have e: "\<bar>of_int ?m * ?q - \<bar>x\<bar>\<bar> \<le> ?q / 2" by simp
  show ?thesis
  proof (cases "0 < x")
    case True
    with y e show ?thesis by simp
  next
    case False
    with y have "y - x = - (of_int ?m * ?q - \<bar>x\<bar>)" by simp
    then have "\<bar>y - x\<bar> = \<bar>of_int ?m * ?q - \<bar>x\<bar>\<bar>" by (simp only: abs_minus_cancel)
    with e show ?thesis by simp
  qed
qed

lemma round64_fixed_pos:
  assumes "0 < m" "m < 2 ^ 53" "- 1074 \<le> k" "k \<le> 971"
  shows "round64 (of_int m * two_to k) = Fin (of_int m * two_to k)"
proof -
  let ?x = "of_int m * two_to k :: real"
  have x: "0 < ?x" using assms(1) two_to_pos [of k] by simp
  have "(of_int m :: real) < of_int (2 ^ 53)" using assms(2) by (simp only: of_int_less_iff)
  then have "?x < of_int (2 ^ 53) * two_to k" using two_to_pos [of k] by simp
  also have "of_int (2 ^ 53) * two_to k = two_to (53 + k)"
    using two_to_add [of 53 k] by (simp add: two_to_53)
  finally have up: "?x < two_to (53 + k)" .
  have "two_to (53 + k) \<le> two_to 1024" using assms(4) by (simp add: two_to_le)
  with up have lt: "?x < two_to 1024" by simp
  let ?b = "binade ?x"
  have "\<exists>n. ?x / two_to (?b - 52) = of_int n"
  proof (cases "?x < two_to (- 1022)")
    case True
    then have b: "?b = - 1022" by (rule binade_subnormal)
    then have q: "two_to (?b - 52) = two_to (- 1074)" by simp
    have "?x / two_to (- 1074) = of_int (m * 2 ^ nat (k - (- 1074)))"
      using assms(3) by (rule two_to_multiple)
    then show ?thesis unfolding q by blast
  next
    case False
    then have "two_to ?b \<le> ?x" by (intro binade_lower) simp
    with up have "two_to ?b < two_to (53 + k)" by simp
    then have "?b - 52 \<le> k" by (simp add: two_to_less)
    then have "?x / two_to (?b - 52) = of_int (m * 2 ^ nat (k - (?b - 52)))"
      by (rule two_to_multiple)
    then show ?thesis by blast
  qed
  then obtain n where n: "?x / two_to (?b - 52) = of_int n" by blast
  then have r: "round_half_even (?x / two_to (?b - 52)) = n" by (simp only: rhe_int)
  have nz: "two_to (?b - 52) \<noteq> 0" using two_to_pos [of "?b - 52"] by simp
  from n have "?x = of_int n * two_to (?b - 52)" by (simp only: nonzero_divide_eq_eq [OF nz])
  then have xn: "of_int n * two_to (?b - 52) = ?x" by (rule sym)
  from x have a: "\<bar>?x\<bar> = ?x" by simp
  have "round64 ?x = (if ?x = 0 then Fin 0
      else if two_to 1024 \<le> of_int n * two_to (?b - 52) then (if 0 < ?x then PInf else NInf)
      else Fin (if 0 < ?x then of_int n * two_to (?b - 52) else - (of_int n * two_to (?b - 52))))"
    by (simp only: round64_def Let_def a r)
  also have "\<dots> = Fin ?x" using x lt by (simp only: xn) simp
  finally show ?thesis .
qed

lemma round64_minus: "round64 (- x) = (case round64 x of NInf \<Rightarrow> PInf | Fin y \<Rightarrow> Fin (- y) | PInf \<Rightarrow> NInf)"
  by (simp add: round64_def Let_def)

lemma round64_fixed:
  assumes "\<bar>m\<bar> < 2 ^ 53" "- 1074 \<le> k" "k \<le> 971"
  shows "round64 (of_int m * two_to k) = Fin (of_int m * two_to k)"
proof -
  consider "m = 0" | "0 < m" | "m < 0" by linarith
  then show ?thesis
  proof cases
    case 1
    then show ?thesis by (simp add: round64_def)
  next
    case 2
    with assms show ?thesis by (intro round64_fixed_pos) auto
  next
    case 3
    with assms have "round64 (of_int (- m) * two_to k) = Fin (of_int (- m) * two_to k)"
      by (intro round64_fixed_pos) auto
    then have "round64 (- (of_int m * two_to k)) = Fin (- (of_int m * two_to k))" by simp
    then show ?thesis by (simp add: round64_minus split: fcost.splits)
  qed
qed

lemma round64_at:
  assumes "- 1022 \<le> e" "e \<le> 1023" "two_to e \<le> x \<or> e = - 1022" "x < two_to (e + 1)" "0 < x"
    and "round_half_even (x / two_to (e - 52)) = m"
  shows "round64 x = (if two_to 1024 \<le> of_int m * two_to (e - 52) then PInf
                      else Fin (of_int m * two_to (e - 52)))"
proof -
  have b: "binade \<bar>x\<bar> = e"
  proof (cases "two_to e \<le> x")
    case True
    with assms show ?thesis by (intro binade_eq) auto
  next
    case False
    with assms(3) have e: "e = - 1022" by simp
    with False assms(5) show ?thesis by (simp add: binade_subnormal)
  qed
  from assms(5) have a: "\<bar>x\<bar> = x" by simp
  with b have b: "binade x = e" by simp
  have "round64 x = (if x = 0 then Fin 0
      else if two_to 1024 \<le> of_int m * two_to (e - 52) then (if 0 < x then PInf else NInf)
      else Fin (if 0 < x then of_int m * two_to (e - 52) else - (of_int m * two_to (e - 52))))"
    by (simp only: round64_def Let_def b a assms(6))
  with assms(5) show ?thesis by simp
qed

text \<open>
  Ties go to the even multiple: \<open>2^53 + 1\<close> to \<open>2^53\<close> and \<open>2^53 + 3\<close> to \<open>2^53 + 4\<close>, half
  of the least subnormal to 0 and three halves of it to twice it; \<open>2^1024 - 2^970\<close> is the
  least real that overflows, and \<open>2^1024 - 2^971\<close> is the greatest finite value.
\<close>

lemma round64_ties:
  "round64 (2 ^ 53 + 1) = Fin (2 ^ 53)"
  "round64 (2 ^ 53 + 3) = Fin (2 ^ 53 + 4)"
  "round64 (two_to (- 1075)) = Fin 0"
  "round64 (3 * two_to (- 1075)) = Fin (two_to (- 1073))"
  "round64 (two_to 1024 - two_to 970) = PInf"
  "round64 (two_to 1024 - two_to 971) = Fin (two_to 1024 - two_to 971)"
proof -
  have "round64 (2 ^ 53 + 1) = (if two_to 1024 \<le> of_int (2 ^ 52) * two_to (53 - 52) then PInf
      else Fin (of_int (2 ^ 52) * two_to (53 - 52)))"
    by (rule round64_at) (simp_all add: two_to_def round_half_even_def)
  then show "round64 (2 ^ 53 + 1) = Fin (2 ^ 53)" by (simp add: two_to_def)
  have "round64 (2 ^ 53 + 3) = (if two_to 1024 \<le> of_int (2 ^ 52 + 2) * two_to (53 - 52) then PInf
      else Fin (of_int (2 ^ 52 + 2) * two_to (53 - 52)))"
    by (rule round64_at) (simp_all add: two_to_def round_half_even_def)
  then show "round64 (2 ^ 53 + 3) = Fin (2 ^ 53 + 4)" by (simp add: two_to_def)
  have "round64 (two_to (- 1075)) = (if two_to 1024 \<le> of_int 0 * two_to (- 1022 - 52) then PInf
      else Fin (of_int 0 * two_to (- 1022 - 52)))"
    by (rule round64_at) (simp_all add: two_to_def round_half_even_def)
  then show "round64 (two_to (- 1075)) = Fin 0" by (simp add: two_to_def)
  have "round64 (3 * two_to (- 1075)) = (if two_to 1024 \<le> of_int 2 * two_to (- 1022 - 52) then PInf
      else Fin (of_int 2 * two_to (- 1022 - 52)))"
    by (rule round64_at) (simp_all add: two_to_def round_half_even_def)
  then show "round64 (3 * two_to (- 1075)) = Fin (two_to (- 1073))" by (simp add: two_to_def)
  have "round64 (two_to 1024 - two_to 970)
      = (if two_to 1024 \<le> of_int (2 ^ 53) * two_to (1023 - 52) then PInf
         else Fin (of_int (2 ^ 53) * two_to (1023 - 52)))"
    by (rule round64_at) (simp_all add: two_to_def round_half_even_def)
  then show "round64 (two_to 1024 - two_to 970) = PInf" by (simp add: two_to_def)
  have "round64 (two_to 1024 - two_to 971)
      = (if two_to 1024 \<le> of_int (2 ^ 53 - 1) * two_to (1023 - 52) then PInf
         else Fin (of_int (2 ^ 53 - 1) * two_to (1023 - 52)))"
    by (rule round64_at) (simp_all add: two_to_def round_half_even_def)
  then show "round64 (two_to 1024 - two_to 971) = Fin (two_to 1024 - two_to 971)"
    by (simp add: two_to_def)
qed

lemma flt_not_fle: "flt a b \<Longrightarrow> \<not> fle b a"
  by (cases a; cases b) auto

lemma fmul_pinf: "0 < y \<Longrightarrow> fmul (Num PInf) (Num (Fin y)) = Num PInf"
  by (simp add: mul_num_def signed_inf_def)

lemma fdiv_pinf: "fdiv (Num (Fin x)) (Num PInf) = Num (Fin 0)"
  by (simp add: div_num_def)

lemma fmul_zero: "fmul (Num (Fin 0)) (Num (Fin y)) = Num (Fin 0)"
  by (simp add: mul_num_def round64_def)

lemma fmul_not_nan: "y \<noteq> 0 \<Longrightarrow> \<exists>r. fmul (Num q) (Num (Fin y)) = Num r"
  by (cases q) (simp_all add: mul_num_def)

text \<open>
  The cost computation never gives NaN on finite inputs with a factor other than 0 and a
  throughput that is a positive \<open>float64\<close> (at least \<open>2^-1074\<close>).
\<close>

lemma cost_formula_not_nan:
  assumes "f \<noteq> 0" "two_to (- 1074) \<le> t"
  shows "cost_formula (Num (Fin c)) (Num (Fin f)) (Num (Fin t)) \<noteq> NaN"
proof -
  have "0 < t" using assms(2) two_to_pos [of "- 1074"] by simp
  with assms(2) have "two_to (- 1074) \<le> t * 3600" by simp
  from round64_positive [OF this]
  consider "round64 (t * 3600) = PInf" | y where "0 < y" "round64 (t * 3600) = Fin y" by blast
  then obtain q where q: "fdiv (Num (Fin c)) (fmul (Num (Fin t)) (Num (Fin 3600))) = Num q"
  proof cases
    case 1
    then have "fdiv (Num (Fin c)) (fmul (Num (Fin t)) (Num (Fin 3600))) = Num (Fin 0)"
      by (simp add: mul_num_def div_num_def)
    then show ?thesis by (rule that)
  next
    case 2
    then have "fdiv (Num (Fin c)) (fmul (Num (Fin t)) (Num (Fin 3600))) = Num (round64 (c / y))"
      by (simp add: mul_num_def div_num_def)
    then show ?thesis by (rule that)
  qed
  from fmul_not_nan [OF assms(1), of q] obtain p where p: "fmul (Num q) (Num (Fin f)) = Num p"
    by blast
  from fmul_not_nan [of 1000 p] obtain r where "fmul (Num p) (Num (Fin 1000)) = Num r"
    by auto
  with q p show ?thesis by (simp add: cost_formula_def)
qed

text \<open>
  The computation at some inputs: cost 36 with factor 1.1 at throughputs 10 and 1 (the
  quotient and the two products after it are rounded), and cost 3600 with factor 1 at
  throughputs \<open>2^-1060\<close> (the quotient overflows) and \<open>2^1020\<close> (the product overflows and
  the quotient is 0).
\<close>

lemma nearest_11_10: "nearest (11 / 10) = Num (Fin (2476979795053773 / 2251799813685248))"
proof -
  have "round64 (11 / 10) = Fin (of_int 4953959590107546 * two_to (0 - 52))"
    by (rule round64_near) (simp_all add: two_to_def)
  then show ?thesis by (simp add: nearest_def two_to_def)
qed

lemma hour_10:
  "fmul (Num (Fin 10)) (Num (Fin 3600)) = Num (Fin 36000)"
proof -
  have "round64 (10 * 3600) = Fin (of_int 4947802324992000 * two_to (15 - 52))"
    by (rule round64_near) (simp_all add: two_to_def)
  then show ?thesis by (simp add: mul_num_def two_to_def)
qed

lemma quotient_10:
  "fdiv (Num (Fin 36)) (Num (Fin 36000)) = Num (Fin (1152921504606847 / 1152921504606846976))"
proof -
  have "round64 (36 / 36000) = Fin (of_int 4611686018427388 * two_to (-10 - 52))"
    by (rule round64_near) (simp_all add: two_to_def)
  then show ?thesis by (simp add: div_num_def two_to_def)
qed

lemma overhead_10:
  "fmul (Num (Fin (1152921504606847 / 1152921504606846976)))
       (Num (Fin (2476979795053773 / 2251799813685248)))
    = Num (Fin (5072854620270127 / 4611686018427387904))"
proof -
  have "round64 ((1152921504606847 / 1152921504606846976) * (2476979795053773 / 2251799813685248))
    = Fin (of_int 5072854620270127 * two_to (-10 - 52))"
    by (rule round64_near) (simp_all add: two_to_def)
  then show ?thesis by (simp add: mul_num_def two_to_def)
qed

lemma per_1k_10:
  "fmul (Num (Fin (5072854620270127 / 4611686018427387904))) (Num (Fin 1000))
    = Num (Fin (2476979795053773 / 2251799813685248))"
proof -
  have "round64 ((5072854620270127 / 4611686018427387904) * 1000)
    = Fin (of_int 4953959590107546 * two_to (0 - 52))"
    by (rule round64_near) (simp_all add: two_to_def)
  then show ?thesis by (simp add: mul_num_def two_to_def)
qed

lemma hour_1:
  "fmul (Num (Fin 1)) (Num (Fin 3600)) = Num (Fin 3600)"
proof -
  have "round64 (1 * 3600) = Fin (of_int 7916483719987200 * two_to (11 - 52))"
    by (rule round64_near) (simp_all add: two_to_def)
  then show ?thesis by (simp add: mul_num_def two_to_def)
qed

lemma quotient_1:
  "fdiv (Num (Fin 36)) (Num (Fin 3600)) = Num (Fin (5764607523034235 / 576460752303423488))"
proof -
  have "round64 (36 / 3600) = Fin (of_int 5764607523034235 * two_to (-7 - 52))"
    by (rule round64_near) (simp_all add: two_to_def)
  then show ?thesis by (simp add: div_num_def two_to_def)
qed

lemma overhead_1:
  "fmul (Num (Fin (5764607523034235 / 576460752303423488)))
       (Num (Fin (2476979795053773 / 2251799813685248)))
    = Num (Fin (6341068275337659 / 576460752303423488))"
proof -
  have "round64 ((5764607523034235 / 576460752303423488) * (2476979795053773 / 2251799813685248))
    = Fin (of_int 6341068275337659 * two_to (-7 - 52))"
    by (rule round64_near) (simp_all add: two_to_def)
  then show ?thesis by (simp add: mul_num_def two_to_def)
qed

lemma per_1k_1:
  "fmul (Num (Fin (6341068275337659 / 576460752303423488))) (Num (Fin 1000))
    = Num (Fin (6192449487634433 / 562949953421312))"
proof -
  have "round64 ((6341068275337659 / 576460752303423488) * 1000)
    = Fin (of_int 6192449487634433 * two_to (3 - 52))"
    by (rule round64_near) (simp_all add: two_to_def)
  then show ?thesis by (simp add: mul_num_def two_to_def)
qed


lemma cost_at_10: "cost_formula (Num (Fin 36)) (nearest (11 / 10)) (Num (Fin 10)) = nearest (11 / 10)"
  by (simp only: cost_formula_def nearest_11_10 hour_10 quotient_10 overhead_10 per_1k_10)

lemma cost_at_1:
  "cost_formula (Num (Fin 36)) (nearest (11 / 10)) (Num (Fin 1))
     = Num (Fin (6192449487634433 / 562949953421312))"
  by (simp only: cost_formula_def nearest_11_10 hour_1 quotient_1 overhead_1 per_1k_1)

lemma tiny_hour:
  "fmul (Num (Fin (two_to (- 1060)))) (Num (Fin 3600)) = Num (Fin (two_to (- 1060) * 3600))"
proof -
  have "round64 (two_to (- 1060) * 3600) = Fin (two_to (- 1060) * 3600)"
    by (rule round64_exact [where e = "- 1022" and m = "3600 * 2 ^ 14"])
      (simp_all add: two_to_def)
  then show ?thesis by (simp add: mul_num_def)
qed

lemma tiny_quotient:
  "fdiv (Num (Fin 3600)) (Num (Fin (two_to (- 1060) * 3600))) = Num PInf"
proof -
  have "round64 (3600 / (two_to (- 1060) * 3600)) = PInf"
    by (rule round64_overflow) (simp add: two_to_def)
  moreover have "two_to (- 1060) * 3600 \<noteq> 0" by (simp add: two_to_def)
  ultimately show ?thesis by (simp add: div_num_def)
qed

lemma cost_at_tiny:
  "cost_formula (Num (Fin 3600)) (Num (Fin 1)) (Num (Fin (two_to (- 1060)))) = Num PInf"
proof -
  have "fmul (Num PInf) (Num (Fin 1)) = Num PInf" by (rule fmul_pinf) simp
  moreover have "fmul (Num PInf) (Num (Fin 1000)) = Num PInf" by (rule fmul_pinf) simp
  ultimately show ?thesis by (simp only: cost_formula_def tiny_hour tiny_quotient)
qed

lemma huge_hour:
  "fmul (Num (Fin (two_to 1020))) (Num (Fin 3600)) = Num PInf"
proof -
  have "round64 (two_to 1020 * 3600) = PInf"
    by (rule round64_overflow) (simp add: two_to_def)
  then show ?thesis by (simp add: mul_num_def)
qed

lemma cost_at_huge:
  "cost_formula (Num (Fin 3600)) (Num (Fin 1)) (Num (Fin (two_to 1020))) = Num (Fin 0)"
  by (simp only: cost_formula_def huge_hour fdiv_pinf fmul_zero)

section \<open>Properties of the cost engine\<close>

lemma calc_clusters_other:
  "n \<noteq> name \<Longrightarrow> Engine.clusters (snd (CalculateCostPer1KTokens e name tps now)) n = Engine.clusters e n"
  by (simp add: CalculateCostPer1KTokens_def Let_def split: option.splits)

lemma calc_ok:
  assumes "Engine.clusters e name = Some c" "\<not> fle tps (Num (Fin 0))"
  shows "CalculateCostPer1KTokens e name tps now =
     (cost_formula (ClusterCost.CostPerHour c) (overheadFactor e) tps,
      e \<lparr> Engine.clusters := (Engine.clusters e)(name \<mapsto>
            c \<lparr> LastTokensPerSec := tps, LastUpdate := now,
                HistoricalCosts :=
                  (let h = HistoricalCosts c @ [cost_formula (ClusterCost.CostPerHour c) (overheadFactor e) tps]
                   in if length h > 100 then drop 1 h else h) \<rparr>) \<rparr>)"
  using assms by (simp add: CalculateCostPer1KTokens_def cost_formula_def Let_def)

lemma calc_none:
  "fle tps (Num (Fin 0)) \<or> Engine.clusters e name = None \<Longrightarrow>
     CalculateCostPer1KTokens e name tps now = (Num PInf, e)"
  by (auto simp: CalculateCostPer1KTokens_def split: option.splits)

lemma calculate_not_nan:
  assumes "Engine.clusters e name = Some c" "ClusterCost.CostPerHour c = Num (Fin cph)"
    and "overheadFactor e = Num (Fin f)" "f \<noteq> 0" "t \<le> 0 \<or> two_to (- 1074) \<le> t"
  shows "fst (CalculateCostPer1KTokens e name (Num (Fin t)) now) \<noteq> NaN"
proof (cases "t \<le> 0")
  case True
  then show ?thesis by (simp add: calc_none)
next
  case False
  with assms(5) have t: "two_to (- 1074) \<le> t" by simp
  from False have "\<not> fle (Num (Fin t)) (Num (Fin 0))" by simp
  from calc_ok [OF assms(1) this, of now] cost_formula_not_nan [OF assms(4) t, of cph]
  show ?thesis by (simp add: assms(2,3))
qed

lemma calc_history_length:
  assumes "Engine.clusters e name = Some c" "length (HistoricalCosts c) \<le> 100"
    and "Engine.clusters (snd (CalculateCostPer1KTokens e name tps now)) name = Some c'"
  shows "length (HistoricalCosts c') \<le> 100"
proof (cases "fle tps (Num (Fin 0))")
  case True
  with assms show ?thesis by (simp add: calc_none)
next
  case False
  from calc_ok [OF assms(1) False, of now] assms(3)
  have "HistoricalCosts c' =
     (let h = HistoricalCosts c @ [cost_formula (ClusterCost.CostPerHour c) (overheadFactor e) tps]
      in if length h > 100 then drop 1 h else h)"
    by auto
  with assms(2) show ?thesis by (simp add: Let_def split: if_splits)
qed

lemma step_bounded: "history_bounded e \<Longrightarrow> history_bounded (engine_step e call)"
proof (cases call)
  case (CallAddCluster name cph)
  assume "history_bounded e"
  then show ?thesis using CallAddCluster by (auto simp: history_bounded_def AddCluster_def)
next
  case (CallCalculate name tps now)
  assume b: "history_bounded e"
  show ?thesis unfolding history_bounded_def
  proof (intro allI impI)
    fix n c' assume h: "Engine.clusters (engine_step e call) n = Some c'"
    show "length (HistoricalCosts c') \<le> 100"
    proof (cases "n = name")
      case False
      with h CallCalculate b show ?thesis by (simp add: calc_clusters_other history_bounded_def)
    next
      case True
      show ?thesis
      proof (cases "Engine.clusters e name")
        case None
        with h True CallCalculate show ?thesis by (simp add: calc_none)
      next
        case (Some c)
        with b have "length (HistoricalCosts c) \<le> 100" by (simp add: history_bounded_def)
        with Some h True CallCalculate show ?thesis
          using calc_history_length [of e name c tps now c'] by simp
      qed
    qed
  qed
next
  case (CallUpdateClusterCost name cph)
  assume "history_bounded e"
  then show ?thesis using CallUpdateClusterCost
    by (auto simp: history_bounded_def UpdateClusterCost_def split: option.splits if_splits)
qed

lemma foldl_bounded: "history_bounded e \<Longrightarrow> history_bounded (foldl engine_step e calls)"
  by (induction calls arbitrary: e) (simp_all add: step_bounded)

lemma run_bounded: "history_bounded (engine_run f calls)"
  unfolding engine_run_def by (rule foldl_bounded) (simp add: history_bounded_def NewEngine_def)

lemma keep_last:
  assumes "length h \<le> 100"
  shows "drop (length ((if length (h @ [v]) > 100 then drop 1 (h @ [v]) else h @ [v]) @ vs) - 100)
           ((if length (h @ [v]) > 100 then drop 1 (h @ [v]) else h @ [v]) @ vs)
       = drop (length (h @ v # vs) - 100) (h @ v # vs)"
proof (cases "length h = 100")
  case True
  then obtain x t where h: "h = x # t" by (cases h) auto
  with True have lt: "length t = 99" by simp
  show ?thesis using True h lt by (simp add: Suc_diff_le)
next
  case False
  with assms have "length h < 100" by simp
  then show ?thesis by simp
qed

lemma calculate_all_history:
  assumes "Engine.clusters e name = Some c" "length (HistoricalCosts c) \<le> 100"
    and "\<forall>s \<in> set samples. \<not> fle (fst s) (Num (Fin 0))"
  shows "fst (calculate_all e name samples)
           = map (\<lambda>s. (cost_formula (ClusterCost.CostPerHour c) (overheadFactor e) (fst s))) samples
       \<and> history (snd (calculate_all e name samples)) name
           = (let all = HistoricalCosts c
                        @ map (\<lambda>s. cost_formula (ClusterCost.CostPerHour c) (overheadFactor e) (fst s)) samples
              in drop (length all - 100) all)"
  using assms
proof (induction samples arbitrary: e c)
  case Nil
  then show ?case by (simp add: history_def)
next
  case (Cons s rest)
  obtain tps now where s: "s = (tps, now)" by (cases s)
  from Cons.prems s have pos: "\<not> fle tps (Num (Fin 0))" by simp
  let ?v = "cost_formula (ClusterCost.CostPerHour c) (overheadFactor e) tps"
  let ?k = "(if length (HistoricalCosts c @ [?v]) > 100 then drop 1 (HistoricalCosts c @ [?v])
             else HistoricalCosts c @ [?v])"
  let ?c1 = "c \<lparr> LastTokensPerSec := tps, LastUpdate := now, HistoricalCosts := ?k \<rparr>"
  let ?e1 = "e \<lparr> Engine.clusters := (Engine.clusters e)(name \<mapsto> ?c1) \<rparr>"
  have step: "CalculateCostPer1KTokens e name tps now = (?v, ?e1)"
    using calc_ok [OF Cons.prems(1) pos, of now] by (simp add: Let_def)
  have c1: "Engine.clusters ?e1 name = Some ?c1" by simp
  have len: "length (HistoricalCosts ?c1) \<le> 100"
    using Cons.prems(2) by (cases "HistoricalCosts c") auto
  have rest: "\<forall>s \<in> set rest. \<not> fle (fst s) (Num (Fin 0))" using Cons.prems(3) by simp
  note IH = Cons.IH [OF c1 len rest]
  have same: "ClusterCost.CostPerHour ?c1 = ClusterCost.CostPerHour c" "overheadFactor ?e1 = overheadFactor e"
    "HistoricalCosts ?c1 = ?k" by simp_all
  show ?case
    using IH keep_last [OF Cons.prems(2), of ?v
        "map (\<lambda>s. cost_formula (ClusterCost.CostPerHour c) (overheadFactor e) (fst s)) rest"]
    unfolding s same
    by (simp add: step Let_def split_beta)
qed

text \<open>
  C2. For a registered cluster and a throughput greater than 0, \<open>CalculateCostPer1KTokens\<close>
  returns \<open>(costPerHour / (tokensPerSecond * 3600)) * overheadFactor * 1000\<close> as Go computes
  it in \<open>float64\<close>, every operation rounded to the nearest value; for a throughput that is
  zero or negative, or a cluster that is not registered, it returns +Inf and the engine
  (the tracking state) is unchanged.
\<close>

theorem C2_cost_per_1k:
  "(Engine.clusters e name = Some c \<and> flt (Num (Fin 0)) tps \<longrightarrow>
      fst (CalculateCostPer1KTokens e name tps now)
        = fmul (fmul (fdiv (ClusterCost.CostPerHour c) (fmul tps (Num (Fin 3600))))
                     (overheadFactor e))
               (Num (Fin 1000)))
   \<and> (fle tps (Num (Fin 0)) \<or> Engine.clusters e name = None \<longrightarrow>
      CalculateCostPer1KTokens e name tps now = (Num PInf, e))"
proof (intro conjI impI)
  assume a: "Engine.clusters e name = Some c \<and> flt (Num (Fin 0)) tps"
  then have "\<not> fle tps (Num (Fin 0))" by (simp add: flt_not_fle)
  with a show "fst (CalculateCostPer1KTokens e name tps now)
        = fmul (fmul (fdiv (ClusterCost.CostPerHour c) (fmul tps (Num (Fin 3600))))
                     (overheadFactor e))
               (Num (Fin 1000))"
    by (simp add: calc_ok cost_formula_def)
next
  assume "fle tps (Num (Fin 0)) \<or> Engine.clusters e name = None"
  then show "CalculateCostPer1KTokens e name tps now = (Num PInf, e)"
    by (rule calc_none)
qed

text \<open>
  At cost 36, factor 1.1 and throughput 1 the result is 11.000000000000002; at cost 3600,
  factor 1 and throughput \<open>2^-1060\<close> it is +Inf, which is appended to the history; at
  throughput \<open>2^1020\<close> it is 0.
\<close>

theorem C2_witness:
  "fst (CalculateCostPer1KTokens (AddCluster (NewEngine (nearest (11 / 10))) ''a'' (Num (Fin 36)))
          ''a'' (Num (Fin 1)) 5)
     = Num (Fin (6192449487634433 / 562949953421312))
   \<and> fst (CalculateCostPer1KTokens (AddCluster (NewEngine (Num (Fin 1))) ''a'' (Num (Fin 3600)))
          ''a'' (Num (Fin (two_to (- 1060)))) 5)
     = Num PInf
   \<and> history (snd (CalculateCostPer1KTokens (AddCluster (NewEngine (Num (Fin 1))) ''a'' (Num (Fin 3600)))
          ''a'' (Num (Fin (two_to (- 1060)))) 5)) ''a''
     = [Num PInf]
   \<and> fst (CalculateCostPer1KTokens (AddCluster (NewEngine (Num (Fin 1))) ''a'' (Num (Fin 3600)))
          ''a'' (Num (Fin (two_to 1020))) 5)
     = Num (Fin 0)
   \<and> CalculateCostPer1KTokens (AddCluster (NewEngine (nearest (11 / 10))) ''a'' (Num (Fin 36)))
          ''a'' (Num (Fin 0)) 5
     = (Num PInf, AddCluster (NewEngine (nearest (11 / 10))) ''a'' (Num (Fin 36)))
   \<and> CalculateCostPer1KTokens (AddCluster (NewEngine (nearest (11 / 10))) ''a'' (Num (Fin 36)))
          ''b'' (Num (Fin 1)) 5
     = (Num PInf, AddCluster (NewEngine (nearest (11 / 10))) ''a'' (Num (Fin 36)))"
proof -
  let ?e = "AddCluster (NewEngine (nearest (11 / 10))) ''a'' (Num (Fin 36))"
  let ?c = "\<lparr> ClusterCost.CostPerHour = Num (Fin 36), LastTokensPerSec = Num (Fin 0),
              LastUpdate = 0, HistoricalCosts = [] \<rparr>"
  let ?e1 = "AddCluster (NewEngine (Num (Fin 1))) ''a'' (Num (Fin 3600))"
  let ?c1 = "\<lparr> ClusterCost.CostPerHour = Num (Fin 3600), LastTokensPerSec = Num (Fin 0),
               LastUpdate = 0, HistoricalCosts = [] \<rparr>"
  have reg: "Engine.clusters ?e ''a'' = Some ?c" "Engine.clusters ?e ''b'' = None"
    "overheadFactor ?e = nearest (11 / 10)"
    by (simp_all add: AddCluster_def NewEngine_def)
  have reg1: "Engine.clusters ?e1 ''a'' = Some ?c1" "overheadFactor ?e1 = Num (Fin 1)"
    by (simp_all add: AddCluster_def NewEngine_def)
  have tiny: "flt (Num (Fin 0)) (Num (Fin (two_to (- 1060))))" by (simp add: two_to_pos)
  have huge: "flt (Num (Fin 0)) (Num (Fin (two_to 1020)))" by (simp add: two_to_pos)
  have first: "fst (CalculateCostPer1KTokens ?e ''a'' (Num (Fin 1)) 5)
      = Num (Fin (6192449487634433 / 562949953421312))"
    using C2_cost_per_1k [of ?e "''a''" ?c "Num (Fin 1)" 5] reg cost_at_1
    by (simp add: cost_formula_def)
  have second: "fst (CalculateCostPer1KTokens ?e1 ''a'' (Num (Fin (two_to (- 1060)))) 5) = Num PInf"
    using C2_cost_per_1k [of ?e1 "''a''" ?c1 "Num (Fin (two_to (- 1060)))" 5] reg1 tiny cost_at_tiny
    by (simp add: cost_formula_def)
  have "\<not> fle (Num (Fin (two_to (- 1060)))) (Num (Fin 0))" using tiny by (rule flt_not_fle)
  from calc_ok [OF reg1(1) this, of 5]
  have third: "history (snd (CalculateCostPer1KTokens ?e1 ''a'' (Num (Fin (two_to (- 1060)))) 5)) ''a''
      = [Num PInf]"
    by (simp add: history_def reg1 cost_at_tiny)
  have fourth: "fst (CalculateCostPer1KTokens ?e1 ''a'' (Num (Fin (two_to 1020))) 5) = Num (Fin 0)"
    using C2_cost_per_1k [of ?e1 "''a''" ?c1 "Num (Fin (two_to 1020))" 5] reg1 huge cost_at_huge
    by (simp add: cost_formula_def)
  have fifth: "CalculateCostPer1KTokens ?e ''a'' (Num (Fin 0)) 5 = (Num PInf, ?e)"
    using C2_cost_per_1k [of ?e "''a''" ?c "Num (Fin 0)" 5] by simp
  have sixth: "CalculateCostPer1KTokens ?e ''b'' (Num (Fin 1)) 5 = (Num PInf, ?e)"
    using C2_cost_per_1k [of ?e "''b''" ?c "Num (Fin 1)" 5] reg(2) by simp
  from first second third fourth fifth sixth show ?thesis by simp
qed

lemma step_factor: "overheadFactor (engine_step e call) = overheadFactor e"
  by (cases call)
    (simp_all add: AddCluster_def CalculateCostPer1KTokens_def UpdateClusterCost_def Let_def
      split: option.splits)

lemma foldl_factor: "overheadFactor (foldl engine_step e calls) = overheadFactor e"
  by (induction calls arbitrary: e) (simp_all add: step_factor)

lemma run_factor: "overheadFactor (engine_run f calls) = f"
  by (simp add: engine_run_def foldl_factor NewEngine_def)

text \<open>
  C5. In every engine reached from \<open>NewEngine\<close> by any calls, no cluster's
  \<open>HistoricalCosts\<close> holds more than 100 entries; a series of cost computations for a
  cluster leaves the last 100 of the old entries followed by the new costs, in the order of
  insertion (the oldest are dropped first); after 101 computations for a cluster with no
  history, the buffer is the last 100 computed costs, in order. The throughputs are any that
  pass the guard of the computation.
\<close>

theorem C5_history_bounded_fifo:
  "(Engine.clusters (engine_run f calls) name = Some c \<longrightarrow> length (HistoricalCosts c) \<le> 100)
   \<and> (Engine.clusters (engine_run f calls) name = Some c
        \<and> (\<forall>s \<in> set samples. \<not> fle (fst s) (Num (Fin 0))) \<longrightarrow>
        fst (calculate_all (engine_run f calls) name samples)
          = map (\<lambda>s. cost_formula (ClusterCost.CostPerHour c) f (fst s)) samples
      \<and> history (snd (calculate_all (engine_run f calls) name samples)) name
          = (let all = HistoricalCosts c @ map (\<lambda>s. cost_formula (ClusterCost.CostPerHour c) f (fst s)) samples
             in drop (length all - 100) all))
   \<and> (Engine.clusters (engine_run f calls) name = Some c \<and> HistoricalCosts c = []
        \<and> (\<forall>s \<in> set samples. \<not> fle (fst s) (Num (Fin 0))) \<and> length samples = 101 \<longrightarrow>
        history (snd (calculate_all (engine_run f calls) name samples)) name
          = drop 1 (map (\<lambda>s. cost_formula (ClusterCost.CostPerHour c) f (fst s)) samples))"
proof (intro conjI impI)
  assume "Engine.clusters (engine_run f calls) name = Some c"
  then show "length (HistoricalCosts c) \<le> 100"
    using run_bounded [of f calls] unfolding history_bounded_def by blast
next
  assume a: "Engine.clusters (engine_run f calls) name = Some c
        \<and> (\<forall>s \<in> set samples. \<not> fle (fst s) (Num (Fin 0)))"
  then have len: "length (HistoricalCosts c) \<le> 100"
    using run_bounded [of f calls] unfolding history_bounded_def by blast
  from a calculate_all_history [of "engine_run f calls" name c samples] len
  show "fst (calculate_all (engine_run f calls) name samples)
          = map (\<lambda>s. cost_formula (ClusterCost.CostPerHour c) f (fst s)) samples"
    and "history (snd (calculate_all (engine_run f calls) name samples)) name
          = (let all = HistoricalCosts c @ map (\<lambda>s. cost_formula (ClusterCost.CostPerHour c) f (fst s)) samples
             in drop (length all - 100) all)"
    by (simp_all add: run_factor)
next
  assume a: "Engine.clusters (engine_run f calls) name = Some c \<and> HistoricalCosts c = []
        \<and> (\<forall>s \<in> set samples. \<not> fle (fst s) (Num (Fin 0))) \<and> length samples = 101"
  from a calculate_all_history [of "engine_run f calls" name c samples]
  show "history (snd (calculate_all (engine_run f calls) name samples)) name
          = drop 1 (map (\<lambda>s. cost_formula (ClusterCost.CostPerHour c) f (fst s)) samples)"
    by (simp add: run_factor Let_def)
qed

theorem C5_witness:
  "Engine.clusters (engine_run (nearest (11 / 10)) [CallAddCluster ''a'' (Num (Fin 36))]) ''a''
      = Some \<lparr> ClusterCost.CostPerHour = Num (Fin 36), LastTokensPerSec = Num (Fin 0),
               LastUpdate = 0, HistoricalCosts = [] \<rparr>
   \<and> length (map (\<lambda>i. (Num (Fin (real i + 1)), int i)) [0..<101]) = 101
   \<and> history (snd (calculate_all (engine_run (nearest (11 / 10)) [CallAddCluster ''a'' (Num (Fin 36))])
                     ''a'' (map (\<lambda>i. (Num (Fin (real i + 1)), int i)) [0..<101]))) ''a''
        = map (\<lambda>i. cost_formula (Num (Fin 36)) (nearest (11 / 10)) (Num (Fin (real i + 1)))) [1..<101]"
proof -
  let ?c = "\<lparr> ClusterCost.CostPerHour = Num (Fin 36), LastTokensPerSec = Num (Fin 0),
              LastUpdate = 0, HistoricalCosts = [] \<rparr>"
  have reg: "Engine.clusters (engine_run (nearest (11 / 10)) [CallAddCluster ''a'' (Num (Fin 36))]) ''a''
      = Some ?c"
    by (simp add: engine_run_def NewEngine_def AddCluster_def)
  have pos: "\<forall>s \<in> set (map (\<lambda>i. (Num (Fin (real i + 1)), int i)) [0..<101]).
      \<not> fle (fst s) (Num (Fin 0))"
    by auto
  have d: "drop 1 (map (\<lambda>s. cost_formula (Num (Fin 36)) (nearest (11 / 10)) (fst s))
                    (map (\<lambda>i. (Num (Fin (real i + 1)), int i)) [0..<101]))
      = map (\<lambda>i. cost_formula (Num (Fin 36)) (nearest (11 / 10)) (Num (Fin (real i + 1)))) [1..<101]"
    by (simp add: drop_map o_def)
  show ?thesis
    using C5_history_bounded_fifo [of "nearest (11 / 10)" "[CallAddCluster ''a'' (Num (Fin 36))]" "''a''"
        ?c "map (\<lambda>i. (Num (Fin (real i + 1)), int i)) [0..<101]"] reg pos d
    by simp
qed

section \<open>Properties of the health checker\<close>

lemma after_last_snoc:
  "after_last P (xs @ [x]) = (if P x then [] else after_last P xs @ [x])"
  by (simp add: after_last_def)

lemma after_last_Nil: "after_last P [] = []"
  by (simp add: after_last_def)

lemma sle3: "k < 3 \<Longrightarrow> ((3::go_int) \<le>s of_nat k + 1) = (k = 2)"
proof -
  assume "k < 3"
  then consider "k = 0" | "k = 1" | "k = 2" by linarith
  then show ?thesis by cases (simp_all add: word_sle_eq)
qed

lemma since_snoc:
  "since_registration n (calls @ [x]) =
     (if registers n x then [] else since_registration n calls @ [x])"
  by (simp add: since_registration_def after_last_snoc)

lemma raised_snoc:
  "since_raised n (calls @ [x]) =
     (if registers n x \<or> raises n x then [] else since_raised n calls @ [x])"
  by (simp add: since_raised_def since_snoc after_last_snoc after_last_Nil)

lemma expected_snoc:
  "expected_healthy n (calls @ [x]) =
     (if registers n x then False
      else if raises n x then True
      else if marks n x then False
      else if fails n x then expected_healthy n calls \<and> failures_since_raised n calls < 2
      else expected_healthy n calls)"
  by (cases x)
     (auto simp: expected_healthy_def failures_since_raised_def since_snoc raised_snoc
        raises_def after_last_Nil list_ex_iff)

lemma failures_snoc:
  "failures_since_raised n (calls @ [x]) =
     (if registers n x \<or> raises n x then 0
      else if fails n x then failures_since_raised n calls + 1
      else failures_since_raised n calls)"
  by (simp add: failures_since_raised_def raised_snoc)

lemma health_inv_step:
  assumes "health_inv calls c"
  shows "health_inv (calls @ [x]) (checker_step c x)"
proof (cases x)
  case (Register name endpoint now)
  with assms show ?thesis
    by (auto simp: health_inv_def checker_AddCluster_def expected_snoc failures_snoc raises_def)
next
  case (Check name probe responseTime now)
  obtain h q t l where p: "probe = (h, q, t, l)" by (cases probe)
  show ?thesis
  proof (cases "Checker.clusters c name")
    case None
    with assms Check show ?thesis
      by (auto simp: health_inv_def checkCluster_def expected_snoc failures_snoc raises_def)
  next
    case (Some m)
    show ?thesis
    proof (cases h)
      case True
      with assms Check Some p show ?thesis
        by (auto simp: health_inv_def checkCluster_def expected_snoc failures_snoc raises_def)
    next
      case False
      from assms Some have hm: "Healthy m = expected_healthy name calls"
        and cm: "Healthy m \<Longrightarrow> ConsecutiveError m = of_nat (failures_since_raised name calls)"
        and mx: "maxConsecutiveErrors c = 3"
        by (auto simp: health_inv_def)
      have lt: "expected_healthy name calls \<Longrightarrow> failures_since_raised name calls < 3"
        by (simp add: expected_healthy_def)
      show ?thesis
      proof (cases "Healthy m")
        case True
        with hm lt have k: "failures_since_raised name calls < 3" by simp
        from True cm have ce: "ConsecutiveError m = of_nat (failures_since_raised name calls)" by simp
        from assms Check Some p False True hm k ce mx show ?thesis
          by (auto simp: health_inv_def checkCluster_def expected_snoc failures_snoc raises_def Let_def sle3)
      next
        case F: False
        from assms Check Some p False F hm mx show ?thesis
          by (auto simp: health_inv_def checkCluster_def expected_snoc failures_snoc raises_def Let_def)
      qed
    qed
  qed
next
  case (Mark name reason)
  with assms show ?thesis
    by (auto simp: health_inv_def MarkUnhealthy_def expected_snoc failures_snoc raises_def
        split: option.splits)
next
  case (Force name)
  with assms show ?thesis
    by (auto simp: health_inv_def ForceHealthy_def expected_snoc failures_snoc raises_def
        split: option.splits)
qed

lemma health_inv_foldl: "health_inv calls c \<Longrightarrow> health_inv (calls @ rest) (foldl checker_step c rest)"
proof (induction rest arbitrary: calls c)
  case Nil
  then show ?case by simp
next
  case (Cons x rest)
  from Cons.IH [OF health_inv_step [OF Cons.prems, of x]] show ?case by simp
qed

lemma health_inv_run: "health_inv calls (checker_run i calls)"
  using health_inv_foldl [of "[]" "NewChecker i" calls]
  by (simp add: checker_run_def health_inv_def NewChecker_def)

text \<open>
  C3. In every checker reached from \<open>NewChecker\<close>: a failed check of a registered cluster
  adds one to \<open>ErrorCount\<close> and to \<open>ConsecutiveError\<close>, never makes the cluster healthy,
  and turns a healthy cluster unhealthy exactly when the incremented \<open>ConsecutiveError\<close>
  is 3; a successful check sets \<open>Healthy\<close> and resets \<open>ConsecutiveError\<close> to 0 whatever
  the state was. A cluster is healthy exactly when, since it was registered, a check has
  succeeded or \<open>ForceHealthy\<close> was called, and since the last of these there was no
  \<open>MarkUnhealthy\<close> and fewer than 3 failed checks. So an unhealthy cluster that was raised
  and not marked since has had at least 3 failed checks since.
\<close>

theorem C3_health_hysteresis:
  "(Checker.clusters (checker_run i calls) n = Some m
      \<and> Checker.clusters (checkCluster (checker_run i calls) n (False, q, t, l) rt now) n = Some m'
    \<longrightarrow> ErrorCount m' = ErrorCount m + 1
      \<and> ConsecutiveError m' = ConsecutiveError m + 1
      \<and> (Healthy m' \<longrightarrow> Healthy m)
      \<and> (Healthy m \<longrightarrow> (\<not> Healthy m') = (ConsecutiveError m' = 3)))
   \<and> (Checker.clusters (checker_run i calls) n = Some m
      \<and> Checker.clusters (checkCluster (checker_run i calls) n (True, q, t, l) rt now) n = Some m'
    \<longrightarrow> Healthy m' \<and> ConsecutiveError m' = 0)
   \<and> (Checker.clusters (checker_run i calls) n = Some m
    \<longrightarrow> Healthy m = expected_healthy n calls
      \<and> (\<not> Healthy m \<and> list_ex (raises n) (since_registration n calls)
           \<and> \<not> list_ex (marks n) (since_raised n calls)
          \<longrightarrow> 3 \<le> failures_since_raised n calls))"
proof (intro conjI impI)
  assume a: "Checker.clusters (checker_run i calls) n = Some m
      \<and> Checker.clusters (checkCluster (checker_run i calls) n (False, q, t, l) rt now) n = Some m'"
  let ?c = "checker_run i calls"
  have mx: "maxConsecutiveErrors ?c = 3"
    using health_inv_run [of calls i] by (simp add: health_inv_def)
  from a have a1: "Checker.clusters (checker_run i calls) n = Some m"
    and a2: "Checker.clusters (checkCluster (checker_run i calls) n (False, q, t, l) rt now) n = Some m'"
    by simp_all
  from a2 have m': "m' = (let counted = m \<lparr> LastCheck := now, ResponseTime := rt, ClusterMetrics.LatencyP95 := l,
                              ClusterMetrics.QueueDepth := q, TokensPerSecond := t,
                              ErrorCount := ErrorCount m + 1,
                              ConsecutiveError := ConsecutiveError m + 1 \<rparr>
                     in if 3 \<le>s ConsecutiveError counted then counted \<lparr> Healthy := False \<rparr>
                        else counted)"
    by (auto simp: checkCluster_def Let_def mx a1)
  show "ErrorCount m' = ErrorCount m + 1" by (simp add: m' Let_def)
  show "ConsecutiveError m' = ConsecutiveError m + 1" by (simp add: m' Let_def)
  show "Healthy m" if "Healthy m'" using that by (simp add: m' Let_def split: if_splits)
  show "(\<not> Healthy m') = (ConsecutiveError m' = 3)" if h: "Healthy m"
  proof -
    from a1 h health_inv_run [of calls i]
    have e: "expected_healthy n calls"
      and c: "ConsecutiveError m = of_nat (failures_since_raised n calls)"
      by (auto simp: health_inv_def)
    from e have "failures_since_raised n calls < 3" by (simp add: expected_healthy_def)
    then consider "failures_since_raised n calls = 0" | "failures_since_raised n calls = 1"
      | "failures_since_raised n calls = 2" by linarith
    then show ?thesis
      by cases (simp_all add: m' Let_def c h word_sle_eq)
  qed
next
  assume a: "Checker.clusters (checker_run i calls) n = Some m
      \<and> Checker.clusters (checkCluster (checker_run i calls) n (True, q, t, l) rt now) n = Some m'"
  then show "Healthy m'" and "ConsecutiveError m' = 0"
    by (auto simp: checkCluster_def Let_def)
next
  assume a: "Checker.clusters (checker_run i calls) n = Some m"
  with health_inv_run [of calls i] show e: "Healthy m = expected_healthy n calls"
    by (simp add: health_inv_def)
  assume "\<not> Healthy m \<and> list_ex (raises n) (since_registration n calls)
           \<and> \<not> list_ex (marks n) (since_raised n calls)"
  with e show "3 \<le> failures_since_raised n calls"
    by (auto simp: expected_healthy_def)
qed

theorem C3_witness:
  "Checker.clusters (checker_run 30 [Register ''a'' ''http://a'' 0, Check ''a'' (True, 0, 10, 1000) 5 1,
        Check ''a'' (False, 0, 0, 0) 5 2, Check ''a'' (False, 0, 0, 0) 5 3]) ''a''
     = Some \<lparr> Healthy = True, LastCheck = 3, ResponseTime = 5, ClusterMetrics.LatencyP95 = 0, ClusterMetrics.QueueDepth = 0,
              TokensPerSecond = 0, ErrorCount = 2, ConsecutiveError = 2, ClusterMetrics.Endpoint = ''http://a'' \<rparr>
   \<and> Checker.clusters (checkCluster (checker_run 30 [Register ''a'' ''http://a'' 0,
        Check ''a'' (True, 0, 10, 1000) 5 1, Check ''a'' (False, 0, 0, 0) 5 2,
        Check ''a'' (False, 0, 0, 0) 5 3]) ''a'' (False, 0, 0, 0) 5 4) ''a''
     = Some \<lparr> Healthy = False, LastCheck = 4, ResponseTime = 5, ClusterMetrics.LatencyP95 = 0, ClusterMetrics.QueueDepth = 0,
              TokensPerSecond = 0, ErrorCount = 3, ConsecutiveError = 3, ClusterMetrics.Endpoint = ''http://a'' \<rparr>
   \<and> Checker.clusters (checkCluster (checker_run 30 [Register ''a'' ''http://a'' 0,
        Check ''a'' (True, 0, 10, 1000) 5 1, Check ''a'' (False, 0, 0, 0) 5 2,
        Check ''a'' (False, 0, 0, 0) 5 3, Check ''a'' (False, 0, 0, 0) 5 4]) ''a'' (True, 2, 20, 300) 6 5) ''a''
     = Some \<lparr> Healthy = True, LastCheck = 5, ResponseTime = 6, ClusterMetrics.LatencyP95 = 300, ClusterMetrics.QueueDepth = 2,
              TokensPerSecond = 20, ErrorCount = 3, ConsecutiveError = 0, ClusterMetrics.Endpoint = ''http://a'' \<rparr>
   \<and> expected_healthy ''a'' [Register ''a'' ''http://a'' 0, Check ''a'' (True, 0, 10, 1000) 5 1,
        Check ''a'' (False, 0, 0, 0) 5 2, Check ''a'' (False, 0, 0, 0) 5 3]
   \<and> 3 \<le> failures_since_raised ''a'' [Register ''a'' ''http://a'' 0,
        Check ''a'' (True, 0, 10, 1000) 5 1, Check ''a'' (False, 0, 0, 0) 5 2,
        Check ''a'' (False, 0, 0, 0) 5 3, Check ''a'' (False, 0, 0, 0) 5 4]"
  using C3_health_hysteresis [where i = 30 and n = "''a''" and q = 0 and t = 0 and l = 0
      and rt = 5 and now = 4
      and calls = "[Register ''a'' ''http://a'' 0, Check ''a'' (True, 0, 10, 1000) 5 1,
        Check ''a'' (False, 0, 0, 0) 5 2, Check ''a'' (False, 0, 0, 0) 5 3]"
      and m = "\<lparr> Healthy = True, LastCheck = 3, ResponseTime = 5, ClusterMetrics.LatencyP95 = 0, ClusterMetrics.QueueDepth = 0,
              TokensPerSecond = 0, ErrorCount = 2, ConsecutiveError = 2, ClusterMetrics.Endpoint = ''http://a'' \<rparr>"
      and m' = "\<lparr> Healthy = False, LastCheck = 4, ResponseTime = 5, ClusterMetrics.LatencyP95 = 0, ClusterMetrics.QueueDepth = 0,
              TokensPerSecond = 0, ErrorCount = 3, ConsecutiveError = 3, ClusterMetrics.Endpoint = ''http://a'' \<rparr>"]
    C3_health_hysteresis [where i = 30 and n = "''a''" and q = 2 and t = 20 and l = 300
      and rt = 6 and now = 5
      and calls = "[Register ''a'' ''http://a'' 0, Check ''a'' (True, 0, 10, 1000) 5 1,
        Check ''a'' (False, 0, 0, 0) 5 2, Check ''a'' (False, 0, 0, 0) 5 3,
        Check ''a'' (False, 0, 0, 0) 5 4]"
      and m = "\<lparr> Healthy = False, LastCheck = 4, ResponseTime = 5, ClusterMetrics.LatencyP95 = 0, ClusterMetrics.QueueDepth = 0,
              TokensPerSecond = 0, ErrorCount = 3, ConsecutiveError = 3, ClusterMetrics.Endpoint = ''http://a'' \<rparr>"
      and m' = "\<lparr> Healthy = True, LastCheck = 5, ResponseTime = 6, ClusterMetrics.LatencyP95 = 300, ClusterMetrics.QueueDepth = 2,
              TokensPerSecond = 20, ErrorCount = 3, ConsecutiveError = 0, ClusterMetrics.Endpoint = ''http://a'' \<rparr>"]
  by (simp add: checker_run_def NewChecker_def checker_AddCluster_def checkCluster_def Let_def
      word_sle_eq since_registration_def since_raised_def after_last_def raises_def)

text \<open>
  A cluster is registered unhealthy: after \<open>AddCluster\<close> and one failed check it is
  unhealthy with a single error counted.
\<close>

theorem C3_counterexample:
  "Checker.clusters (checker_run 30 [Register ''a'' ''http://a'' 0, Check ''a'' (False, 0, 0, 0) 5 1]) ''a''
     = Some \<lparr> Healthy = False, LastCheck = 1, ResponseTime = 5, ClusterMetrics.LatencyP95 = 0, ClusterMetrics.QueueDepth = 0,
              TokensPerSecond = 0, ErrorCount = 1, ConsecutiveError = 1, ClusterMetrics.Endpoint = ''http://a'' \<rparr>
   \<and> length (filter (fails ''a'') [Register ''a'' ''http://a'' 0, Check ''a'' (False, 0, 0, 0) 5 1]) = 1"
  by (simp add: checker_run_def NewChecker_def checker_AddCluster_def checkCluster_def Let_def
      word_sle_eq)

section \<open>Properties of the provider adapters\<close>

text \<open>
  C7. When the provider answers the health request with status 429, the Claude adapter
  returns no error; the OpenAI and the Gemini adapters return a status error.
\<close>

theorem C7_rate_limit_health:
  "Health (ClaudeProvider cfg) (Answered 429) = None
   \<and> Health (OpenAIProvider cfg) (Answered 429)
       = Some (StatusError ''OpenAI health check failed with status'' 429)
   \<and> Health (GeminiProvider cfg) (Answered 429)
       = Some (StatusError ''Gemini health check failed with status'' 429)"
  by (simp add: claude_Health_def openai_Health_def gemini_Health_def)

lemma openai_cost:
  "openai_CalculateCost cfg i out =
     price (case map_of openai_pricing (DefaultModel cfg) of
              Some found \<Rightarrow> found
            | None \<Rightarrow> index_pricing openai_pricing ''gpt-3.5-turbo'') i out"
  by (cases "DefaultModel cfg = []")
     (simp_all add: openai_CalculateCost_def openai_pricing_def index_pricing_def)

lemma claude_cost:
  "claude_CalculateCost cfg i out =
     price (case map_of claude_pricing (DefaultModel cfg) of
              Some found \<Rightarrow> found
            | None \<Rightarrow> index_pricing claude_pricing ''claude-3-haiku-20240307'') i out"
  by (cases "DefaultModel cfg = []")
     (simp_all add: claude_CalculateCost_def claude_pricing_def index_pricing_def)

lemma gemini_cost:
  "gemini_CalculateCost cfg i out =
     price (case map_of gemini_pricing (DefaultModel cfg) of
              Some found \<Rightarrow> found
            | None \<Rightarrow> index_pricing gemini_pricing ''gemini-pro'') i out"
  by (cases "DefaultModel cfg = []")
     (simp_all add: gemini_CalculateCost_def gemini_pricing_def index_pricing_def)

text \<open>
  For every adapter and all token counts, \<open>CalculateCost\<close> is
  \<open>inputTokens * InputPricePer1K / 1000 + outputTokens * OutputPricePer1K / 1000\<close> with the
  pricing of the configured default model when the adapter's table has it, and otherwise
  with the pricing of the adapter's fallback model (gpt-3.5-turbo, claude-3-haiku-20240307,
  gemini-pro), which is in the table; for OpenAI and Claude the fallback is the cheapest
  model of the table.
\<close>

lemma calculate_cost_pricing:
  "CalculateCost p i out =
     (let table = GetModelPricing p;
          pricing = (case map_of table (DefaultModel (provider_config p)) of
                       Some found \<Rightarrow> found
                     | None \<Rightarrow> index_pricing table (fallback_model p))
      in real_of_int i * InputPricePer1K pricing / 1000
         + real_of_int out * OutputPricePer1K pricing / 1000)
   \<and> map_of (GetModelPricing p) (fallback_model p) \<noteq> None
   \<and> ((\<exists>cfg. p = OpenAIProvider cfg \<or> p = ClaudeProvider cfg) \<longrightarrow>
        cheapest_in (GetModelPricing p) (index_pricing (GetModelPricing p) (fallback_model p)))"
proof (cases p)
  case (OpenAIProvider cfg)
  then show ?thesis
    by (simp add: openai_cost price_def Let_def)
       (simp add: openai_pricing_def index_pricing_def cheapest_in_def)
next
  case (ClaudeProvider cfg)
  then show ?thesis
    by (simp add: claude_cost price_def Let_def)
       (simp add: claude_pricing_def index_pricing_def cheapest_in_def)
next
  case (GeminiProvider cfg)
  then show ?thesis
    by (simp add: gemini_cost price_def Let_def)
       (simp add: gemini_pricing_def index_pricing_def)
qed

lemma calculate_cost_openai_fallback:
  "CalculateCost (OpenAIProvider \<lparr> ProviderConfig.Name = ''openai'', ProviderConfig.Type = ''openai'',
        APIKey = ''k'', BaseURL = ''https://api.openai.com'', DefaultModel = ''gpt-5'',
        Enabled = True \<rparr>) 2000 1000
     = 25/10000
   \<and> cheapest_in openai_pricing (index_pricing openai_pricing ''gpt-3.5-turbo'')"
  using calculate_cost_pricing [of "OpenAIProvider \<lparr> ProviderConfig.Name = ''openai'',
        ProviderConfig.Type = ''openai'', APIKey = ''k'', BaseURL = ''https://api.openai.com'',
        DefaultModel = ''gpt-5'', Enabled = True \<rparr>" 2000 1000]
  by (simp add: Let_def openai_pricing_def index_pricing_def)

text \<open>
  C8. The Gemini adapter, configured with a default model that its pricing table does not
  have, prices 1000 input and 1000 output tokens with gemini-pro (0.002), not with the
  cheapest model of its table: gemini-1.5-flash is cheaper in both prices and would give
  0.000375.
\<close>

theorem C8_gemini_fallback:
  "map_of gemini_pricing ''gemini-2.0'' = None
   \<and> CalculateCost (GeminiProvider \<lparr> ProviderConfig.Name = ''gemini'', ProviderConfig.Type = ''gemini'',
        APIKey = ''k'', BaseURL = ''https://generativelanguage.googleapis.com'',
        DefaultModel = ''gemini-2.0'', Enabled = True \<rparr>) 1000 1000 = 2/1000
   \<and> price (index_pricing gemini_pricing ''gemini-1.5-flash'') 1000 1000 = 375/1000000
   \<and> cheapest_in gemini_pricing (index_pricing gemini_pricing ''gemini-1.5-flash'')
   \<and> \<not> cheapest_in gemini_pricing (index_pricing gemini_pricing ''gemini-pro'')"
  by (simp add: gemini_CalculateCost_def gemini_pricing_def index_pricing_def price_def
      cheapest_in_def Let_def)

section \<open>Properties of candidate construction and selection\<close>

lemma cheaper_of_mem: "cheaper_of c ts \<in> set (c # ts)"
  by (induction ts arbitrary: c) auto

lemma cheaper_of_le_start: "Cost (cheaper_of c ts) \<le> Cost c"
proof (induction ts arbitrary: c)
  case Nil
  then show ?case by simp
next
  case (Cons t ts)
  have "Cost (cheaper_of (if Cost t < Cost c then t else c) ts)
          \<le> Cost (if Cost t < Cost c then t else c)"
    by (rule Cons.IH)
  also have "\<dots> \<le> Cost c" by (simp add: less_imp_le)
  finally show ?case by simp
qed

lemma cheaper_of_le_all: "t \<in> set ts \<Longrightarrow> Cost (cheaper_of c ts) \<le> Cost t"
proof (induction ts arbitrary: c)
  case Nil
  then show ?case by simp
next
  case (Cons u ts)
  show ?case
  proof (cases "t = u")
    case True
    have "Cost (cheaper_of (if Cost u < Cost c then u else c) ts)
            \<le> Cost (if Cost u < Cost c then u else c)"
      by (rule cheaper_of_le_start)
    also have "\<dots> \<le> Cost u" by (simp add: not_less)
    finally show ?thesis using True by simp
  next
    case False
    with Cons.prems have "t \<in> set ts" by simp
    then show ?thesis using Cons.IH by simp
  qed
qed

lemma scan_none:
  "\<forall>t \<in> set ts. \<not> under_threshold thr t \<Longrightarrow> cheapest_cluster_under thr acc ts = acc"
  by (induction ts arbitrary: acc) (auto simp: under_threshold_def)

lemma scan_some:
  assumes "acc = Some a \<and> under_threshold thr a \<or> acc = None \<and> (\<exists>t \<in> set ts. under_threshold thr t)"
  shows "\<exists>c. cheapest_cluster_under thr acc ts = Some c
             \<and> under_threshold thr c
             \<and> (c \<in> set ts \<or> acc = Some c)
             \<and> (\<forall>b. acc = Some b \<longrightarrow> Cost c \<le> Cost b)
             \<and> (\<forall>t \<in> set ts. under_threshold thr t \<longrightarrow> Cost c \<le> Cost t)"
  using assms
proof (induction ts arbitrary: acc a)
  case Nil
  then show ?case by auto
next
  case (Cons t ts)
  show ?case
  proof (cases "under_threshold thr t")
    case False
    then have step: "cheapest_cluster_under thr acc (t # ts) = cheapest_cluster_under thr acc ts"
      by (auto simp: under_threshold_def)
    from Cons.prems False
    have "acc = Some a \<and> under_threshold thr a \<or> acc = None \<and> (\<exists>t \<in> set ts. under_threshold thr t)"
      by auto
    from Cons.IH [OF this] False show ?thesis unfolding step by auto
  next
    case True
    define acc' where "acc' = (case acc of None \<Rightarrow> Some t
                                | Some c \<Rightarrow> if Cost t < Cost c then Some t else acc)"
    from True have step: "cheapest_cluster_under thr acc (t # ts) = cheapest_cluster_under thr acc' ts"
      by (simp add: under_threshold_def acc'_def)
    obtain a' where a': "acc' = Some a'" "under_threshold thr a'" "a' = t \<or> acc = Some a'"
      "Cost a' \<le> Cost t" "\<forall>b. acc = Some b \<longrightarrow> Cost a' \<le> Cost b"
    proof (cases acc)
      case None
      with True that show ?thesis by (simp add: acc'_def)
    next
      case (Some b)
      with Cons.prems have b: "under_threshold thr b" by auto
      show ?thesis
      proof (cases "Cost t < Cost b")
        case lt: True
        with Some True that [of t] show ?thesis by (simp add: acc'_def less_imp_le)
      next
        case ge: False
        with Some b that [of b] show ?thesis by (simp add: acc'_def not_less)
      qed
    qed
    then have "acc' = Some a' \<and> under_threshold thr a'
               \<or> acc' = None \<and> (\<exists>t \<in> set ts. under_threshold thr t)" by simp
    from Cons.IH [OF this] obtain c where c: "cheapest_cluster_under thr acc' ts = Some c"
      "under_threshold thr c" "c \<in> set ts \<or> acc' = Some c"
      "\<forall>b. acc' = Some b \<longrightarrow> Cost c \<le> Cost b"
      "\<forall>t \<in> set ts. under_threshold thr t \<longrightarrow> Cost c \<le> Cost t"
      by blast
    from c(4) a'(1) have ca: "Cost c \<le> Cost a'" by simp
    have "c \<in> set (t # ts) \<or> acc = Some c" using c(3) a'(1,3) by auto
    moreover have "\<forall>b. acc = Some b \<longrightarrow> Cost c \<le> Cost b"
    proof (intro allI impI)
      fix b assume "acc = Some b"
      with a'(5) have "Cost a' \<le> Cost b" by simp
      with ca show "Cost c \<le> Cost b" by (rule order_trans)
    qed
    moreover have "\<forall>u \<in> set (t # ts). under_threshold thr u \<longrightarrow> Cost c \<le> Cost u"
    proof (intro ballI impI)
      fix u assume u: "u \<in> set (t # ts)" "under_threshold thr u"
      show "Cost c \<le> Cost u"
      proof (cases "u = t")
        case True
        from ca a'(4) have "Cost c \<le> Cost t" by (rule order_trans)
        with True show ?thesis by simp
      next
        case False
        with u c(5) show ?thesis by simp
      qed
    qed
    ultimately show ?thesis unfolding step using c(1,2) by blast
  qed
qed

lemma hybrid_cluster:
  assumes "\<exists>t \<in> set targets. under_threshold thr t"
  shows "\<exists>c. selectHybrid thr targets
               = Some (c, RoutingDecision (Name c) (Type c) ''hybrid_cluster'')
             \<and> c \<in> set targets \<and> under_threshold thr c
             \<and> (\<forall>t \<in> set targets. under_threshold thr t \<longrightarrow> Cost c \<le> Cost t)"
proof -
  from assms obtain first rest where t: "targets = first # rest" by (cases targets) auto
  from scan_some [of None undefined thr targets] assms
  obtain c where c: "cheapest_cluster_under thr None targets = Some c" "under_threshold thr c"
    "c \<in> set targets" "\<forall>t \<in> set targets. under_threshold thr t \<longrightarrow> Cost c \<le> Cost t"
    by auto
  from c(1) t have "selectHybrid thr targets
      = Some (c, RoutingDecision (Name c) (Type c) ''hybrid_cluster'')"
    by (simp add: selectHybrid_def)
  with c show ?thesis by blast
qed

lemma hybrid_cheapest:
  assumes "targets \<noteq> []" "\<forall>t \<in> set targets. \<not> under_threshold thr t"
  shows "\<exists>c. selectHybrid thr targets
               = Some (c, RoutingDecision (Name c) (Type c) ''hybrid_cheapest'')
             \<and> c \<in> set targets \<and> (\<forall>t \<in> set targets. Cost c \<le> Cost t)"
proof -
  from assms(1) obtain first rest where t: "targets = first # rest" by (cases targets) auto
  let ?c = "cheaper_of first rest"
  from scan_none [OF assms(2), of None] t
  have "selectHybrid thr targets = Some (?c, RoutingDecision (Name ?c) (Type ?c) ''hybrid_cheapest'')"
    by (simp add: selectHybrid_def Let_def)
  moreover have "?c \<in> set targets" using cheaper_of_mem [of first rest] t by simp
  moreover have "\<forall>u \<in> set targets. Cost ?c \<le> Cost u"
    using cheaper_of_le_start [of first rest] cheaper_of_le_all [of _ rest first] t by auto
  ultimately show ?thesis by blast
qed

lemma select_target_hybrid:
  assumes "getAllTargets r s = (targets, r1, probes)" "targets \<noteq> []"
    and "RoutingStrategy (Router (config r)) = ''hybrid''"
    and "selectHybrid (ClusterCostThreshold (Router (config r))) targets = Some (c, counted)"
  shows "selectTarget r s = (Inr (Some c), r1, probes @ [counted])"
  using assms by (simp add: selectTarget_def)

lemma faster_of_mem: "faster_of f ts \<in> set (f # ts)"
  by (induction ts arbitrary: f) auto

lemma faster_of_cluster: "Type f = ''cluster'' \<Longrightarrow> Type (faster_of f ts) = ''cluster''"
  by (induction ts arbitrary: f) auto

lemma faster_of_le_start: "LatencyP95 (faster_of f ts) \<le> LatencyP95 f"
proof (induction ts arbitrary: f)
  case Nil
  then show ?case by simp
next
  case (Cons t ts)
  let ?g = "if Type t = ''cluster'' \<and> LatencyP95 t < LatencyP95 f then t else f"
  have "LatencyP95 (faster_of ?g ts) \<le> LatencyP95 ?g" by (rule Cons.IH)
  also have "\<dots> \<le> LatencyP95 f" by simp
  finally show ?case by simp
qed

lemma faster_of_le_clusters:
  "t \<in> set ts \<Longrightarrow> Type t = ''cluster'' \<Longrightarrow> LatencyP95 (faster_of f ts) \<le> LatencyP95 t"
proof (induction ts arbitrary: f)
  case Nil
  then show ?case by simp
next
  case (Cons u ts)
  let ?g = "if Type u = ''cluster'' \<and> LatencyP95 u < LatencyP95 f then u else f"
  show ?case
  proof (cases "t = u")
    case True
    have "LatencyP95 (faster_of ?g ts) \<le> LatencyP95 ?g" by (rule faster_of_le_start)
    also have "\<dots> \<le> LatencyP95 u" using Cons.prems(2) True by simp
    finally show ?thesis using True by simp
  next
    case False
    with Cons.prems have "t \<in> set ts" by simp
    from Cons.IH [OF this Cons.prems(2)] show ?thesis by simp
  qed
qed

lemma faster_of_no_cluster:
  "\<forall>t \<in> set ts. Type t \<noteq> ''cluster'' \<Longrightarrow> faster_of f ts = f"
  by (induction ts arbitrary: f) auto

lemma add_clusters_targets:
  "t \<in> set (fst (add_clusters cfg hm now names e)) \<Longrightarrow>
     Type t = ''cluster'' \<and> Name t \<in> set names \<and> hm (Name t) \<noteq> None"
proof (induction names arbitrary: e)
  case Nil
  then show ?case by simp
next
  case (Cons name names)
  then show ?case
    by (auto simp: Let_def split_beta split: option.splits if_splits)
qed

lemma add_clusters_empty:
  "fst (add_clusters cfg hm now names e) = [] \<Longrightarrow> snd (add_clusters cfg hm now names e) = e"
proof (induction names arbitrary: e)
  case Nil
  then show ?case by simp
next
  case (Cons name names)
  then show ?case
    by (auto simp: Let_def split_beta split: option.splits if_splits)
qed

lemma add_providers_targets:
  "t \<in> set (fst (add_providers ps ans names)) \<Longrightarrow> Type t = ''provider'' \<and> LatencyP95 t = 0"
proof (induction names)
  case Nil
  then show ?case by simp
next
  case (Cons name names)
  then show ?case
    by (auto simp: Let_def split_beta split: option.splits if_splits)
qed

lemma add_providers_probes:
  "snd (add_providers ps ans names) = map Probe (filter (\<lambda>n. ps n \<noteq> None) names)"
  by (induction names) (auto simp: Let_def split_beta split: option.splits)

lemma getAllTargets_shape:
  assumes "getAllTargets r s = (targets, r1, probes)"
  shows "\<exists>cs ps. targets = cs @ ps
           \<and> (\<forall>t \<in> set cs. Type t = ''cluster''
                  \<and> GetHealthyMetrics (healthChecker r) (Name t) \<noteq> None)
           \<and> (\<forall>t \<in> set ps. Type t = ''provider'' \<and> LatencyP95 t = 0)
           \<and> probes = map Probe (filter (\<lambda>n. providerManager r n \<noteq> None) (providerOrder s))
           \<and> (cs = [] \<longrightarrow> costEngine r1 = costEngine r)"
proof -
  let ?ac = "add_clusters (config r) (GetHealthyMetrics (healthChecker r)) (clock s)
               (clusterOrder s) (costEngine r)"
  let ?ap = "add_providers (providerManager r) (answers s) (providerOrder s)"
  from assms have t: "targets = fst ?ac @ fst ?ap" and r1: "r1 = r \<lparr> costEngine := snd ?ac \<rparr>"
    and p: "probes = snd ?ap"
    by (auto simp: getAllTargets_def Let_def split_beta)
  show ?thesis
  proof (intro exI conjI)
    show "targets = fst ?ac @ fst ?ap" by (rule t)
    show "\<forall>t \<in> set (fst ?ac). Type t = ''cluster''
                  \<and> GetHealthyMetrics (healthChecker r) (Name t) \<noteq> None"
      using add_clusters_targets by blast
    show "\<forall>t \<in> set (fst ?ap). Type t = ''provider'' \<and> LatencyP95 t = 0"
      using add_providers_targets by blast
    show "probes = map Probe (filter (\<lambda>n. providerManager r n \<noteq> None) (providerOrder s))"
      by (simp add: p add_providers_probes)
    show "fst ?ac = [] \<longrightarrow> costEngine r1 = costEngine r"
      by (simp add: r1 add_clusters_empty)
  qed
qed

text \<open>The cost of the example cluster at throughput 10 is the \<open>float64\<close> 1.1.\<close>

lemma example_cost:
  "fst (CalculateCostPer1KTokens (AddCluster (NewEngine (nearest (11 / 10))) ''a'' (Num (Fin 36)))
          ''a'' (Num (Fin 10)) now)
     = Num (Fin (2476979795053773 / 2251799813685248))"
proof -
  have "Engine.clusters (AddCluster (NewEngine (nearest (11 / 10))) ''a'' (Num (Fin 36))) ''a''
      = Some \<lparr> ClusterCost.CostPerHour = Num (Fin 36), LastTokensPerSec = Num (Fin 0),
               LastUpdate = 0, HistoricalCosts = [] \<rparr>"
    by (simp add: AddCluster_def NewEngine_def)
  moreover have "\<not> fle (Num (Fin 10)) (Num (Fin 0))" by simp
  ultimately have "fst (CalculateCostPer1KTokens
        (AddCluster (NewEngine (nearest (11 / 10))) ''a'' (Num (Fin 36))) ''a'' (Num (Fin 10)) now)
      = cost_formula (Num (Fin 36))
          (overheadFactor (AddCluster (NewEngine (nearest (11 / 10))) ''a'' (Num (Fin 36))))
          (Num (Fin 10))"
    by (simp add: calc_ok)
  also have "overheadFactor (AddCluster (NewEngine (nearest (11 / 10))) ''a'' (Num (Fin 36)))
      = nearest (11 / 10)"
    by (simp add: AddCluster_def NewEngine_def)
  finally have "fst (CalculateCostPer1KTokens
        (AddCluster (NewEngine (nearest (11 / 10))) ''a'' (Num (Fin 36))) ''a'' (Num (Fin 10)) now)
      = nearest (11 / 10)"
    by (simp only: cost_at_10)
  then show ?thesis by (simp only: nearest_11_10)
qed

lemma example_targets:
  "fst (getAllTargets (example_router strategy [Check ''a'' (True, 0, 10, 1000) 5 1])
          (example_surroundings 200))
     = [\<lparr> Name = ''a'', Type = ''cluster'', Endpoint = ''http://a'', Cost = Fin (2476979795053773 / 2251799813685248),
           IsHealthy = True, LatencyP95 = 1000, QueueDepth = 0, Provider = None \<rparr>,
        target_C]"
  by (simp add: getAllTargets_def example_router_def example_surroundings_def example_config_def
      checker_run_def NewChecker_def checker_AddCluster_def checkCluster_def GetHealthyMetrics_def
      example_cost lookup_endpoint_def
      NewOpenAIProvider_def provider_Name_def openai_Health_def lowest_average_def
      openai_pricing_def target_C_def Let_def split_beta)

text \<open>
  C1. Hybrid selection on a non-empty candidate list: when some cluster-type candidate has
  a cost of at most the threshold, the selection is a cluster-type candidate under the
  threshold whose cost is minimal among these, counted with reason \<open>hybrid_cluster\<close>;
  otherwise it is a candidate of minimal cost among all, counted with reason
  \<open>hybrid_cheapest\<close>. With the strategy \<open>hybrid\<close>, \<open>selectTarget\<close> returns this
  selection for the configured \<open>ClusterCostThreshold\<close>. For the candidates A, B and C of the
  example, in any order, and threshold 0.01 the selection is A with reason
  \<open>hybrid_cluster\<close>.
\<close>

theorem C1_hybrid_selection:
  "(targets \<noteq> [] \<and> (\<exists>t \<in> set targets. Type t = ''cluster'' \<and> Cost t \<le> Fin threshold) \<longrightarrow>
      (\<exists>c. selectHybrid threshold targets
              = Some (c, RoutingDecision (Name c) (Type c) ''hybrid_cluster'')
          \<and> c \<in> set targets \<and> Type c = ''cluster'' \<and> Cost c \<le> Fin threshold
          \<and> (\<forall>t \<in> set targets. Type t = ''cluster'' \<and> Cost t \<le> Fin threshold
                \<longrightarrow> Cost c \<le> Cost t)))
   \<and> (targets \<noteq> [] \<and> \<not> (\<exists>t \<in> set targets. Type t = ''cluster'' \<and> Cost t \<le> Fin threshold) \<longrightarrow>
      (\<exists>c. selectHybrid threshold targets
              = Some (c, RoutingDecision (Name c) (Type c) ''hybrid_cheapest'')
          \<and> c \<in> set targets \<and> (\<forall>t \<in> set targets. Cost c \<le> Cost t)))
   \<and> (getAllTargets r s = (targets, r1, probes) \<and> targets \<noteq> []
        \<and> RoutingStrategy (Router (config r)) = ''hybrid''
        \<and> selectHybrid (ClusterCostThreshold (Router (config r))) targets = Some (c, counted) \<longrightarrow>
      selectTarget r s = (Inr (Some c), r1, probes @ [counted]))
   \<and> (set candidates = {target_A, target_B, target_C} \<longrightarrow>
      selectHybrid (1/100) candidates
        = Some (target_A, RoutingDecision ''A'' ''cluster'' ''hybrid_cluster''))"
proof (intro conjI impI)
  assume "targets \<noteq> [] \<and> (\<exists>t \<in> set targets. Type t = ''cluster'' \<and> Cost t \<le> Fin threshold)"
  then have "\<exists>t \<in> set targets. under_threshold threshold t" by (simp add: under_threshold_def)
  from hybrid_cluster [OF this]
  show "\<exists>c. selectHybrid threshold targets
              = Some (c, RoutingDecision (Name c) (Type c) ''hybrid_cluster'')
          \<and> c \<in> set targets \<and> Type c = ''cluster'' \<and> Cost c \<le> Fin threshold
          \<and> (\<forall>t \<in> set targets. Type t = ''cluster'' \<and> Cost t \<le> Fin threshold
                \<longrightarrow> Cost c \<le> Cost t)"
    by (simp add: under_threshold_def)
next
  assume a: "targets \<noteq> [] \<and> \<not> (\<exists>t \<in> set targets. Type t = ''cluster'' \<and> Cost t \<le> Fin threshold)"
  then have "\<forall>t \<in> set targets. \<not> under_threshold threshold t" by (simp add: under_threshold_def)
  with a hybrid_cheapest [of targets threshold]
  show "\<exists>c. selectHybrid threshold targets
              = Some (c, RoutingDecision (Name c) (Type c) ''hybrid_cheapest'')
          \<and> c \<in> set targets \<and> (\<forall>t \<in> set targets. Cost c \<le> Cost t)"
    by simp
next
  assume "getAllTargets r s = (targets, r1, probes) \<and> targets \<noteq> []
        \<and> RoutingStrategy (Router (config r)) = ''hybrid''
        \<and> selectHybrid (ClusterCostThreshold (Router (config r))) targets = Some (c, counted)"
  then show "selectTarget r s = (Inr (Some c), r1, probes @ [counted])"
    using select_target_hybrid by blast
next
  assume s: "set candidates = {target_A, target_B, target_C}"
  have A: "under_threshold (1/100) target_A" by (simp add: under_threshold_def target_A_def)
  have B: "\<not> under_threshold (1/100) target_B" by (simp add: under_threshold_def target_B_def)
  have C: "\<not> under_threshold (1/100) target_C" by (simp add: under_threshold_def target_C_def)
  from s A have "\<exists>t \<in> set candidates. under_threshold (1/100) t" by auto
  from hybrid_cluster [OF this] obtain c where
    c: "selectHybrid (1/100) candidates = Some (c, RoutingDecision (Name c) (Type c) ''hybrid_cluster'')"
    "c \<in> set candidates" "under_threshold (1/100) c" by blast
  from c(2,3) s B C have "c = target_A" by auto
  with c(1) show "selectHybrid (1/100) candidates
        = Some (target_A, RoutingDecision ''A'' ''cluster'' ''hybrid_cluster'')"
    by (simp add: target_A_def)
qed

lemma example_selection:
  "selectHybrid (1/100)
     [\<lparr> Name = ''a'', Type = ''cluster'', Endpoint = ''http://a'', Cost = Fin (2476979795053773 / 2251799813685248),
        IsHealthy = True, LatencyP95 = 1000, QueueDepth = 0, Provider = None \<rparr>, target_C]
   = Some (target_C, RoutingDecision ''C'' ''provider'' ''hybrid_cheapest'')"
  by (simp add: selectHybrid_def target_C_def)

lemma example_strategy:
  "RoutingStrategy (Router (config (example_router strategy calls))) = strategy"
  "ClusterCostThreshold (Router (config (example_router strategy calls))) = 1/100"
  by (simp_all add: example_router_def example_config_def)

theorem C1_witness:
  "selectHybrid (1/100) [target_B, target_C, target_A]
     = Some (target_A, RoutingDecision ''A'' ''cluster'' ''hybrid_cluster'')
   \<and> selectHybrid (1/1000) [target_B, target_C, target_A]
     = Some (target_C, RoutingDecision ''C'' ''provider'' ''hybrid_cheapest'')
   \<and> fst (selectTarget (example_router ''hybrid'' [Check ''a'' (True, 0, 10, 1000) 5 1])
            (example_surroundings 200))
     = Inr (Some target_C)"
proof -
  let ?ts = "[target_B, target_C, target_A]"
  let ?r = "example_router ''hybrid'' [Check ''a'' (True, 0, 10, 1000) 5 1]"
  let ?s = "example_surroundings 200"
  have s: "set ?ts = {target_A, target_B, target_C}" by auto
  have n: "?ts \<noteq> []" by simp
  have some: "\<exists>t \<in> set ?ts. Type t = ''cluster'' \<and> Cost t \<le> Fin (1/100)"
    by (simp add: target_A_def)
  have none: "\<not> (\<exists>t \<in> set ?ts. Type t = ''cluster'' \<and> Cost t \<le> Fin (1/1000))"
    by (simp add: target_A_def target_B_def target_C_def)
  from C1_hybrid_selection [where targets = ?ts and threshold = "1/100"] n some
  obtain a where a: "selectHybrid (1/100) ?ts
              = Some (a, RoutingDecision (Name a) (Type a) ''hybrid_cluster'')"
    "a \<in> set ?ts" "Type a = ''cluster''" "Cost a \<le> Fin (1/100)"
    by blast
  from a(2,3,4) have "a = target_A"
    by (auto simp: target_A_def target_B_def target_C_def)
  with a(1) have first: "selectHybrid (1/100) ?ts
     = Some (target_A, RoutingDecision ''A'' ''cluster'' ''hybrid_cluster'')"
    by (simp add: target_A_def)
  from C1_hybrid_selection [where targets = ?ts and threshold = "1/1000"] n none
  obtain c where c: "selectHybrid (1/1000) ?ts
              = Some (c, RoutingDecision (Name c) (Type c) ''hybrid_cheapest'')"
    "c \<in> set ?ts" "\<forall>t \<in> set ?ts. Cost c \<le> Cost t"
    by blast
  from c(2,3) have "c = target_C"
    by (auto simp: target_A_def target_B_def target_C_def)
  with c(1) have second: "selectHybrid (1/1000) ?ts
     = Some (target_C, RoutingDecision ''C'' ''provider'' ''hybrid_cheapest'')"
    by (simp add: target_C_def)
  have g: "getAllTargets ?r ?s
      = (fst (getAllTargets ?r ?s), fst (snd (getAllTargets ?r ?s)), snd (snd (getAllTargets ?r ?s)))"
    by simp
  have ne: "fst (getAllTargets ?r ?s) \<noteq> []" by (simp add: example_targets)
  have h: "selectHybrid (ClusterCostThreshold (Router (config ?r))) (fst (getAllTargets ?r ?s))
      = Some (target_C, RoutingDecision ''C'' ''provider'' ''hybrid_cheapest'')"
    by (simp add: example_targets example_selection example_strategy)
  from C1_hybrid_selection [where r = ?r and s = ?s and targets = "fst (getAllTargets ?r ?s)"
      and ?r1.0 = "fst (snd (getAllTargets ?r ?s))" and probes = "snd (snd (getAllTargets ?r ?s))"
      and c = target_C and counted = "RoutingDecision ''C'' ''provider'' ''hybrid_cheapest''"]
    g ne h example_strategy(1) [of "''hybrid''"]
  have third: "fst (selectTarget ?r ?s) = Inr (Some target_C)"
    by simp
  from first second third show ?thesis by simp
qed

lemma latency_cluster_first:
  assumes "targets = first # rest" "Type first = ''cluster''"
  shows "\<exists>c. selectByLatency targets
               = Some (c, RoutingDecision (Name c) (Type c) ''lowest_latency'')
             \<and> c \<in> set targets \<and> Type c = ''cluster''
             \<and> (\<forall>t \<in> set targets. Type t = ''cluster'' \<longrightarrow> LatencyP95 c \<le> LatencyP95 t)"
proof -
  let ?c = "faster_of first rest"
  have "selectByLatency targets = Some (?c, RoutingDecision (Name ?c) (Type ?c) ''lowest_latency'')"
    using assms(1) by (simp add: selectByLatency_def Let_def)
  moreover have "?c \<in> set targets" using faster_of_mem [of first rest] assms(1) by simp
  moreover have "Type ?c = ''cluster''" using assms(2) by (rule faster_of_cluster)
  moreover have "\<forall>t \<in> set targets. Type t = ''cluster'' \<longrightarrow> LatencyP95 ?c \<le> LatencyP95 t"
    using faster_of_le_start [of first rest] faster_of_le_clusters [of _ rest first] assms(1)
    by auto
  ultimately show ?thesis by blast
qed

lemma latency_no_cluster:
  assumes "targets = first # rest" "\<forall>t \<in> set targets. Type t \<noteq> ''cluster''"
  shows "selectByLatency targets
           = Some (first, RoutingDecision (Name first) (Type first) ''lowest_latency'')"
  using assms faster_of_no_cluster [of rest first]
  by (simp add: selectByLatency_def Let_def)

lemma getAllTargets_first:
  assumes "getAllTargets r s = (targets, r1, probes)"
    and "\<exists>t \<in> set targets. Type t = ''cluster''"
  shows "first_is_cluster targets"
proof -
  from getAllTargets_shape [OF assms(1)] obtain cs ps where
    t: "targets = cs @ ps" and cs: "\<forall>t \<in> set cs. Type t = ''cluster''"
    and ps: "\<forall>t \<in> set ps. Type t = ''provider''"
    by blast
  from assms(2) t ps have "cs \<noteq> []" by auto
  then obtain c cs' where "cs = c # cs'" by (cases cs) auto
  with t cs show ?thesis by (simp add: first_is_cluster_def)
qed

text \<open>
  On a list that starts with a provider the function takes the provider's \<open>LatencyP95\<close>
  (0, as \<open>getAllTargets\<close> builds it) as the value to beat, and returns the provider.
  \<open>selectTarget\<close>, the only caller, never passes such a list with a cluster in it
  (\<open>getAllTargets_first\<close>).
\<close>

lemma latency_provider_first:
  "selectByLatency [target_C, target_A]
     = Some (target_C, RoutingDecision ''C'' ''provider'' ''lowest_latency'')"
  by (simp add: selectByLatency_def target_A_def target_C_def)

text \<open>
  C6. Latency selection. On every candidate list that \<open>getAllTargets\<close> builds with a
  cluster-type candidate in it (and on every list whose first candidate is cluster-type),
  the selection is a cluster-type candidate whose \<open>LatencyP95\<close> is minimal among the
  cluster-type candidates (the providers are not compared), counted with reason
  \<open>lowest_latency\<close>; on a list with no cluster-type candidate it is the first candidate.
  With the strategy \<open>latency\<close>, \<open>selectTarget\<close> returns this selection for every
  non-empty list that \<open>getAllTargets\<close> builds.
\<close>

theorem C6_latency_selection:
  "(getAllTargets r s = (targets, r1, probes) \<and> (\<exists>t \<in> set targets. Type t = ''cluster'') \<longrightarrow>
      (\<exists>c. selectByLatency targets
              = Some (c, RoutingDecision (Name c) (Type c) ''lowest_latency'')
          \<and> c \<in> set targets \<and> Type c = ''cluster''
          \<and> (\<forall>t \<in> set targets. Type t = ''cluster'' \<longrightarrow> LatencyP95 c \<le> LatencyP95 t)))
   \<and> (first_is_cluster targets \<longrightarrow>
      (\<exists>c. selectByLatency targets
              = Some (c, RoutingDecision (Name c) (Type c) ''lowest_latency'')
          \<and> c \<in> set targets \<and> Type c = ''cluster''
          \<and> (\<forall>t \<in> set targets. Type t = ''cluster'' \<longrightarrow> LatencyP95 c \<le> LatencyP95 t)))
   \<and> (targets = first # rest \<and> \<not> (\<exists>t \<in> set targets. Type t = ''cluster'') \<longrightarrow>
      selectByLatency targets
        = Some (first, RoutingDecision (Name first) (Type first) ''lowest_latency''))
   \<and> (getAllTargets r s = (targets, r1, probes) \<and> targets \<noteq> []
        \<and> RoutingStrategy (Router (config r)) = ''latency'' \<longrightarrow>
      (\<exists>c counted. selectByLatency targets = Some (c, counted)
          \<and> selectTarget r s = (Inr (Some c), r1, probes @ [counted])))"
proof (intro conjI impI)
  assume "getAllTargets r s = (targets, r1, probes) \<and> (\<exists>t \<in> set targets. Type t = ''cluster'')"
  then have "first_is_cluster targets"
    using getAllTargets_first by blast
  then obtain f rs where "targets = f # rs" "Type f = ''cluster''"
    by (cases targets) (auto simp: first_is_cluster_def)
  then show "\<exists>c. selectByLatency targets
              = Some (c, RoutingDecision (Name c) (Type c) ''lowest_latency'')
          \<and> c \<in> set targets \<and> Type c = ''cluster''
          \<and> (\<forall>t \<in> set targets. Type t = ''cluster'' \<longrightarrow> LatencyP95 c \<le> LatencyP95 t)"
    by (rule latency_cluster_first)
next
  assume "first_is_cluster targets"
  then obtain f rs where "targets = f # rs" "Type f = ''cluster''"
    by (cases targets) (auto simp: first_is_cluster_def)
  then show "\<exists>c. selectByLatency targets
              = Some (c, RoutingDecision (Name c) (Type c) ''lowest_latency'')
          \<and> c \<in> set targets \<and> Type c = ''cluster''
          \<and> (\<forall>t \<in> set targets. Type t = ''cluster'' \<longrightarrow> LatencyP95 c \<le> LatencyP95 t)"
    by (rule latency_cluster_first)
next
  assume "targets = first # rest \<and> \<not> (\<exists>t \<in> set targets. Type t = ''cluster'')"
  then show "selectByLatency targets
        = Some (first, RoutingDecision (Name first) (Type first) ''lowest_latency'')"
    using latency_no_cluster [of targets first rest] by blast
next
  assume a: "getAllTargets r s = (targets, r1, probes) \<and> targets \<noteq> []
        \<and> RoutingStrategy (Router (config r)) = ''latency''"
  then obtain f rs where t: "targets = f # rs" by (cases targets) auto
  let ?c = "faster_of f rs"
  have sel: "selectByLatency targets
      = Some (?c, RoutingDecision (Name ?c) (Type ?c) ''lowest_latency'')"
    using t by (simp add: selectByLatency_def Let_def)
  with a have "selectTarget r s
      = (Inr (Some ?c), r1, probes @ [RoutingDecision (Name ?c) (Type ?c) ''lowest_latency''])"
    by (simp add: selectTarget_def)
  with sel show "\<exists>c counted. selectByLatency targets = Some (c, counted)
          \<and> selectTarget r s = (Inr (Some c), r1, probes @ [counted])"
    by blast
qed

theorem C6_witness:
  "selectByLatency (fst (getAllTargets
        (example_router ''latency'' [Check ''a'' (True, 0, 10, 1000) 5 1]) (example_surroundings 200)))
     = Some (\<lparr> Name = ''a'', Type = ''cluster'', Endpoint = ''http://a'', Cost = Fin (2476979795053773 / 2251799813685248),
               IsHealthy = True, LatencyP95 = 1000, QueueDepth = 0, Provider = None \<rparr>,
             RoutingDecision ''a'' ''cluster'' ''lowest_latency'')
   \<and> selectByLatency [target_A, target_C, target_B]
     = Some (target_B, RoutingDecision ''B'' ''cluster'' ''lowest_latency'')
   \<and> selectByLatency [target_C]
     = Some (target_C, RoutingDecision ''C'' ''provider'' ''lowest_latency'')
   \<and> fst (selectTarget (example_router ''latency'' [Check ''a'' (True, 0, 10, 1000) 5 1])
            (example_surroundings 200))
     = Inr (Some \<lparr> Name = ''a'', Type = ''cluster'', Endpoint = ''http://a'', Cost = Fin (2476979795053773 / 2251799813685248),
                   IsHealthy = True, LatencyP95 = 1000, QueueDepth = 0, Provider = None \<rparr>)"
proof -
  let ?ts = "[target_A, target_C, target_B]"
  let ?r = "example_router ''latency'' [Check ''a'' (True, 0, 10, 1000) 5 1]"
  let ?s = "example_surroundings 200"
  let ?a = "\<lparr> Name = ''a'', Type = ''cluster'', Endpoint = ''http://a'', Cost = Fin (2476979795053773 / 2251799813685248),
              IsHealthy = True, LatencyP95 = 1000, QueueDepth = 0, Provider = None \<rparr>"
  have g: "getAllTargets ?r ?s
      = (fst (getAllTargets ?r ?s), fst (snd (getAllTargets ?r ?s)), snd (snd (getAllTargets ?r ?s)))"
    by simp
  have ex: "\<exists>t \<in> set (fst (getAllTargets ?r ?s)). Type t = ''cluster''"
    by (simp add: example_targets)
  from C6_latency_selection [where r = ?r and s = ?s and targets = "fst (getAllTargets ?r ?s)"
      and ?r1.0 = "fst (snd (getAllTargets ?r ?s))" and probes = "snd (snd (getAllTargets ?r ?s))"]
    g ex
  obtain b where b: "selectByLatency (fst (getAllTargets ?r ?s))
              = Some (b, RoutingDecision (Name b) (Type b) ''lowest_latency'')"
    "b \<in> set (fst (getAllTargets ?r ?s))" "Type b = ''cluster''"
    by blast
  from b(2,3) have "b = ?a" by (auto simp: example_targets target_C_def)
  with b(1) have first: "selectByLatency (fst (getAllTargets ?r ?s))
      = Some (?a, RoutingDecision ''a'' ''cluster'' ''lowest_latency'')"
    by simp
  have f: "first_is_cluster ?ts" by (simp add: first_is_cluster_def target_A_def)
  from C6_latency_selection [where targets = ?ts] f
  obtain c where c: "selectByLatency ?ts
              = Some (c, RoutingDecision (Name c) (Type c) ''lowest_latency'')"
    "c \<in> set ?ts" "Type c = ''cluster''"
    "\<forall>t \<in> set ?ts. Type t = ''cluster'' \<longrightarrow> LatencyP95 c \<le> LatencyP95 t"
    by blast
  from c(2,3,4) have "c = target_B"
    by (auto simp: target_A_def target_B_def target_C_def)
  with c(1) have second: "selectByLatency ?ts
     = Some (target_B, RoutingDecision ''B'' ''cluster'' ''lowest_latency'')"
    by (simp add: target_B_def)
  have nc: "[target_C] = target_C # [] \<and> \<not> (\<exists>t \<in> set [target_C]. Type t = ''cluster'')"
    by (simp add: target_C_def)
  from C6_latency_selection [where targets = "[target_C]" and first = target_C and rest = "[]"] nc
  have third: "selectByLatency [target_C]
     = Some (target_C, RoutingDecision ''C'' ''provider'' ''lowest_latency'')"
    by (simp add: target_C_def)
  have ne: "fst (getAllTargets ?r ?s) \<noteq> []" by (simp add: example_targets)
  from C6_latency_selection [where r = ?r and s = ?s and targets = "fst (getAllTargets ?r ?s)"
      and ?r1.0 = "fst (snd (getAllTargets ?r ?s))" and probes = "snd (snd (getAllTargets ?r ?s))"]
    g ne example_strategy(1) [of "''latency''"]
  obtain d counted where d: "selectByLatency (fst (getAllTargets ?r ?s)) = Some (d, counted)"
    "selectTarget ?r ?s = (Inr (Some d), fst (snd (getAllTargets ?r ?s)),
        snd (snd (getAllTargets ?r ?s)) @ [counted])"
    by blast
  from d(1) first have "d = ?a" by simp
  with d(2) have fourth: "fst (selectTarget ?r ?s) = Inr (Some ?a)" by simp
  from first second third fourth show ?thesis by simp
qed

text \<open>
  C9. When \<open>getAllTargets\<close> builds no candidate, \<open>selectTarget\<close> returns the error
  "no healthy targets available" and no target, and \<open>handleLLMRequest\<close> writes a 503
  response carrying that error and counts the request under \<open>none\<close>/\<open>503\<close>: nothing is
  forwarded, every provider was probed once (selection ran once), and the router's state is
  as before.
\<close>

theorem C9_no_targets:
  "getAllTargets r s = ([], r1, probes) \<longrightarrow>
     selectTarget r s = (Inl ''no healthy targets available'', r1, probes)
   \<and> handleLLMRequest r s endpoint
       = (r1, probes @ [HttpError 503 ''No available targets: no healthy targets available'',
                        RequestsTotal ''none'' ''503''])
   \<and> probes = map Probe (filter (\<lambda>n. providerManager r n \<noteq> None) (providerOrder s))
   \<and> r1 = r"
proof
  assume a: "getAllTargets r s = ([], r1, probes)"
  from getAllTargets_shape [OF a] have p:
    "probes = map Probe (filter (\<lambda>n. providerManager r n \<noteq> None) (providerOrder s))"
    and e: "costEngine r1 = costEngine r"
    by auto
  from a have "r1 = r \<lparr> costEngine := costEngine r1 \<rparr>"
    by (auto simp: getAllTargets_def Let_def split_beta)
  with e have r: "r1 = r" by simp
  from a have st: "selectTarget r s = (Inl ''no healthy targets available'', r1, probes)"
    by (simp add: selectTarget_def)
  then have "handleLLMRequest r s endpoint
       = (r1, probes @ [HttpError 503 ''No available targets: no healthy targets available'',
                        RequestsTotal ''none'' ''503''])"
    by (simp add: handleLLMRequest_def)
  with st p r show "selectTarget r s = (Inl ''no healthy targets available'', r1, probes)
   \<and> handleLLMRequest r s endpoint
       = (r1, probes @ [HttpError 503 ''No available targets: no healthy targets available'',
                        RequestsTotal ''none'' ''503''])
   \<and> probes = map Probe (filter (\<lambda>n. providerManager r n \<noteq> None) (providerOrder s))
   \<and> r1 = r"
    by simp
qed

lemma example_no_targets:
  "getAllTargets (example_router ''hybrid'' []) (example_surroundings 500)
     = ([], example_router ''hybrid'' [], [Probe ''C''])"
  by (simp add: getAllTargets_def example_router_def example_surroundings_def example_config_def
      checker_run_def NewChecker_def checker_AddCluster_def GetHealthyMetrics_def
      NewOpenAIProvider_def openai_Health_def Let_def split_beta)

theorem C9_witness:
  "getAllTargets (example_router ''hybrid'' []) (example_surroundings 500)
     = ([], example_router ''hybrid'' [], [Probe ''C''])
   \<and> selectTarget (example_router ''hybrid'' []) (example_surroundings 500)
     = (Inl ''no healthy targets available'', example_router ''hybrid'' [], [Probe ''C''])
   \<and> handleLLMRequest (example_router ''hybrid'' []) (example_surroundings 500)
        ''/v1/chat/completions''
     = (example_router ''hybrid'' [],
        [Probe ''C'', HttpError 503 ''No available targets: no healthy targets available'',
         RequestsTotal ''none'' ''503''])"
  using C9_no_targets [of "example_router ''hybrid'' []" "example_surroundings 500"
      "example_router ''hybrid'' []" "[Probe ''C'']" "''/v1/chat/completions''"]
    example_no_targets
  by simp

lemma not_raised_unhealthy:
  assumes "\<not> list_ex (raises n) (since_registration n calls)"
  shows "GetHealthyMetrics (checker_run i calls) n = None"
proof (cases "Checker.clusters (checker_run i calls) n")
  case None
  then show ?thesis by (simp add: GetHealthyMetrics_def)
next
  case (Some m)
  with health_inv_run [of calls i] have "Healthy m = expected_healthy n calls"
    by (simp add: health_inv_def)
  with assms have "\<not> Healthy m" by (simp add: expected_healthy_def)
  with Some show ?thesis by (simp add: GetHealthyMetrics_def)
qed

text \<open>
  C10. A cluster is absent from \<open>GetHealthyMetrics\<close> right after \<open>AddCluster\<close>, and in
  every checker reached by calls among which, since the cluster was registered, no check
  of the cluster succeeded and \<open>ForceHealthy\<close> was not called for it; then no cluster-type
  candidate of \<open>getAllTargets\<close> carries its name.
\<close>

theorem C10_unhealthy_until_raised:
  "GetHealthyMetrics (checker_AddCluster c n endpoint now) n = None
   \<and> (\<not> list_ex (raises n) (since_registration n calls) \<longrightarrow>
        GetHealthyMetrics (checker_run i calls) n = None)
   \<and> (\<not> list_ex (raises n) (since_registration n calls)
        \<and> healthChecker r = checker_run i calls
        \<and> getAllTargets r s = (targets, r1, probes) \<longrightarrow>
        \<not> (\<exists>t \<in> set targets. Type t = ''cluster'' \<and> Name t = n))"
proof (intro conjI impI)
  show "GetHealthyMetrics (checker_AddCluster c n endpoint now) n = None"
    by (simp add: GetHealthyMetrics_def checker_AddCluster_def)
next
  assume "\<not> list_ex (raises n) (since_registration n calls)"
  then show "GetHealthyMetrics (checker_run i calls) n = None"
    by (rule not_raised_unhealthy)
next
  assume a: "\<not> list_ex (raises n) (since_registration n calls)
        \<and> healthChecker r = checker_run i calls
        \<and> getAllTargets r s = (targets, r1, probes)"
  then have none: "GetHealthyMetrics (healthChecker r) n = None"
    using not_raised_unhealthy [of n calls i] by simp
  from a getAllTargets_shape [of r s targets r1 probes] obtain cs ps where
    t: "targets = cs @ ps"
    and cs: "\<forall>t \<in> set cs. Type t = ''cluster'' \<and> GetHealthyMetrics (healthChecker r) (Name t) \<noteq> None"
    and ps: "\<forall>t \<in> set ps. Type t = ''provider'' \<and> LatencyP95 t = 0"
    by blast
  show "\<not> (\<exists>t \<in> set targets. Type t = ''cluster'' \<and> Name t = n)"
  proof
    assume "\<exists>t \<in> set targets. Type t = ''cluster'' \<and> Name t = n"
    then obtain t where tt: "t \<in> set targets" "Type t = ''cluster''" "Name t = n" by blast
    from tt(1) t consider "t \<in> set cs" | "t \<in> set ps" by auto
    then show False
    proof cases
      case 1
      with cs tt(3) none show False by auto
    next
      case 2
      with ps tt(2) show False by auto
    qed
  qed
qed

lemma example_checker:
  "healthChecker (example_router strategy calls)
     = checker_run 30000000000 (Register ''a'' ''http://a'' 0 # calls)"
  by (simp add: example_router_def)

theorem C10_witness:
  "GetHealthyMetrics (checker_run 30000000000
       [Register ''a'' ''http://a'' 0, Check ''a'' (False, 0, 0, 0) 5 1]) ''a'' = None
   \<and> fst (getAllTargets (example_router ''hybrid'' [Check ''a'' (False, 0, 0, 0) 5 1])
            (example_surroundings 200)) = [target_C]"
proof -
  let ?calls = "[Register ''a'' ''http://a'' 0, Check ''a'' (False, 0, 0, 0) 5 1]"
  let ?r = "example_router ''hybrid'' [Check ''a'' (False, 0, 0, 0) 5 1]"
  let ?s = "example_surroundings 200"
  have nr: "\<not> list_ex (raises ''a'') (since_registration ''a'' ?calls)"
    by (simp add: since_registration_def after_last_def raises_def)
  have g: "getAllTargets ?r ?s
      = (fst (getAllTargets ?r ?s), fst (snd (getAllTargets ?r ?s)), snd (snd (getAllTargets ?r ?s)))"
    by simp
  have ts: "fst (getAllTargets ?r ?s) = [target_C]"
    by (simp add: getAllTargets_def example_router_def example_surroundings_def example_config_def
      checker_run_def NewChecker_def checker_AddCluster_def checkCluster_def GetHealthyMetrics_def
      NewOpenAIProvider_def provider_Name_def openai_Health_def lowest_average_def
      openai_pricing_def target_C_def Let_def split_beta word_sle_eq)
  from C10_unhealthy_until_raised [where n = "''a''" and calls = ?calls and i = 30000000000
      and r = ?r and s = ?s and targets = "fst (getAllTargets ?r ?s)"
      and ?r1.0 = "fst (snd (getAllTargets ?r ?s))" and probes = "snd (snd (getAllTargets ?r ?s))"]
    nr g example_checker [of "''hybrid''" "[Check ''a'' (False, 0, 0, 0) 5 1]"]
  have "GetHealthyMetrics (checker_run 30000000000 ?calls) ''a'' = None"
    and "\<not> (\<exists>t \<in> set (fst (getAllTargets ?r ?s)). Type t = ''cluster'' \<and> Name t = ''a'')"
    by simp_all
  with ts show ?thesis by simp
qed

text \<open>
  \<open>ForceHealthy\<close> makes a registered cluster healthy, and a candidate, without any check.
\<close>

theorem C10_counterexample:
  "GetHealthyMetrics (checker_run 30000000000 [Register ''a'' ''http://a'' 0, Force ''a'']) ''a''
     = Some \<lparr> Healthy = True, LastCheck = 0, ResponseTime = 0, ClusterMetrics.LatencyP95 = 0,
              ClusterMetrics.QueueDepth = 0, TokensPerSecond = 0, ErrorCount = 0,
              ConsecutiveError = 0, ClusterMetrics.Endpoint = ''http://a'' \<rparr>
   \<and> \<not> list_ex (succeeds ''a'') [Register ''a'' ''http://a'' 0, Force ''a'']
   \<and> fst (getAllTargets (example_router ''hybrid'' [Force ''a'']) (example_surroundings 200))
     = [\<lparr> Name = ''a'', Type = ''cluster'', Endpoint = ''http://a'', Cost = PInf,
          IsHealthy = True, LatencyP95 = 0, QueueDepth = 0, Provider = None \<rparr>, target_C]"
  by (simp add: getAllTargets_def example_router_def example_surroundings_def example_config_def
      checker_run_def NewChecker_def checker_AddCluster_def ForceHealthy_def GetHealthyMetrics_def
      CalculateCostPer1KTokens_def AddCluster_def NewEngine_def lookup_endpoint_def
      NewOpenAIProvider_def provider_Name_def openai_Health_def lowest_average_def
      openai_pricing_def target_C_def Let_def split_beta)

section \<open>Properties of the forwarder\<close>

lemma digit_value_digit_char: "d < 10 \<Longrightarrow> digit_value (digit_char d) = Some d"
  by (simp add: digit_value_def digit_char_def)

lemma digit_char_not_sign: "d < 10 \<Longrightarrow> digit_char d \<noteq> CHR ''-'' \<and> digit_char d \<noteq> CHR ''+''"
proof -
  assume d: "d < 10"
  have "digit_value (CHR ''-'') = None" "digit_value (CHR ''+'') = None"
    by (simp_all add: digit_value_def)
  with digit_value_digit_char [OF d] show ?thesis by auto
qed

lemma parse_digits_append:
  "parse_digits acc (xs @ ys)
     = (case parse_digits acc xs of None \<Rightarrow> None | Some v \<Rightarrow> parse_digits v ys)"
  by (induction xs arbitrary: acc) (auto split: option.splits)

lemma parse_decimal: "parse_digits 0 (decimal n) = Some n"
proof (induction n rule: decimal.induct)
  case (1 n)
  show ?case
  proof (cases "n < 10")
    case True
    then show ?thesis by (simp add: decimal.simps [of n] digit_value_digit_char)
  next
    case False
    from 1 [OF False] have "parse_digits 0 (decimal (n div 10)) = Some (n div 10)" .
    moreover have "n mod 10 < 10" by simp
    ultimately show ?thesis
      using False by (simp add: decimal.simps [of n] parse_digits_append digit_value_digit_char)
  qed
qed

lemma decimal_head: "decimal n \<noteq> [] \<and> hd (decimal n) \<noteq> CHR ''-'' \<and> hd (decimal n) \<noteq> CHR ''+''"
proof (induction n rule: decimal.induct)
  case (1 n)
  show ?case
  proof (cases "n < 10")
    case True
    then show ?thesis using digit_char_not_sign [of n] by (simp add: decimal.simps [of n])
  next
    case False
    with 1 [OF False] show ?thesis by (simp add: decimal.simps [of n])
  qed
qed

lemma ParseInt_FormatInt:
  assumes "- (2 ^ 63) \<le> i" "i < 2 ^ 63"
  shows "ParseInt (FormatInt i) = Some i"
proof (cases "i < 0")
  case True
  let ?n = "nat (- i)"
  from assms True have n: "?n \<le> 2 ^ 63" by (simp add: nat_le_iff)
  from True have "FormatInt i = CHR ''-'' # decimal ?n" by (simp add: FormatInt_def)
  moreover from True have "- int ?n = i" by simp
  ultimately show ?thesis
    using decimal_head [of ?n] parse_decimal [of ?n] n
    by (simp add: ParseInt_def Let_def)
next
  case False
  let ?n = "nat i"
  from assms False have n: "?n < 2 ^ 63" by (simp add: nat_less_iff)
  from False have "FormatInt i = decimal ?n" by (simp add: FormatInt_def)
  moreover from False have "int ?n = i" by simp
  ultimately show ?thesis
    using decimal_head [of ?n] parse_decimal [of ?n] n
    by (simp add: ParseInt_def Let_def)
qed

lemma FormatInt_nonempty: "FormatInt i \<noteq> []"
  using decimal_head by (simp add: FormatInt_def)

lemma digest_length: "length (digest st) = 32"
  by (cases st rule: digest.cases) (simp add: be32_def)

lemma sha256_length: "length (sha256 m) = 32"
  by (simp add: sha256_def digest_length)

lemma sign_nonempty: "sign secret payload \<noteq> []"
proof -
  have "length (hmac_sha256 (bytes_of secret) (bytes_of payload)) = 32"
    by (simp add: hmac_sha256_def Let_def sha256_length)
  then obtain b bs where "hmac_sha256 (bytes_of secret) (bytes_of payload) = b # bs"
    by (cases "hmac_sha256 (bytes_of secret) (bytes_of payload)") auto
  then show ?thesis by (simp add: sign_def EncodeToString_def)
qed

lemma sint_range: "- (2 ^ 63) \<le> sint (w :: go_int) \<and> sint w < 2 ^ 63"
  using sint_ge [of w] sint_lt [of w] by simp

lemma sint_diff:
  assumes "- (2 ^ 63) \<le> sint (a :: go_int) - sint b" "sint a - sint b < 2 ^ 63"
  shows "sint (a - b) = sint a - sint b"
  using assms by (simp add: sint_word_ariths signed_take_bit_int_eq_self)

lemma window_check:
  assumes "\<bar>sint (now :: go_int) - sint ts\<bar> < 2 ^ 63"
  shows "(300 <s go_abs (now - ts)) = (300 < \<bar>sint now - sint ts\<bar>)"
proof -
  let ?d = "sint now - sint ts"
  from assms have r: "- (2 ^ 63) \<le> ?d" "?d < 2 ^ 63" by linarith+
  then have d: "sint (now - ts) = ?d" by (rule sint_diff)
  show ?thesis
  proof (cases "?d < 0")
    case True
    from assms have "- (2 ^ 63) \<le> - ?d" "- ?d < 2 ^ 63" by linarith+
    then have "sint (- (now - ts)) = - ?d"
      using d by (simp add: sint_word_ariths signed_take_bit_int_eq_self)
    with True d show ?thesis by (simp add: go_abs_def word_sless_alt)
  next
    case False
    with d show ?thesis by (simp add: go_abs_def word_sless_alt)
  qed
qed

lemma sint_word_of_int_range:
  assumes "- (2 ^ 63) \<le> i" "i < 2 ^ 63"
  shows "sint (word_of_int i :: go_int) = i"
  using assms by (simp add: sint_sbintrunc' signed_take_bit_int_eq_self)

lemma signed_headers:
  "Header_Get (Header (addHMACAuth req secret body t0)) ''X-Timestamp'' = FormatInt (sint t0)"
  "Header_Get (Header (addHMACAuth req secret body t0)) ''X-Signature''
     = sign secret (FormatInt (sint t0) @ Method req @ Path req @ body)"
  "Header_Get (Header (addHMACAuth req secret body t0)) ''X-Auth-Type'' = ''hmac-sha256''"
  "Method (addHMACAuth req secret body t0) = Method req"
  "Path (addHMACAuth req secret body t0) = Path req"
  by (simp_all add: addHMACAuth_def Header_Get_def Header_Set_def Let_def)

lemma validate_unfold:
  assumes "Header_Get (Header r) ''X-Timestamp'' \<noteq> []" "Header_Get (Header r) ''X-Signature'' \<noteq> []"
    and "Header_Get (Header r) ''X-Auth-Type'' = ''hmac-sha256''"
    and "ParseInt (Header_Get (Header r) ''X-Timestamp'') = Some t"
  shows "ValidateHMACSignature r secret body now =
     (\<not> 300 <s go_abs (now - word_of_int t)
      \<and> Header_Get (Header r) ''X-Signature''
          = sign secret (Header_Get (Header r) ''X-Timestamp'' @ Method r @ Path r @ body))"
  using assms by (simp add: ValidateHMACSignature_def Let_def)

lemma validate_mismatch:
  assumes "Header_Get (Header r) ''X-Signature''
             \<noteq> sign secret (Header_Get (Header r) ''X-Timestamp'' @ Method r @ Path r @ body)"
  shows "\<not> ValidateHMACSignature r secret body now"
  using assms by (auto simp: ValidateHMACSignature_def Let_def split: option.splits)

lemma ParseInt_range: "ParseInt s = Some t \<Longrightarrow> - (2 ^ 63) \<le> t \<and> t < 2 ^ 63"
  by (auto simp: ParseInt_def Let_def split: if_splits option.splits)

lemma validate_stale:
  assumes "ParseInt (Header_Get (Header r) ''X-Timestamp'') = Some t"
    and "300 < \<bar>sint now - t\<bar>" "\<bar>sint now - t\<bar> < 2 ^ 63"
  shows "\<not> ValidateHMACSignature r secret body now"
proof -
  from ParseInt_range [OF assms(1)] have "sint (word_of_int t :: go_int) = t"
    using sint_word_of_int_range by blast
  with assms(2,3) window_check [of now "word_of_int t"]
  have "300 <s go_abs (now - word_of_int t)" by simp
  with assms(1) show ?thesis
    by (auto simp: ValidateHMACSignature_def Let_def)
qed

lemma validate_fresh:
  assumes "\<bar>sint now - sint t0\<bar> \<le> 300"
  shows "ValidateHMACSignature (addHMACAuth req secret body t0) secret body now"
proof -
  let ?r = "addHMACAuth req secret body t0"
  have p: "ParseInt (Header_Get (Header ?r) ''X-Timestamp'') = Some (sint t0)"
    using sint_range [of t0] by (simp add: signed_headers ParseInt_FormatInt)
  have w: "\<not> 300 <s go_abs (now - t0)"
    using assms window_check [of now t0] by simp
  have "ValidateHMACSignature ?r secret body now =
     (\<not> 300 <s go_abs (now - word_of_int (sint t0))
      \<and> Header_Get (Header ?r) ''X-Signature''
          = sign secret (Header_Get (Header ?r) ''X-Timestamp'' @ Method ?r @ Path ?r @ body))"
  proof (rule validate_unfold [OF _ _ _ p])
    show "Header_Get (Header ?r) ''X-Timestamp'' \<noteq> []"
      by (simp add: signed_headers FormatInt_nonempty)
    show "Header_Get (Header ?r) ''X-Signature'' \<noteq> []"
      by (simp add: signed_headers sign_nonempty)
    show "Header_Get (Header ?r) ''X-Auth-Type'' = ''hmac-sha256''"
      by (rule signed_headers)
  qed
  with w show ?thesis by (simp add: signed_headers)
qed

text \<open>
  C4. \<open>addHMACAuth\<close> sets \<open>X-Timestamp\<close> to the decimal clock reading, \<open>X-Signature\<close> to the
  hexadecimal HMAC-SHA256, under the secret, of timestamp + method + path + body, and
  \<open>X-Auth-Type\<close> to \<open>hmac-sha256\<close>. \<open>ValidateHMACSignature\<close> with the same secret and body
  accepts the signed request when its clock is within 300 seconds of the signing time; it
  rejects any request whose timestamp differs from its clock by more than 300 seconds (the
  difference being below \<open>2^63\<close>), whatever the signature; and it rejects any request whose
  \<open>X-Signature\<close> is not the hexadecimal HMAC-SHA256, under the verifier's secret, of the
  received timestamp + method + path + body.
\<close>

theorem C4_hmac_authentication:
  "Header_Get (Header (addHMACAuth req secret body t0)) ''X-Timestamp'' = FormatInt (sint t0)
   \<and> Header_Get (Header (addHMACAuth req secret body t0)) ''X-Signature''
       = EncodeToString (hmac_sha256 (bytes_of secret)
           (bytes_of (FormatInt (sint t0) @ Method req @ Path req @ body)))
   \<and> Header_Get (Header (addHMACAuth req secret body t0)) ''X-Auth-Type'' = ''hmac-sha256''
   \<and> (\<bar>sint now - sint t0\<bar> \<le> 300 \<longrightarrow>
        ValidateHMACSignature (addHMACAuth req secret body t0) secret body now)
   \<and> (ParseInt (Header_Get (Header r) ''X-Timestamp'') = Some t
        \<and> 300 < \<bar>sint now - t\<bar> \<and> \<bar>sint now - t\<bar> < 2 ^ 63 \<longrightarrow>
        \<not> ValidateHMACSignature r secret' body' now)
   \<and> (Header_Get (Header r) ''X-Signature''
         \<noteq> EncodeToString (hmac_sha256 (bytes_of secret')
               (bytes_of (Header_Get (Header r) ''X-Timestamp'' @ Method r @ Path r @ body'))) \<longrightarrow>
        \<not> ValidateHMACSignature r secret' body' now)"
proof (intro conjI impI)
  show "Header_Get (Header (addHMACAuth req secret body t0)) ''X-Timestamp'' = FormatInt (sint t0)"
    by (rule signed_headers)
  show "Header_Get (Header (addHMACAuth req secret body t0)) ''X-Signature''
       = EncodeToString (hmac_sha256 (bytes_of secret)
           (bytes_of (FormatInt (sint t0) @ Method req @ Path req @ body)))"
    by (simp add: signed_headers sign_def)
  show "Header_Get (Header (addHMACAuth req secret body t0)) ''X-Auth-Type'' = ''hmac-sha256''"
    by (rule signed_headers)
next
  assume "\<bar>sint now - sint t0\<bar> \<le> 300"
  then show "ValidateHMACSignature (addHMACAuth req secret body t0) secret body now"
    by (rule validate_fresh)
next
  assume "ParseInt (Header_Get (Header r) ''X-Timestamp'') = Some t
        \<and> 300 < \<bar>sint now - t\<bar> \<and> \<bar>sint now - t\<bar> < 2 ^ 63"
  then show "\<not> ValidateHMACSignature r secret' body' now"
    using validate_stale by blast
next
  assume "Header_Get (Header r) ''X-Signature''
         \<noteq> EncodeToString (hmac_sha256 (bytes_of secret')
               (bytes_of (Header_Get (Header r) ''X-Timestamp'' @ Method r @ Path r @ body')))"
  then show "\<not> ValidateHMACSignature r secret' body' now"
    using validate_mismatch [of r secret' body' now] by (simp add: sign_def)
qed

lemma hmac_key_zero:
  assumes "length key < 64"
  shows "hmac_key (key @ [0]) = hmac_key key"
proof -
  from assms have "64 - length key = Suc (63 - length key)" by simp
  then have "replicate (64 - length key) (0::byte) = 0 # replicate (63 - length key) 0"
    by simp
  with assms show ?thesis by (simp add: hmac_key_def Let_def)
qed

lemma sign_zero_secret:
  assumes "length secret < 64"
  shows "sign (secret @ [CHR 0x00]) payload = sign secret payload"
proof -
  have "bytes_of (secret @ [CHR 0x00]) = bytes_of secret @ [0]"
    by (simp add: bytes_of_def byte_of_char_def)
  moreover have "length (bytes_of secret) < 64" using assms by (simp add: bytes_of_def)
  ultimately show ?thesis by (simp add: sign_def hmac_sha256_def hmac_key_zero)
qed

lemma sign_length: "length (sign secret payload) = 64"
proof -
  have "length (hmac_sha256 (bytes_of secret) (bytes_of payload)) = 32"
    by (simp add: hmac_sha256_def Let_def sha256_length)
  moreover have "length (EncodeToString bs) = 2 * length bs" for bs
    by (induction bs) (simp_all add: EncodeToString_def)
  ultimately show ?thesis by (simp add: sign_def)
qed

lemma example_timestamp:
  "ParseInt (FormatInt (sint (1700000000 :: go_int))) = Some 1700000000"
  by (simp add: ParseInt_FormatInt)

text \<open>
  The signed data is a plain concatenation and HMAC pads a short key with zero bytes: a
  request signed for path \<open>/v1/a\<close> and body \<open>bc\<close> is accepted for path \<open>/v1/ab\<close> and
  body \<open>c\<close>, and under the secret followed by a zero byte.
\<close>

theorem C4_counterexample:
  "ValidateHMACSignature
     ((addHMACAuth example_request ''secret'' ''bc'' 1700000000) \<lparr> Path := ''/v1/ab'' \<rparr>)
     ''secret'' ''c'' 1700000001
   \<and> ValidateHMACSignature (addHMACAuth example_request ''secret'' ''bc'' 1700000000)
        (''secret'' @ [CHR 0x00]) ''bc'' 1700000001"
proof
  let ?r = "(addHMACAuth example_request ''secret'' ''bc'' 1700000000) \<lparr> Path := ''/v1/ab'' \<rparr>"
  have p: "ParseInt (Header_Get (Header ?r) ''X-Timestamp'') = Some 1700000000"
    using example_timestamp by (simp add: signed_headers)
  have "ValidateHMACSignature ?r ''secret'' ''c'' 1700000001 =
     (\<not> 300 <s go_abs (1700000001 - word_of_int 1700000000)
      \<and> Header_Get (Header ?r) ''X-Signature''
          = sign ''secret'' (Header_Get (Header ?r) ''X-Timestamp'' @ Method ?r @ Path ?r @ ''c''))"
  proof (rule validate_unfold [OF _ _ _ p])
    show "Header_Get (Header ?r) ''X-Timestamp'' \<noteq> []"
      by (simp add: signed_headers FormatInt_nonempty)
    show "Header_Get (Header ?r) ''X-Signature'' \<noteq> []"
      by (simp add: signed_headers sign_nonempty)
    show "Header_Get (Header ?r) ''X-Auth-Type'' = ''hmac-sha256''"
      by (simp add: signed_headers)
  qed
  then show "ValidateHMACSignature ?r ''secret'' ''c'' 1700000001"
    by (simp add: signed_headers example_request_def go_abs_def word_sless_alt)
next
  let ?r = "addHMACAuth example_request ''secret'' ''bc'' 1700000000"
  have p: "ParseInt (Header_Get (Header ?r) ''X-Timestamp'') = Some 1700000000"
    using example_timestamp by (simp add: signed_headers)
  have "ValidateHMACSignature ?r (''secret'' @ [CHR 0x00]) ''bc'' 1700000001 =
     (\<not> 300 <s go_abs (1700000001 - word_of_int 1700000000)
      \<and> Header_Get (Header ?r) ''X-Signature''
          = sign (''secret'' @ [CHR 0x00]) (Header_Get (Header ?r) ''X-Timestamp'' @ Method ?r @ Path ?r @ ''bc''))"
  proof (rule validate_unfold [OF _ _ _ p])
    show "Header_Get (Header ?r) ''X-Timestamp'' \<noteq> []"
      by (simp add: signed_headers FormatInt_nonempty)
    show "Header_Get (Header ?r) ''X-Signature'' \<noteq> []"
      by (simp add: signed_headers sign_nonempty)
    show "Header_Get (Header ?r) ''X-Auth-Type'' = ''hmac-sha256''"
      by (simp add: signed_headers)
  qed
  moreover have "sign (''secret'' @ [CHR 0x00]) payload = sign ''secret'' payload" for payload
    by (rule sign_zero_secret) simp
  ultimately show "ValidateHMACSignature ?r (''secret'' @ [CHR 0x00]) ''bc'' 1700000001"
    by (simp add: signed_headers go_abs_def word_sless_alt)
qed

theorem C4_witness:
  "ValidateHMACSignature (addHMACAuth example_request ''secret'' ''bc'' 1700000000)
     ''secret'' ''bc'' 1700000300
   \<and> \<not> ValidateHMACSignature (addHMACAuth example_request ''secret'' ''bc'' 1700000000)
     ''secret'' ''bc'' 1700000301
   \<and> \<not> ValidateHMACSignature forged_request ''secret'' ''bc'' 1700000000"
proof -
  let ?r = "addHMACAuth example_request ''secret'' ''bc'' 1700000000"
  have fresh: "\<bar>sint (1700000300 :: go_int) - sint (1700000000 :: go_int)\<bar> \<le> 300" by simp
  have p: "ParseInt (Header_Get (Header ?r) ''X-Timestamp'') = Some 1700000000"
    using example_timestamp by (simp add: signed_headers)
  have stale: "300 < \<bar>sint (1700000301 :: go_int) - 1700000000\<bar>
               \<and> \<bar>sint (1700000301 :: go_int) - 1700000000\<bar> < 2 ^ 63" by simp
  have l8: "length (Header_Get (Header forged_request) ''X-Signature'') = 8"
    by (simp add: forged_request_def Header_Get_def Header_Set_def)
  have l64: "length (EncodeToString (hmac_sha256 (bytes_of ''secret'')
          (bytes_of (Header_Get (Header forged_request) ''X-Timestamp'' @ Method forged_request
             @ Path forged_request @ ''bc'')))) = 64"
    using sign_length [of "''secret''"] by (simp add: sign_def)
  have forged: "Header_Get (Header forged_request) ''X-Signature''
      \<noteq> EncodeToString (hmac_sha256 (bytes_of ''secret'')
          (bytes_of (Header_Get (Header forged_request) ''X-Timestamp'' @ Method forged_request
             @ Path forged_request @ ''bc'')))"
  proof
    assume "Header_Get (Header forged_request) ''X-Signature''
      = EncodeToString (hmac_sha256 (bytes_of ''secret'')
          (bytes_of (Header_Get (Header forged_request) ''X-Timestamp'' @ Method forged_request
             @ Path forged_request @ ''bc'')))"
    then have "length (Header_Get (Header forged_request) ''X-Signature'')
      = length (EncodeToString (hmac_sha256 (bytes_of ''secret'')
          (bytes_of (Header_Get (Header forged_request) ''X-Timestamp'' @ Method forged_request
             @ Path forged_request @ ''bc''))))"
      by simp
    with l8 l64 show False by simp
  qed
  from C4_hmac_authentication [where req = example_request and secret = "''secret''"
      and body = "''bc''" and ?t0.0 = 1700000000 and now = 1700000300] fresh
  have first: "ValidateHMACSignature ?r ''secret'' ''bc'' 1700000300" by blast
  from C4_hmac_authentication [where r = ?r and t = 1700000000 and now = 1700000301
      and secret' = "''secret''" and body' = "''bc''"] p stale
  have second: "\<not> ValidateHMACSignature ?r ''secret'' ''bc'' 1700000301" by blast
  from C4_hmac_authentication [where r = forged_request and secret' = "''secret''"
      and body' = "''bc''" and now = 1700000000] forged
  have third: "\<not> ValidateHMACSignature forged_request ''secret'' ''bc'' 1700000000" by blast
  from first second third show ?thesis by simp
qed

text \<open>
  The replay check computes \<open>abs(now - ts)\<close> in 64 bits: for a timestamp \<open>2^63\<close> seconds
  before the clock the difference wraps to the least \<open>int64\<close>, whose negation is itself,
  and a request signed for that timestamp passes the check.
\<close>

lemma replay_window_wraps:
  "ValidateHMACSignature (addHMACAuth example_request ''secret'' ''bc'' (- 9223372035154775808))
     ''secret'' ''bc'' 1700000000"
proof -
  let ?t0 = "- 9223372035154775808 :: go_int"
  let ?r = "addHMACAuth example_request ''secret'' ''bc'' ?t0"
  have p: "ParseInt (Header_Get (Header ?r) ''X-Timestamp'') = Some (sint ?t0)"
    using sint_range [of ?t0] ParseInt_FormatInt [of "sint ?t0"] by (simp add: signed_headers)
  have "ValidateHMACSignature ?r ''secret'' ''bc'' 1700000000 =
     (\<not> 300 <s go_abs (1700000000 - word_of_int (sint ?t0))
      \<and> Header_Get (Header ?r) ''X-Signature''
          = sign ''secret'' (Header_Get (Header ?r) ''X-Timestamp'' @ Method ?r @ Path ?r @ ''bc''))"
  proof (rule validate_unfold [OF _ _ _ p])
    show "Header_Get (Header ?r) ''X-Timestamp'' \<noteq> []"
      by (simp add: signed_headers FormatInt_nonempty)
    show "Header_Get (Header ?r) ''X-Signature'' \<noteq> []"
      by (simp add: signed_headers sign_nonempty)
    show "Header_Get (Header ?r) ''X-Auth-Type'' = ''hmac-sha256''"
      by (simp add: signed_headers)
  qed
  moreover have "\<not> 300 <s go_abs (1700000000 - word_of_int (sint ?t0))"
    by (simp add: go_abs_def word_sless_alt)
  ultimately show ?thesis by (simp add: signed_headers)
qed

end
